(* ===== verification/Voting_Prelude.thy ===== *)
theory Voting_Prelude
  imports "HOL-Library.Word" "HOL-Library.Sublist"
begin

text \<open>
  Shared vocabulary of the development: the machine types of the Rust sources, the
  \<open>Result\<close> combinators every component uses, big-endian byte strings with their
  length-prefixed framing, and the lemma collections the component theories extend.

  Rust values are modelled as follows.  An unsigned integer of \<open>w\<close> bits is a
  \<open>w word\<close>; \<open>usize\<close> counters that the code keeps far below their width are
  \<open>nat\<close>.  A byte slice is a list of bytes.  A \<open>String\<close> of which the code only reads
  the bytes (wallet ids, column values) is its list of UTF-8 bytes; a \<open>&str\<close> that is
  read character by character is the list of its Unicode scalar values; a string that the
  code itself writes in ASCII is a HOL \<open>string\<close>.  A \<open>Result\<close> is a sum with the error
  on the left.
\<close>

section \<open>Machine types\<close>

type_synonym u8 = "8 word"
type_synonym u16 = "16 word"
type_synonym u32 = "32 word"
type_synonym u64 = "64 word"
type_synonym bytes = "u8 list"
type_synonym unicode = "nat list"

definition lit :: "string \<Rightarrow> unicode" where
  "lit s = map of_char s"

definition ascii_bytes :: "string \<Rightarrow> bytes" where
  "ascii_bytes s = map (\<lambda>c. of_nat (of_char c)) s"

text \<open>Decimal and lowercase hexadecimal rendering of an unsigned number.\<close>

fun decimal :: "nat \<Rightarrow> string" where
  "decimal n =
     (if n < 10 then [char_of (48 + n)] else decimal (n div 10) @ [char_of (48 + n mod 10)])"

declare decimal.simps [simp del]

definition hex_digit :: "nat \<Rightarrow> char" where
  "hex_digit n = char_of (if n < 10 then 48 + n else 87 + n)"

fun hex_lower :: "nat \<Rightarrow> string" where
  "hex_lower n =
     (if n < 16 then [hex_digit n] else hex_lower (n div 16) @ [hex_digit (n mod 16)])"

declare hex_lower.simps [simp del]

section \<open>Results\<close>

named_theorems result_simps \<open>equations of the Result combinators\<close>
named_theorems lifecycle_simps \<open>equations that evaluate one lifecycle transition\<close>
named_theorems store_simps \<open>definitions unfolded when a store operation is evaluated\<close>

definition and_then :: "'e + 'a \<Rightarrow> ('a \<Rightarrow> 'e + 'b) \<Rightarrow> 'e + 'b" where
  "and_then r f = (case r of Inl e \<Rightarrow> Inl e | Inr a \<Rightarrow> f a)"

definition map_err :: "('e \<Rightarrow> 'f) \<Rightarrow> 'e + 'a \<Rightarrow> 'f + 'a" where
  "map_err g r = (case r of Inl e \<Rightarrow> Inl (g e) | Inr a \<Rightarrow> Inr a)"

definition ok_or :: "'e \<Rightarrow> 'a option \<Rightarrow> 'e + 'a" where
  "ok_or e x = (case x of None \<Rightarrow> Inl e | Some a \<Rightarrow> Inr a)"

definition ensure :: "bool \<Rightarrow> 'e \<Rightarrow> 'e + unit" where
  "ensure b e = (if b then Inr () else Inl e)"

lemma and_then_simps [simp, result_simps]:
  "and_then (Inl e) f = Inl e"
  "and_then (Inr a) f = f a"
  by (simp_all add: and_then_def)

lemma and_then_eq_Inr [simp]: "and_then r f = Inr b \<longleftrightarrow> (\<exists>a. r = Inr a \<and> f a = Inr b)"
  by (cases r) auto

lemma and_then_eq_Inl:
  "and_then r f = Inl e \<longleftrightarrow> r = Inl e \<or> (\<exists>a. r = Inr a \<and> f a = Inl e)"
  by (cases r) auto

lemma map_err_simps [simp, result_simps]:
  "map_err g (Inl e) = Inl (g e)"
  "map_err g (Inr a) = Inr a"
  by (simp_all add: map_err_def)

lemma map_err_eq_Inr [simp]: "map_err g r = Inr a \<longleftrightarrow> r = Inr a"
  by (cases r) auto

lemma ok_or_simps [simp, result_simps]:
  "ok_or e None = Inl e"
  "ok_or e (Some a) = Inr a"
  by (simp_all add: ok_or_def)

lemma ok_or_eq_Inr [simp]: "ok_or e x = Inr a \<longleftrightarrow> x = Some a"
  by (cases x) auto

lemma ensure_simps [simp, result_simps]:
  "ensure True e = Inr ()"
  "ensure False e = Inl e"
  by (simp_all add: ensure_def)

lemma ensure_eq_Inr [simp]: "ensure b e = Inr u \<longleftrightarrow> b"
  by (simp add: ensure_def)

lemma ensure_eq_Inl [simp]: "ensure b e = Inl e' \<longleftrightarrow> \<not> b \<and> e' = e"
  by (auto simp add: ensure_def)

section \<open>Big-endian byte strings\<close>

text \<open>\<open>be_bytes k v\<close> is \<open>to_be_bytes\<close> of an unsigned integer of \<open>k\<close> bytes.\<close>

fun be_bytes :: "nat \<Rightarrow> nat \<Rightarrow> bytes" where
  "be_bytes 0 v = []"
| "be_bytes (Suc k) v = of_nat (v div 256 ^ k) # be_bytes k v"

fun be_nat :: "bytes \<Rightarrow> nat" where
  "be_nat [] = 0"
| "be_nat (b # bs) = unat b * 256 ^ length bs + be_nat bs"

definition be_u64 :: "u64 \<Rightarrow> bytes" where
  "be_u64 w = be_bytes 8 (unat w)"

definition be_u32 :: "u32 \<Rightarrow> bytes" where
  "be_u32 w = be_bytes 4 (unat w)"

lemma length_be_bytes [simp]: "length (be_bytes k v) = k"
  by (induction k) simp_all

lemma be_nat_bytes: "be_nat (be_bytes k v) = v mod 256 ^ k"
proof (induction k)
  case (Suc k)
  have "v mod 256 ^ Suc k = (v div 256 ^ k mod 256) * 256 ^ k + v mod 256 ^ k"
    using mod_mult2_eq [of v "256 ^ k" 256] by (simp add: mult.commute)
  with Suc show ?case
    by (simp add: unat_of_nat)
qed simp

lemma be_nat_less: "be_nat bs < 256 ^ length bs"
proof (induction bs)
  case (Cons b bs)
  have "unat b \<le> 255"
    using unsigned_less [of b, where ?'a = nat] by simp
  then have "unat b * 256 ^ length bs \<le> 255 * 256 ^ length bs"
    by (rule mult_le_mono1)
  with Cons have "unat b * 256 ^ length bs + be_nat bs < 256 * 256 ^ length bs"
    by linarith
  then show ?case
    by simp
qed simp

lemma be_nat_inject:
  "\<lbrakk>length as = length bs; be_nat as = be_nat bs\<rbrakk> \<Longrightarrow> as = bs"
proof (induction as bs rule: list_induct2)
  case (Cons a as b bs)
  let ?p = "256 ^ length bs :: nat"
  have less: "be_nat as < ?p" "be_nat bs < ?p"
    using be_nat_less [of as] be_nat_less [of bs] Cons.hyps by simp_all
  have eq: "unat a * ?p + be_nat as = unat b * ?p + be_nat bs"
    using Cons.prems Cons.hyps by simp
  have "unat a = (unat a * ?p + be_nat as) div ?p" "be_nat as = (unat a * ?p + be_nat as) mod ?p"
    using less by simp_all
  with eq less have "unat a = unat b" "be_nat as = be_nat bs"
    by simp_all
  with Cons.IH show ?case
    by (simp add: word_unat_eq_iff)
qed simp

lemma be_bytes_be_nat: "be_bytes (length bs) (be_nat bs) = bs"
  by (rule be_nat_inject) (simp_all add: be_nat_bytes be_nat_less)

lemma be_bytes_eq_iff:
  "\<lbrakk>v < 256 ^ k; w < 256 ^ k\<rbrakk> \<Longrightarrow> be_bytes k v = be_bytes k w \<longleftrightarrow> v = w"
  by (metis be_nat_bytes mod_less)

lemma be_u64_simps [simp]:
  "length (be_u64 w) = 8"
  "be_nat (be_u64 w) = unat w"
  "be_u64 v = be_u64 w \<longleftrightarrow> v = w"
proof -
  have bound: "unat x < 256 ^ 8" for x :: u64
    using unsigned_less [of x] by simp
  show "length (be_u64 w) = 8"
    by (simp add: be_u64_def)
  show "be_nat (be_u64 w) = unat w"
    using bound [of w] by (simp add: be_u64_def be_nat_bytes)
  show "be_u64 v = be_u64 w \<longleftrightarrow> v = w"
    using bound by (simp add: be_u64_def be_bytes_eq_iff word_unat_eq_iff)
qed

lemma be_u32_simps [simp]:
  "length (be_u32 w) = 4"
  "be_nat (be_u32 w) = unat w"
  "be_u32 v = be_u32 w \<longleftrightarrow> v = w"
proof -
  have bound: "unat x < 256 ^ 4" for x :: u32
    using unsigned_less [of x] by simp
  show "length (be_u32 w) = 4"
    by (simp add: be_u32_def)
  show "be_nat (be_u32 w) = unat w"
    using bound [of w] by (simp add: be_u32_def be_nat_bytes)
  show "be_u32 v = be_u32 w \<longleftrightarrow> v = w"
    using bound by (simp add: be_u32_def be_bytes_eq_iff word_unat_eq_iff)
qed

section \<open>Length-prefixed framing\<close>

text \<open>A value preceded by its length as a big-endian integer of \<open>k\<close> bytes.\<close>

definition framed :: "nat \<Rightarrow> bytes \<Rightarrow> bytes" where
  "framed k v = be_bytes k (length v mod 256 ^ k) @ v"

lemma framed_append_eq_iff:
  assumes "length v < 256 ^ k" "length w < 256 ^ k"
  shows "framed k v @ r = framed k w @ s \<longleftrightarrow> v = w \<and> r = s"
  using assms by (auto simp add: framed_def be_bytes_eq_iff append_eq_append_conv)

lemma same_length_append_eq:
  "length a = length b \<Longrightarrow> a @ r = b @ s \<longleftrightarrow> a = b \<and> r = s"
  by simp

section \<open>Lists and options\<close>

lemma find_Some_iff_in: "find P xs = Some x \<Longrightarrow> x \<in> set xs \<and> P x"
  by (induction xs) (auto split: if_splits)

lemma distinct_map_find:
  "\<lbrakk>distinct (map f xs); x \<in> set xs\<rbrakk> \<Longrightarrow> find (\<lambda>y. f y = f x) xs = Some x"
  by (induction xs) (auto simp add: rev_image_eqI)

lemma unat_less_iff_word_less: "unat x < unat y \<longleftrightarrow> x < y"
  by (simp add: word_less_nat_alt)

lemma unat_plus_one_if_less:
  "x < (y :: 'a::len word) \<Longrightarrow> unat (x + 1) = unat x + 1"
proof -
  assume "x < y"
  then have "unat x + 1 < 2 ^ LENGTH('a)"
    using unsigned_less [of y, where ?'a = nat]
    by (simp only: word_less_nat_alt)
  then show ?thesis
    by (simp add: unat_word_ariths)
qed

section \<open>Runs of fallible steps\<close>

text \<open>A sequence of inputs applied to a state until the first error.\<close>

fun run_steps :: "('s \<Rightarrow> 'o \<Rightarrow> 'e + 's) \<Rightarrow> 's \<Rightarrow> 'o list \<Rightarrow> 'e + 's" where
  "run_steps step s [] = Inr s"
| "run_steps step s (x # xs) = and_then (step s x) (\<lambda>t. run_steps step t xs)"

lemma run_steps_append:
  "run_steps step s (xs @ ys) = and_then (run_steps step s xs) (\<lambda>t. run_steps step t ys)"
  by (induction xs arbitrary: s) (auto simp add: and_then_def split: sum.splits)

text \<open>A property of state and history that every successful step keeps.\<close>

locale stepwise_invariant =
  fixes step :: "'s \<Rightarrow> 'o \<Rightarrow> 'e + 's"
    and holds :: "'o list \<Rightarrow> 's \<Rightarrow> bool"
  assumes step_holds: "\<lbrakk>holds hist s; step s x = Inr t\<rbrakk> \<Longrightarrow> holds (hist @ [x]) t"
begin

lemma run_holds:
  "\<lbrakk>holds hist s; run_steps step s xs = Inr t\<rbrakk> \<Longrightarrow> holds (hist @ xs) t"
proof (induction xs arbitrary: hist s)
  case (Cons x xs)
  then obtain u where "step s x = Inr u" "run_steps step u xs = Inr t"
    by auto
  with Cons.IH [of "hist @ [x]" u] Cons.prems step_holds show ?case
    by simp
qed simp

end

end
