(* ===== verification/Submission_Identity.thy ===== *)
theory Submission_Identity
  imports Voting_Prelude
begin

text \<open>
  Semantic submission identities (\<open>chain_submission/identity.rs\<close>): the target of a chain
  submission, the validated identity, the durable primary key derived from it, generations and
  candidate transaction hashes.  The main result is that the key is injective, so one row of
  the submission table belongs to exactly one identity; it is exported through the locale
  \<open>keyed_identity\<close>, which the store uses.

  Two third-party operations are parameters: \<open>pallas_canonical\<close> stands for
  \<open>pallas::Base::from_repr(..).is_some()\<close> and \<open>hex_decode\<close>, \<open>hex_encode\<close> for the
  functions of the \<open>hex\<close> crate.
\<close>

section \<open>Identities\<close>

datatype Network = Testnet | Mainnet | Regtest

datatype ChainSubmissionTarget =
    Delegation
  | Vote (proposal_id: u32)
  | VoteBatch (ordered_batch_digest: bytes)
  | DelegateAndVoteBatch (combined_batch_digest: bytes)

fun batch_digest :: "ChainSubmissionTarget \<Rightarrow> bytes option" where
  "batch_digest (VoteBatch digest) = Some digest"
| "batch_digest (DelegateAndVoteBatch digest) = Some digest"
| "batch_digest _ = None"

fun is_combined :: "ChainSubmissionTarget \<Rightarrow> bool" where
  "is_combined (DelegateAndVoteBatch _) = True"
| "is_combined _ = False"

record ChainSubmissionIdentity =
  wallet_id :: bytes
  network :: Network
  vote_round_id :: bytes
  bundle_index :: u32
  target :: ChainSubmissionTarget

datatype ChainSubmissionIdentityError =
    EmptyWalletId
  | InvalidVoteRoundId
  | InvalidProposalId u32

definition MIN_PROPOSAL_ID :: u32 where
  "MIN_PROPOSAL_ID = 1"

definition MAX_PROPOSAL_ID :: u32 where
  "MAX_PROPOSAL_ID = 50"

definition MAX_VOTE_BATCH_ACTIONS :: nat where
  "MAX_VOTE_BATCH_ACTIONS = unat MAX_PROPOSAL_ID"

text \<open>\<open>types.rs\<close>: the round id is 32 bytes that encode a Pallas field element.\<close>

definition validate_vote_round_id_bytes :: "(bytes \<Rightarrow> bool) \<Rightarrow> bytes \<Rightarrow> string + unit" where
  "validate_vote_round_id_bytes pallas_canonical round_id =
     (if length round_id \<noteq> 32
      then Inl (''vote_round_id must be 32 bytes, got '' @ decimal (length round_id))
      else if \<not> pallas_canonical round_id
      then Inl ''vote_round_id is not a canonical Pallas field element''
      else Inr ())"

definition identity_new ::
  "(bytes \<Rightarrow> bool) \<Rightarrow> bytes \<Rightarrow> Network \<Rightarrow> bytes \<Rightarrow> u32 \<Rightarrow> ChainSubmissionTarget
   \<Rightarrow> ChainSubmissionIdentityError + ChainSubmissionIdentity" where
  "identity_new pallas_canonical wallet net round_id bundle tgt =
     (if wallet = [] then Inl EmptyWalletId
      else if validate_vote_round_id_bytes pallas_canonical round_id \<noteq> Inr ()
      then Inl InvalidVoteRoundId
      else case tgt of
          Vote pid \<Rightarrow>
            if MIN_PROPOSAL_ID \<le> pid \<and> pid \<le> MAX_PROPOSAL_ID
            then Inr \<lparr>wallet_id = wallet, network = net, vote_round_id = round_id,
                      bundle_index = bundle, target = tgt\<rparr>
            else Inl (InvalidProposalId pid)
        | _ \<Rightarrow> Inr \<lparr>wallet_id = wallet, network = net, vote_round_id = round_id,
                     bundle_index = bundle, target = tgt\<rparr>)"

fun network_name :: "Network \<Rightarrow> string" where
  "network_name Mainnet = ''mainnet''"
| "network_name Testnet = ''testnet''"
| "network_name Regtest = ''regtest''"

section \<open>Durable keys\<close>

definition identity_key_domain :: bytes where
  "identity_key_domain = ascii_bytes ''zcash_voting.chain_submission.identity.v1'' @ [0]"

fun target_key :: "ChainSubmissionTarget \<Rightarrow> bytes" where
  "target_key Delegation = [0]"
| "target_key (Vote pid) = 1 # be_u32 pid"
| "target_key (VoteBatch digest) = 2 # digest"
| "target_key (DelegateAndVoteBatch digest) = 3 # digest"

definition submission_identity_key :: "ChainSubmissionIdentity \<Rightarrow> bytes" where
  "submission_identity_key i =
     identity_key_domain
     @ concat (map (framed 8) [wallet_id i, ascii_bytes (network_name (network i)), vote_round_id i])
     @ be_u32 (bundle_index i)
     @ target_key (target i)"

section \<open>Generations and candidate hashes\<close>

type_synonym GenerationDigest = bytes
type_synonym CandidateTransactionHash = bytes

record ChainSubmissionGeneration =
  gen_identity :: ChainSubmissionIdentity
  gen_digest :: GenerationDigest

definition is_lower_hex :: "char \<Rightarrow> bool" where
  "is_lower_hex c \<longleftrightarrow> c \<in> set ''0123456789abcdef''"

definition candidate_hash_from_str ::
  "(string \<Rightarrow> bytes option) \<Rightarrow> string \<Rightarrow> CandidateTransactionHash option" where
  "candidate_hash_from_str hex_decode value =
     (if length value \<noteq> 64 \<or> \<not> list_all is_lower_hex value then None
      else case hex_decode value of
          None \<Rightarrow> None
        | Some decoded \<Rightarrow> if length decoded = 32 then Some decoded else None)"

section \<open>Type invariants\<close>

text \<open>
  What the Rust types and the constructor guarantee of an identity: the wallet id is a
  non-empty string that fits in memory, the round id and the digests are \<open>[u8; 32]\<close>, and a
  single vote carries a proposal id of the protocol's range.
\<close>

fun wf_target :: "ChainSubmissionTarget \<Rightarrow> bool" where
  "wf_target Delegation = True"
| "wf_target (Vote pid) = (MIN_PROPOSAL_ID \<le> pid \<and> pid \<le> MAX_PROPOSAL_ID)"
| "wf_target (VoteBatch digest) = (length digest = 32)"
| "wf_target (DelegateAndVoteBatch digest) = (length digest = 32)"

definition wf_identity :: "ChainSubmissionIdentity \<Rightarrow> bool" where
  "wf_identity i \<longleftrightarrow>
     wallet_id i \<noteq> [] \<and> length (wallet_id i) < 2 ^ 64 \<and> length (vote_round_id i) = 32
     \<and> wf_target (target i)"

lemma identity_new_wf:
  assumes "identity_new canonical w n r b t = Inr i"
    and "length w < 2 ^ 64"
    and "case batch_digest t of None \<Rightarrow> True | Some d \<Rightarrow> length d = 32"
  shows "wf_identity i"
  using assms
  by (cases t)
     (auto simp add: identity_new_def validate_vote_round_id_bytes_def wf_identity_def
       split: if_splits)

lemma target_key_inject:
  "\<lbrakk>wf_target s; wf_target t\<rbrakk> \<Longrightarrow> target_key s = target_key t \<longleftrightarrow> s = t"
  by (cases s; cases t) auto

lemma network_name_inject [simp]: "network_name m = network_name n \<longleftrightarrow> m = n"
  by (cases m; cases n) simp_all

lemma length_network_name [simp]: "length (network_name n) = 7"
  by (cases n) simp_all

lemma of_char_u8_inject: "(of_nat (of_char c) :: u8) = of_nat (of_char d) \<longleftrightarrow> c = d"
proof -
  have less: "(of_char c :: nat) < 256" for c
    using nat_of_char_less_256 by simp
  have "unat (of_nat (of_char c) :: u8) = of_char c" for c
    using less [of c] by (simp add: unat_of_nat)
  then show ?thesis
    by (metis of_char_eq_iff)
qed

lemma ascii_bytes_inject: "ascii_bytes s = ascii_bytes t \<longleftrightarrow> s = t"
  using inj_map_eq_map [of "\<lambda>c. of_nat (of_char c) :: u8" s t]
  by (auto simp add: ascii_bytes_def inj_def of_char_u8_inject)

lemma length_ascii_bytes [simp]: "length (ascii_bytes s) = length s"
  by (simp add: ascii_bytes_def)

lemma submission_identity_key_eq_iff:
  assumes "wf_identity i" "wf_identity j"
  shows "submission_identity_key i = submission_identity_key j \<longleftrightarrow> i = j"
proof -
  have bounds: "length (wallet_id x) < 256 ^ 8" "length (vote_round_id x) < 256 ^ 8"
    if "wf_identity x" for x
    using that by (simp_all add: wf_identity_def)
  have "submission_identity_key i = submission_identity_key j \<longleftrightarrow>
      wallet_id i = wallet_id j \<and> network i = network j \<and> vote_round_id i = vote_round_id j
      \<and> bundle_index i = bundle_index j \<and> target i = target j"
    using assms bounds [OF assms(1)] bounds [OF assms(2)]
    by (simp add: submission_identity_key_def framed_append_eq_iff ascii_bytes_inject
        wf_identity_def target_key_inject)
  then show ?thesis
    by auto
qed

section \<open>The key interface\<close>

text \<open>
  What the store relies on: rows are looked up by a key, and a key names one valid identity.
\<close>

locale keyed_identity =
  fixes key :: "'i \<Rightarrow> 'k"
    and valid :: "'i \<Rightarrow> bool"
  assumes key_inject: "\<lbrakk>valid i; valid j; key i = key j\<rbrakk> \<Longrightarrow> i = j"
begin

lemma distinct_keys:
  "\<lbrakk>distinct is; list_all valid is\<rbrakk> \<Longrightarrow> distinct (map key is)"
  by (auto simp add: distinct_map inj_on_def list_all_iff intro: key_inject)

lemma find_by_key:
  "\<lbrakk>list_all valid is; valid i\<rbrakk> \<Longrightarrow> find (\<lambda>j. key j = key i) is = find (\<lambda>j. j = i) is"
  by (induction "is") (auto dest: key_inject)

end

interpretation idkey: keyed_identity submission_identity_key wf_identity
  by unfold_locales (simp add: submission_identity_key_eq_iff)

text \<open>
  C2.  Distinct valid submission identities have distinct durable primary keys: no wallet,
  network, round, bundle or target can be rearranged into the key of another identity.
\<close>

theorem submission_identity_key_inject:
  assumes "wf_identity i" "wf_identity j"
    and "submission_identity_key i = submission_identity_key j"
  shows "i = j"
  using assms by (rule idkey.key_inject)

definition sample_identity :: ChainSubmissionIdentity where
  "sample_identity = \<lparr>wallet_id = [119], network = Testnet, vote_round_id = replicate 32 1,
     bundle_index = 7, target = Vote 3\<rparr>"

lemma wf_sample_identity [simp]: "wf_identity sample_identity"
  by (simp add: wf_identity_def sample_identity_def MIN_PROPOSAL_ID_def MAX_PROPOSAL_ID_def)

theorem submission_identity_key_inject_witness:
  "wf_identity sample_identity
   \<and> (\<exists>j. wf_identity j \<and> submission_identity_key sample_identity = submission_identity_key j
          \<and> sample_identity = j)"
  using submission_identity_key_inject [of sample_identity sample_identity] by auto

end
