(* ===== verification/Submission_Result.thy ===== *)
theory Submission_Result
  imports Submission_Identity
begin

text \<open>
  Public outcomes of the submission lifecycle (\<open>chain_submission/result.rs\<close>): durable states,
  bounded and escaped diagnostics, terminal confirmations, pending results and operational
  failures with the strongest lifecycle state they may truthfully report.
\<close>

section \<open>States and diagnostics\<close>

definition MAX_CHAIN_SUBMISSION_DIAGNOSTIC_BYTES :: nat where
  "MAX_CHAIN_SUBMISSION_DIAGNOSTIC_BYTES = 512"

datatype ChainSubmissionState =
    StateSubmitting
  | StateTracking
  | StateRecovering
  | StateSubmittedWithoutHash
  | StateConfirmed
  | StateRejected

datatype ChainSubmissionDiagnosticKind =
    AmbiguousDispatch
  | AmbiguousAttemptsExhausted
  | NullifierAlreadySpent
  | TrackingWindowExpired
  | ChainRejected
  | ReconciliationPending
  | InvalidProtocolResponse
  | StorageFailure
  | EndpointUnsupported
  | RouteAnswerReplaced

fun diagnostic_kind_as_str :: "ChainSubmissionDiagnosticKind \<Rightarrow> string" where
  "diagnostic_kind_as_str AmbiguousDispatch = ''ambiguous_dispatch''"
| "diagnostic_kind_as_str AmbiguousAttemptsExhausted = ''ambiguous_attempts_exhausted''"
| "diagnostic_kind_as_str NullifierAlreadySpent = ''nullifier_already_spent''"
| "diagnostic_kind_as_str TrackingWindowExpired = ''tracking_window_expired''"
| "diagnostic_kind_as_str ChainRejected = ''chain_rejected''"
| "diagnostic_kind_as_str ReconciliationPending = ''reconciliation_pending''"
| "diagnostic_kind_as_str InvalidProtocolResponse = ''invalid_protocol_response''"
| "diagnostic_kind_as_str StorageFailure = ''storage_failure''"
| "diagnostic_kind_as_str EndpointUnsupported = ''endpoint_unsupported''"
| "diagnostic_kind_as_str RouteAnswerReplaced = ''route_answer_replaced''"

definition diagnostic_kind_from_stable_name :: "string \<Rightarrow> ChainSubmissionDiagnosticKind option" where
  "diagnostic_kind_from_stable_name value =
     (if value = ''ambiguous_dispatch'' then Some AmbiguousDispatch
      else if value = ''ambiguous_attempts_exhausted'' then Some AmbiguousAttemptsExhausted
      else if value = ''nullifier_already_spent'' then Some NullifierAlreadySpent
      else if value = ''tracking_window_expired'' then Some TrackingWindowExpired
      else if value = ''chain_rejected'' then Some ChainRejected
      else if value = ''reconciliation_pending'' then Some ReconciliationPending
      else if value = ''invalid_protocol_response'' then Some InvalidProtocolResponse
      else if value = ''storage_failure'' then Some StorageFailure
      else if value = ''endpoint_unsupported'' then Some EndpointUnsupported
      else if value = ''route_answer_replaced'' then Some RouteAnswerReplaced
      else None)"

text \<open>
  \<open>char::escape_default\<close> of the Rust standard library, on Unicode scalar values: tab,
  carriage return, newline, quotes and backslash get a backslash escape, printable ASCII is
  kept, everything else becomes \<open>\u{..}\<close> with lowercase hexadecimal digits.
\<close>

definition escape_default :: "nat \<Rightarrow> string" where
  "escape_default c =
     (if c = 9 then [CHR 0x5C, CHR ''t'']
      else if c = 13 then [CHR 0x5C, CHR ''r'']
      else if c = 10 then [CHR 0x5C, CHR ''n'']
      else if c = 39 \<or> c = 34 \<or> c = 92 then [CHR 0x5C, char_of c]
      else if 32 \<le> c \<and> c \<le> 126 then [char_of c]
      else [CHR 0x5C, CHR ''u'', CHR 0x7B] @ hex_lower c @ [CHR 0x7D])"

fun bounded_redacted_from :: "string \<Rightarrow> unicode \<Rightarrow> string" where
  "bounded_redacted_from bounded [] = bounded"
| "bounded_redacted_from bounded (c # cs) =
     (if length bounded + length (escape_default c) > MAX_CHAIN_SUBMISSION_DIAGNOSTIC_BYTES
      then bounded
      else bounded_redacted_from (bounded @ escape_default c) cs)"

definition bounded_redacted_text :: "unicode \<Rightarrow> string" where
  "bounded_redacted_text message = bounded_redacted_from [] message"

record ChainSubmissionDiagnostic =
  diag_kind :: ChainSubmissionDiagnosticKind
  diag_message :: string

definition from_redacted_message ::
  "ChainSubmissionDiagnosticKind \<Rightarrow> unicode \<Rightarrow> ChainSubmissionDiagnostic" where
  "from_redacted_message kind message =
     \<lparr>diag_kind = kind, diag_message = bounded_redacted_text message\<rparr>"

section \<open>Confirmations\<close>

definition TREE_DEPTH :: nat where
  "TREE_DEPTH = 24"

definition TREE_CAPACITY :: u64 where
  "TREE_CAPACITY = push_bit TREE_DEPTH 1"

datatype ChainSubmissionConfirmationSource = SourceHash | SourceTree

record ChainSubmissionConfirmation =
  conf_source :: ChainSubmissionConfirmationSource
  conf_transaction_hash :: "CandidateTransactionHash option"
  final_van_position :: u64
  vote_commitment_positions :: "u64 list"

datatype ValidatedChainSubmissionConfirmation =
    ValidatedHash ChainSubmissionConfirmation
  | ValidatedTree ChainSubmissionConfirmation

fun confirmation :: "ValidatedChainSubmissionConfirmation \<Rightarrow> ChainSubmissionConfirmation" where
  "confirmation (ValidatedHash c) = c"
| "confirmation (ValidatedTree c) = c"

datatype ChainSubmissionConfirmationError = PositionOutOfRange

definition validate_tree_positions :: "u64 \<Rightarrow> u64 list \<Rightarrow> ChainSubmissionConfirmationError + unit" where
  "validate_tree_positions van vcs =
     (if van \<ge> TREE_CAPACITY \<or> list_ex (\<lambda>p. p \<ge> TREE_CAPACITY) vcs
      then Inl PositionOutOfRange else Inr ())"

definition confirmation_from_hash ::
  "CandidateTransactionHash \<Rightarrow> u64 \<Rightarrow> u64 list
   \<Rightarrow> ChainSubmissionConfirmationError + ValidatedChainSubmissionConfirmation" where
  "confirmation_from_hash hash van vcs =
     and_then (validate_tree_positions van vcs) (\<lambda>_.
       Inr (ValidatedHash \<lparr>conf_source = SourceHash, conf_transaction_hash = Some hash,
              final_van_position = van, vote_commitment_positions = vcs\<rparr>))"

definition confirmation_from_tree ::
  "u64 \<Rightarrow> u64 list \<Rightarrow> ChainSubmissionConfirmationError + ValidatedChainSubmissionConfirmation" where
  "confirmation_from_tree van vcs =
     and_then (validate_tree_positions van vcs) (\<lambda>_.
       Inr (ValidatedTree \<lparr>conf_source = SourceTree, conf_transaction_hash = None,
              final_van_position = van, vote_commitment_positions = vcs\<rparr>))"

section \<open>Results and failures\<close>

datatype ChainSubmissionPending =
    PendingTracking CandidateTransactionHash
  | PendingRecovering "CandidateTransactionHash option" ChainSubmissionDiagnostic

datatype ChainSubmissionResult =
    ResultConfirmed ChainSubmissionConfirmation
  | ResultPending ChainSubmissionPending
  | ResultSubmittedWithoutHash ChainSubmissionDiagnostic
  | ResultRejected ChainSubmissionDiagnostic
  | ResultCancelled

fun result_durable_state :: "ChainSubmissionResult \<Rightarrow> ChainSubmissionState option" where
  "result_durable_state (ResultConfirmed _) = Some StateConfirmed"
| "result_durable_state (ResultPending (PendingTracking _)) = Some StateTracking"
| "result_durable_state (ResultPending (PendingRecovering _ _)) = Some StateRecovering"
| "result_durable_state (ResultSubmittedWithoutHash _) = Some StateSubmittedWithoutHash"
| "result_durable_state (ResultRejected _) = Some StateRejected"
| "result_durable_state ResultCancelled = None"

datatype ChainSubmissionFailureKind =
    InvalidInput | InvariantViolation | Storage | Transport | Protocol

datatype ChainSubmissionStateEvidence = Durable | KnownPossiblyDispatched

record ChainSubmissionFailureState =
  fs_state :: ChainSubmissionState
  fs_evidence :: ChainSubmissionStateEvidence

record ChainSubmissionFailure =
  failure_kind :: ChainSubmissionFailureKind
  strongest_state :: "ChainSubmissionFailureState option"
  failure_message :: string

definition without_state :: "ChainSubmissionFailureKind \<Rightarrow> unicode \<Rightarrow> ChainSubmissionFailure" where
  "without_state kind message =
     \<lparr>failure_kind = kind, strongest_state = None,
      failure_message = bounded_redacted_text message\<rparr>"

definition with_durable_state ::
  "ChainSubmissionFailureKind \<Rightarrow> ChainSubmissionState \<Rightarrow> unicode \<Rightarrow> ChainSubmissionFailure" where
  "with_durable_state kind state message =
     \<lparr>failure_kind = kind, strongest_state = Some \<lparr>fs_state = state, fs_evidence = Durable\<rparr>,
      failure_message = bounded_redacted_text message\<rparr>"

definition with_known_possible_dispatch ::
  "ChainSubmissionFailureKind \<Rightarrow> unicode \<Rightarrow> ChainSubmissionFailure" where
  "with_known_possible_dispatch kind message =
     \<lparr>failure_kind = kind,
      strongest_state =
        Some \<lparr>fs_state = StateRecovering, fs_evidence = KnownPossiblyDispatched\<rparr>,
      failure_message = bounded_redacted_text message\<rparr>"

section \<open>Diagnostics are printable and bounded\<close>

definition printable :: "char \<Rightarrow> bool" where
  "printable c \<longleftrightarrow> 32 \<le> (of_char c :: nat) \<and> (of_char c :: nat) \<le> 126"

lemma printable_hex_lower: "list_all printable (hex_lower n)"
proof (induction n rule: hex_lower.induct)
  case (1 n)
  have digit: "printable (hex_digit k)" if "k < 16" for k
    using that by (simp add: hex_digit_def printable_def)
  with 1 show ?case
    by (subst hex_lower.simps) simp
qed

lemma printable_escape_default: "list_all printable (escape_default c)"
  by (auto simp add: escape_default_def printable_hex_lower printable_def)

lemma bounded_redacted_from_spec:
  assumes "length acc \<le> MAX_CHAIN_SUBMISSION_DIAGNOSTIC_BYTES"
  shows "\<exists>k. bounded_redacted_from acc m = acc @ concat (map escape_default (take k m))
           \<and> length (bounded_redacted_from acc m) \<le> MAX_CHAIN_SUBMISSION_DIAGNOSTIC_BYTES
           \<and> (k < length m \<longrightarrow>
                length acc + length (concat (map escape_default (take (Suc k) m)))
                  > MAX_CHAIN_SUBMISSION_DIAGNOSTIC_BYTES)"
  using assms
proof (induction m arbitrary: acc)
  case (Cons c cs)
  show ?case
  proof (cases "length acc + length (escape_default c) > MAX_CHAIN_SUBMISSION_DIAGNOSTIC_BYTES")
    case True
    with Cons.prems show ?thesis
      by (intro exI [of _ 0]) simp
  next
    case False
    then have "length (acc @ escape_default c) \<le> MAX_CHAIN_SUBMISSION_DIAGNOSTIC_BYTES"
      by simp
    from Cons.IH [OF this] obtain k where
      "bounded_redacted_from (acc @ escape_default c) cs =
         (acc @ escape_default c) @ concat (map escape_default (take k cs))"
      "length (bounded_redacted_from (acc @ escape_default c) cs)
         \<le> MAX_CHAIN_SUBMISSION_DIAGNOSTIC_BYTES"
      "k < length cs \<longrightarrow> length (acc @ escape_default c)
          + length (concat (map escape_default (take (Suc k) cs)))
          > MAX_CHAIN_SUBMISSION_DIAGNOSTIC_BYTES"
      by blast
    with False show ?thesis
      by (intro exI [of _ "Suc k"]) (simp add: add.assoc)
  qed
qed simp

lemma bounded_redacted_text_spec:
  "\<exists>k. bounded_redacted_text m = concat (map escape_default (take k m))
     \<and> length (bounded_redacted_text m) \<le> MAX_CHAIN_SUBMISSION_DIAGNOSTIC_BYTES
     \<and> (k < length m \<longrightarrow> length (concat (map escape_default (take (Suc k) m)))
          > MAX_CHAIN_SUBMISSION_DIAGNOSTIC_BYTES)"
  using bounded_redacted_from_spec [of "[]" m] by (simp add: bounded_redacted_text_def)

lemma length_bounded_redacted_text: "length (bounded_redacted_text m) \<le> 512"
  using bounded_redacted_text_spec [of m] by (auto simp add: MAX_CHAIN_SUBMISSION_DIAGNOSTIC_BYTES_def)

lemma printable_bounded_redacted_text: "list_all printable (bounded_redacted_text m)"
  using bounded_redacted_text_spec [of m] printable_escape_default
  by (force simp add: list_all_iff)

text \<open>Characters that the escape leaves alone.\<close>

definition plain_char :: "char \<Rightarrow> bool" where
  "plain_char c \<longleftrightarrow> printable c \<and> (of_char c :: nat) \<notin> {34, 39, 92}"

lemma escape_default_plain: "plain_char c \<Longrightarrow> escape_default (of_char c) = [c]"
  by (auto simp add: plain_char_def printable_def escape_default_def)

lemma bounded_redacted_from_plain:
  "\<lbrakk>list_all plain_char m; length acc + length m \<le> MAX_CHAIN_SUBMISSION_DIAGNOSTIC_BYTES\<rbrakk>
   \<Longrightarrow> bounded_redacted_from acc (lit m) = acc @ m"
  by (induction m arbitrary: acc) (simp_all add: lit_def escape_default_plain)

lemma bounded_redacted_text_plain:
  "\<lbrakk>list_all plain_char m; length m \<le> 512\<rbrakk> \<Longrightarrow> bounded_redacted_text (lit m) = m"
  by (simp add: bounded_redacted_text_def bounded_redacted_from_plain
      MAX_CHAIN_SUBMISSION_DIAGNOSTIC_BYTES_def)

lemma diagnostic_kind_from_stable_name_as_str [simp]:
  "diagnostic_kind_from_stable_name (diagnostic_kind_as_str k) = Some k"
  by (cases k) (simp_all add: diagnostic_kind_from_stable_name_def)

lemma unat_TREE_CAPACITY: "unat TREE_CAPACITY = 2 ^ 24"
  by (simp add: TREE_CAPACITY_def TREE_DEPTH_def)

text \<open>
  Every diagnostic text the lifecycle retains is at most 512 bytes of printable ASCII, and
  it is the escape of the longest prefix of the input that fits: no escape sequence is cut.
\<close>

theorem bounded_redacted_text_sound:
  "length (bounded_redacted_text m) \<le> MAX_CHAIN_SUBMISSION_DIAGNOSTIC_BYTES
   \<and> list_all printable (bounded_redacted_text m)
   \<and> (\<exists>k \<le> length m. bounded_redacted_text m = concat (map escape_default (take k m))
        \<and> (k = length m \<or> length (concat (map escape_default (take (Suc k) m)))
             > MAX_CHAIN_SUBMISSION_DIAGNOSTIC_BYTES))"
proof -
  obtain k where k: "bounded_redacted_text m = concat (map escape_default (take k m))"
    "k < length m \<longrightarrow> length (concat (map escape_default (take (Suc k) m)))
       > MAX_CHAIN_SUBMISSION_DIAGNOSTIC_BYTES"
    and "length (bounded_redacted_text m) \<le> MAX_CHAIN_SUBMISSION_DIAGNOSTIC_BYTES"
    using bounded_redacted_text_spec by blast
  moreover from k have "\<exists>k \<le> length m. bounded_redacted_text m = concat (map escape_default (take k m))
        \<and> (k = length m \<or> length (concat (map escape_default (take (Suc k) m)))
             > MAX_CHAIN_SUBMISSION_DIAGNOSTIC_BYTES)"
    by (intro exI [of _ "min k (length m)"]) (auto simp add: min_def)
  ultimately show ?thesis
    using printable_bounded_redacted_text by blast
qed

end
