(* ===== verification/Submission_State.thy ===== *)
theory Submission_State
  imports Submission_Result
begin

text \<open>
  The lifecycle state machine of one semantic generation (\<open>chain_submission/state.rs\<close>): the
  typed record states, the classified observations, and the pure transition function.  The
  lemmas compare it with the transition list of \<open>docs/chain_submission_invariants.md\<close> and lift
  the one-step facts to sequences of observations through the locale \<open>stepwise_invariant\<close>.
\<close>

section \<open>States and observations\<close>

datatype SubmissionRecordState =
    Submitting
  | Tracking CandidateTransactionHash
  | Recovering "CandidateTransactionHash option" ChainSubmissionDiagnostic
  | SubmittedWithoutHash ChainSubmissionDiagnostic
  | Confirmed ValidatedChainSubmissionConfirmation
  | Rejected ChainSubmissionDiagnostic

fun permits_ambiguous_retry :: "SubmissionRecordState \<Rightarrow> bool" where
  "permits_ambiguous_retry (Recovering None d) =
     (diag_kind d = AmbiguousDispatch \<or> diag_kind d = InvalidProtocolResponse
      \<or> diag_kind d = EndpointUnsupported \<or> diag_kind d = RouteAnswerReplaced)"
| "permits_ambiguous_retry _ = False"

fun has_unresolved_dispatch :: "SubmissionRecordState \<Rightarrow> bool" where
  "has_unresolved_dispatch (Recovering _ d) =
     (diag_kind d = AmbiguousDispatch \<or> diag_kind d = InvalidProtocolResponse
      \<or> diag_kind d = EndpointUnsupported \<or> diag_kind d = RouteAnswerReplaced
      \<or> diag_kind d = TrackingWindowExpired)"
| "has_unresolved_dispatch _ = False"

fun durable_state :: "SubmissionRecordState \<Rightarrow> ChainSubmissionState" where
  "durable_state Submitting = StateSubmitting"
| "durable_state (Tracking _) = StateTracking"
| "durable_state (Recovering _ _) = StateRecovering"
| "durable_state (SubmittedWithoutHash _) = StateSubmittedWithoutHash"
| "durable_state (Confirmed _) = StateConfirmed"
| "durable_state (Rejected _) = StateRejected"

datatype SubmissionObservation =
    ReserveFreshSubmission
  | DefinitelyNotDispatched
  | UsableCandidateHash CandidateTransactionHash
  | PossiblyDispatched ChainSubmissionDiagnostic
  | DefiniteRejection ChainSubmissionDiagnostic
  | TerminalRejection ChainSubmissionDiagnostic
  | ObservedSubmittedWithoutHash ChainSubmissionDiagnostic
  | CandidatePending
  | ObservedTrackingWindowExpired ChainSubmissionDiagnostic
  | CandidateCommittedFailure ChainSubmissionDiagnostic
  | TerminalCandidateFailure ChainSubmissionDiagnostic
  | ObservedConfirmed ValidatedChainSubmissionConfirmation
  | ContinueRecovery
  | AbandonedSubmitting ChainSubmissionDiagnostic

fun observation_name :: "SubmissionObservation \<Rightarrow> string" where
  "observation_name ReserveFreshSubmission = ''reserve_fresh_submission''"
| "observation_name DefinitelyNotDispatched = ''definitely_not_dispatched''"
| "observation_name (UsableCandidateHash _) = ''usable_candidate_hash''"
| "observation_name (PossiblyDispatched _) = ''possibly_dispatched''"
| "observation_name (DefiniteRejection _) = ''definite_rejection''"
| "observation_name (TerminalRejection _) = ''terminal_rejection''"
| "observation_name (ObservedSubmittedWithoutHash _) = ''submitted_without_hash''"
| "observation_name CandidatePending = ''candidate_pending''"
| "observation_name (ObservedTrackingWindowExpired _) = ''tracking_window_expired''"
| "observation_name (CandidateCommittedFailure _) = ''candidate_committed_failure''"
| "observation_name (TerminalCandidateFailure _) = ''terminal_candidate_failure''"
| "observation_name (ObservedConfirmed _) = ''confirmed''"
| "observation_name ContinueRecovery = ''continue_recovery''"
| "observation_name (AbandonedSubmitting _) = ''abandoned_submitting''"

datatype SubmissionTransitionError =
    IllegalTransition "ChainSubmissionState option" string
  | ConflictingCandidateHash
  | ConfirmationDoesNotMatchCandidate
  | ConflictingConfirmation

section \<open>The transition function\<close>

fun require_hash_confirmation_for_candidate ::
  "ValidatedChainSubmissionConfirmation \<Rightarrow> CandidateTransactionHash
   \<Rightarrow> SubmissionTransitionError + unit" where
  "require_hash_confirmation_for_candidate (ValidatedHash c) candidate =
     (if conf_transaction_hash c = Some candidate then Inr ()
      else Inl ConfirmationDoesNotMatchCandidate)"
| "require_hash_confirmation_for_candidate (ValidatedTree _) candidate =
     Inl ConfirmationDoesNotMatchCandidate"

fun require_valid_recovery_confirmation ::
  "ValidatedChainSubmissionConfirmation \<Rightarrow> CandidateTransactionHash option
   \<Rightarrow> SubmissionTransitionError + unit" where
  "require_valid_recovery_confirmation (ValidatedHash c) None =
     Inl ConfirmationDoesNotMatchCandidate"
| "require_valid_recovery_confirmation (ValidatedHash c) (Some candidate) =
     require_hash_confirmation_for_candidate (ValidatedHash c) candidate"
| "require_valid_recovery_confirmation (ValidatedTree _) _ = Inr ()"

definition illegal_transition ::
  "SubmissionRecordState option \<Rightarrow> SubmissionObservation \<Rightarrow> SubmissionTransitionError" where
  "illegal_transition current observation =
     IllegalTransition (map_option durable_state current) (observation_name observation)"

text \<open>
  The match of the source is on the pair of current state and observation; here it is grouped by
  the current state, and every pair the source does not list is the final illegal-transition arm.
\<close>

definition apply_submission_observation ::
  "SubmissionRecordState option \<Rightarrow> SubmissionObservation
   \<Rightarrow> SubmissionTransitionError + SubmissionRecordState option" where
  "apply_submission_observation current observation =
     (let illegal = Inl (illegal_transition current observation) in
      case current of
        None \<Rightarrow> (case observation of
            ReserveFreshSubmission \<Rightarrow> Inr (Some Submitting)
          | _ \<Rightarrow> illegal)
      | Some Submitting \<Rightarrow> (case observation of
            DefinitelyNotDispatched \<Rightarrow> Inr None
          | UsableCandidateHash candidate \<Rightarrow> Inr (Some (Tracking candidate))
          | PossiblyDispatched d \<Rightarrow> Inr (Some (Recovering None d))
          | AbandonedSubmitting d \<Rightarrow> Inr (Some (Recovering None d))
          | DefiniteRejection d \<Rightarrow> Inr (Some (Recovering None d))
          | TerminalRejection d \<Rightarrow> Inr (Some (Rejected d))
          | ObservedSubmittedWithoutHash d \<Rightarrow> Inr (Some (SubmittedWithoutHash d))
          | _ \<Rightarrow> illegal)
      | Some (Tracking h) \<Rightarrow> (case observation of
            CandidatePending \<Rightarrow> Inr (Some (Tracking h))
          | ObservedTrackingWindowExpired d \<Rightarrow> Inr (Some (Recovering (Some h) d))
          | CandidateCommittedFailure d \<Rightarrow> Inr (Some (Recovering None d))
          | TerminalCandidateFailure d \<Rightarrow> Inr (Some (Rejected d))
          | ObservedConfirmed c \<Rightarrow>
              and_then (require_hash_confirmation_for_candidate c h)
                (\<lambda>_. Inr (Some (Confirmed c)))
          | _ \<Rightarrow> illegal)
      | Some (Recovering h stored) \<Rightarrow> (case observation of
            ObservedSubmittedWithoutHash d \<Rightarrow> Inr (Some (SubmittedWithoutHash d))
          | TerminalCandidateFailure d \<Rightarrow> Inr (Some (Rejected d))
          | UsableCandidateHash candidate \<Rightarrow> (case h of
                None \<Rightarrow> Inr (Some (Tracking candidate))
              | Some existing \<Rightarrow>
                  if existing \<noteq> candidate then Inl ConflictingCandidateHash
                  else Inr (Some (Recovering (Some existing) stored)))
          | PossiblyDispatched d \<Rightarrow> (case h of
                None \<Rightarrow> Inr (Some (Recovering None d))
              | Some _ \<Rightarrow> Inr (Some (Recovering h stored)))
          | ContinueRecovery \<Rightarrow> Inr (Some (Recovering h stored))
          | DefiniteRejection _ \<Rightarrow> Inr (Some (Recovering h stored))
          | DefinitelyNotDispatched \<Rightarrow> Inr (Some (Recovering h stored))
          | CandidatePending \<Rightarrow> (case h of
                Some _ \<Rightarrow> Inr (Some (Recovering h stored))
              | None \<Rightarrow> illegal)
          | CandidateCommittedFailure d \<Rightarrow> (case h of
                Some _ \<Rightarrow> Inr (Some (Recovering None d))
              | None \<Rightarrow> illegal)
          | ObservedConfirmed c \<Rightarrow>
              and_then (require_valid_recovery_confirmation c h)
                (\<lambda>_. Inr (Some (Confirmed c)))
          | _ \<Rightarrow> illegal)
      | Some (Confirmed existing) \<Rightarrow> (case observation of
            ObservedConfirmed replayed \<Rightarrow>
              if existing = replayed then Inr (Some (Confirmed existing))
              else Inl ConflictingConfirmation
          | _ \<Rightarrow> illegal)
      | Some _ \<Rightarrow> illegal)"

lemmas apply_defs = apply_submission_observation_def Let_def

section \<open>The documented state graph\<close>

text \<open>
  The edges of the transition list under "Durable states" of
  \<open>docs/chain_submission_invariants.md\<close>, on durable states with \<open>None\<close> for no row.  The last
  rule is the one edge the transition function has beyond that list: a first attempt answered
  with the code that proves an earlier dispatch.
\<close>

inductive lifecycle_edge :: "ChainSubmissionState option \<Rightarrow> ChainSubmissionState option \<Rightarrow> bool" where
  reserve: "lifecycle_edge None (Some StateSubmitting)"
| unsent: "lifecycle_edge (Some StateSubmitting) None"
| accepted: "lifecycle_edge (Some StateSubmitting) (Some StateTracking)"
| ambiguous: "lifecycle_edge (Some StateSubmitting) (Some StateRecovering)"
| combined_rejected: "lifecycle_edge (Some StateSubmitting) (Some StateRejected)"
| pending: "lifecycle_edge (Some StateTracking) (Some StateTracking)"
| unresolved: "lifecycle_edge (Some StateTracking) (Some StateRecovering)"
| hash_confirmed: "lifecycle_edge (Some StateTracking) (Some StateConfirmed)"
| candidate_rejected: "lifecycle_edge (Some StateTracking) (Some StateRejected)"
| still_recovering: "lifecycle_edge (Some StateRecovering) (Some StateRecovering)"
| retry_accepted: "lifecycle_edge (Some StateRecovering) (Some StateTracking)"
| nullifier_spent: "lifecycle_edge (Some StateRecovering) (Some StateSubmittedWithoutHash)"
| recovered: "lifecycle_edge (Some StateRecovering) (Some StateConfirmed)"
| recovery_rejected: "lifecycle_edge (Some StateRecovering) (Some StateRejected)"
| replayed: "lifecycle_edge (Some StateConfirmed) (Some StateConfirmed)"
| spent_first_attempt: "lifecycle_edge (Some StateSubmitting) (Some StateSubmittedWithoutHash)"

declare lifecycle_edge.intros [intro]

code_pred lifecycle_edge .

inductive_simps lifecycle_edge_simps [simp]:
  "lifecycle_edge None t"
  "lifecycle_edge (Some StateSubmitting) t"
  "lifecycle_edge (Some StateTracking) t"
  "lifecycle_edge (Some StateRecovering) t"
  "lifecycle_edge (Some StateConfirmed) t"
  "lifecycle_edge (Some StateSubmittedWithoutHash) t"
  "lifecycle_edge (Some StateRejected) t"

lemma apply_edge:
  assumes "apply_submission_observation cur obs = Inr next"
  shows "lifecycle_edge (map_option durable_state cur) (map_option durable_state next)"
proof (cases cur)
  case None
  with assms show ?thesis
    by (auto simp add: apply_defs split: SubmissionObservation.splits)
next
  case (Some s)
  with assms show ?thesis
    by (cases s)
       (auto simp add: apply_defs split: SubmissionObservation.splits option.splits if_splits)
qed

text \<open>A diagnostic and a confirmation used to realise edges.\<close>

definition sample_diagnostic :: ChainSubmissionDiagnostic where
  "sample_diagnostic = from_redacted_message AmbiguousDispatch (lit ''lost'')"

definition sample_confirmation :: ValidatedChainSubmissionConfirmation where
  "sample_confirmation = ValidatedHash \<lparr>conf_source = SourceHash,
     conf_transaction_hash = Some [1], final_van_position = 4, vote_commitment_positions = [5]\<rparr>"

fun sample_state :: "ChainSubmissionState \<Rightarrow> SubmissionRecordState" where
  "sample_state StateSubmitting = Submitting"
| "sample_state StateTracking = Tracking [1]"
| "sample_state StateRecovering = Recovering (Some [1]) sample_diagnostic"
| "sample_state StateSubmittedWithoutHash = SubmittedWithoutHash sample_diagnostic"
| "sample_state StateConfirmed = Confirmed sample_confirmation"
| "sample_state StateRejected = Rejected sample_diagnostic"

lemma durable_sample_state: "durable_state (sample_state s) = s"
  by (cases s) simp_all

lemma edge_realised:
  assumes "lifecycle_edge s t"
  shows "\<exists>cur obs next. apply_submission_observation cur obs = Inr next
           \<and> map_option durable_state cur = s \<and> map_option durable_state next = t"
proof -
  let ?d = sample_diagnostic
  have "\<exists>obs \<in> {ReserveFreshSubmission, DefinitelyNotDispatched, UsableCandidateHash [1],
      PossiblyDispatched ?d, TerminalRejection ?d, ObservedSubmittedWithoutHash ?d,
      CandidatePending, ObservedTrackingWindowExpired ?d, TerminalCandidateFailure ?d,
      ObservedConfirmed sample_confirmation}.
    \<exists>next. apply_submission_observation (map_option sample_state s) obs = Inr next
      \<and> map_option durable_state next = t" if "s \<noteq> Some StateRecovering \<or> t \<noteq> Some StateTracking"
    using assms that by cases (simp_all add: apply_defs sample_confirmation_def)
  moreover have "apply_submission_observation (Some (Recovering None ?d)) (UsableCandidateHash [1])
      = Inr (Some (Tracking [1]))"
    by (simp add: apply_defs)
  moreover have "map_option durable_state (map_option sample_state s) = s"
    by (cases s) (simp_all add: durable_sample_state)
  ultimately show ?thesis
    by (cases "s = Some StateRecovering \<and> t = Some StateTracking") force+
qed

section \<open>Facts about single transitions\<close>

fun is_terminal :: "SubmissionRecordState \<Rightarrow> bool" where
  "is_terminal (SubmittedWithoutHash _) = True"
| "is_terminal (Confirmed _) = True"
| "is_terminal (Rejected _) = True"
| "is_terminal _ = False"

lemma terminal_step:
  "\<lbrakk>is_terminal s; apply_submission_observation (Some s) obs = Inr next\<rbrakk> \<Longrightarrow> next = Some s"
  by (cases s) (auto simp add: apply_defs split: SubmissionObservation.splits if_splits)

lemma removal_only_unsent_first_attempt:
  "apply_submission_observation cur obs = Inr None \<Longrightarrow>
   cur = Some Submitting \<and> obs = DefinitelyNotDispatched"
  by (auto simp add: apply_defs
      split: option.splits SubmissionRecordState.splits SubmissionObservation.splits if_splits)

text \<open>Observations that resolve or replace recorded dispatch evidence.\<close>

fun resolves_dispatch :: "SubmissionObservation \<Rightarrow> bool" where
  "resolves_dispatch (UsableCandidateHash _) = True"
| "resolves_dispatch (PossiblyDispatched _) = True"
| "resolves_dispatch (ObservedSubmittedWithoutHash _) = True"
| "resolves_dispatch (CandidateCommittedFailure _) = True"
| "resolves_dispatch (TerminalCandidateFailure _) = True"
| "resolves_dispatch (ObservedConfirmed _) = True"
| "resolves_dispatch _ = False"

lemma unresolved_dispatch_kept:
  "\<lbrakk>has_unresolved_dispatch s; \<not> resolves_dispatch obs;
    apply_submission_observation (Some s) obs = Inr next\<rbrakk> \<Longrightarrow> next = Some s"
  by (cases s) (auto simp add: apply_defs split: SubmissionObservation.splits option.splits)

fun candidate_of :: "SubmissionRecordState option \<Rightarrow> CandidateTransactionHash option" where
  "candidate_of (Some (Tracking h)) = Some h"
| "candidate_of (Some (Recovering h _)) = h"
| "candidate_of _ = None"

text \<open>A hash confirmation carries the hash its source variant promises.\<close>

fun wf_confirmation :: "ValidatedChainSubmissionConfirmation \<Rightarrow> bool" where
  "wf_confirmation (ValidatedHash c) =
     (conf_source c = SourceHash \<and> (\<exists>h. conf_transaction_hash c = Some h)
      \<and> final_van_position c < TREE_CAPACITY
      \<and> list_all (\<lambda>p. p < TREE_CAPACITY) (vote_commitment_positions c))"
| "wf_confirmation (ValidatedTree c) =
     (conf_source c = SourceTree \<and> conf_transaction_hash c = None
      \<and> final_van_position c < TREE_CAPACITY
      \<and> list_all (\<lambda>p. p < TREE_CAPACITY) (vote_commitment_positions c))"

lemma confirmation_from_wf:
  "confirmation_from_hash h van vcs = Inr c \<Longrightarrow> wf_confirmation c"
  "confirmation_from_tree van vcs = Inr c \<Longrightarrow> wf_confirmation c"
  by (auto simp add: confirmation_from_hash_def confirmation_from_tree_def
      validate_tree_positions_def list_all_iff list_ex_iff not_le split: if_splits)

lemma confirmed_step:
  "apply_submission_observation cur obs = Inr (Some (Confirmed (ValidatedHash c))) \<Longrightarrow>
   cur = Some (Confirmed (ValidatedHash c))
   \<or> obs = ObservedConfirmed (ValidatedHash c) \<and> candidate_of cur \<noteq> None
      \<and> conf_transaction_hash c = candidate_of cur"
  by (auto simp add: apply_defs split: option.splits SubmissionRecordState.splits
      SubmissionObservation.splits if_splits
      elim!: require_valid_recovery_confirmation.elims)

lemma candidate_step:
  "\<lbrakk>apply_submission_observation cur obs = Inr next; candidate_of next = Some h\<rbrakk> \<Longrightarrow>
   candidate_of cur = Some h \<or> obs = UsableCandidateHash h"
  by (auto simp add: apply_defs split: option.splits SubmissionRecordState.splits
      SubmissionObservation.splits if_splits)

section \<open>Facts about observation sequences\<close>

abbreviation apply_observations ::
  "SubmissionRecordState option \<Rightarrow> SubmissionObservation list
   \<Rightarrow> SubmissionTransitionError + SubmissionRecordState option" where
  "apply_observations \<equiv> run_steps apply_submission_observation"

text \<open>Every candidate and every hash confirmation of a row comes from an accepted hash.\<close>

definition hashes_observed :: "SubmissionObservation list \<Rightarrow> SubmissionRecordState option \<Rightarrow> bool" where
  "hashes_observed hist s \<longleftrightarrow>
     (\<forall>h. candidate_of s = Some h \<longrightarrow> UsableCandidateHash h \<in> set hist)
     \<and> (\<forall>c. s = Some (Confirmed (ValidatedHash c)) \<longrightarrow>
          (\<exists>h. conf_transaction_hash c = Some h \<and> UsableCandidateHash h \<in> set hist))"

interpretation observed_hashes: stepwise_invariant apply_submission_observation hashes_observed
proof
  fix hist s x t
  assume "hashes_observed hist s" "apply_submission_observation s x = Inr t"
  then show "hashes_observed (hist @ [x]) t"
    using candidate_step [of s x t] confirmed_step [of s x]
    by (fastforce simp add: hashes_observed_def)
qed

text \<open>Once a terminal state is reached, no later observation changes it.\<close>

definition stays_at :: "SubmissionRecordState \<Rightarrow> SubmissionObservation list
    \<Rightarrow> SubmissionRecordState option \<Rightarrow> bool" where
  "stays_at s hist t \<longleftrightarrow> is_terminal s \<and> t = Some s"

interpretation terminal_rows: stepwise_invariant apply_submission_observation "stays_at s" for s
  by unfold_locales (auto simp add: stays_at_def dest: terminal_step)

text \<open>Once a possibly dispatched attempt is recorded, the row is never removed again.\<close>

definition past_submitting :: "SubmissionObservation list \<Rightarrow> SubmissionRecordState option \<Rightarrow> bool" where
  "past_submitting hist s \<longleftrightarrow> s \<noteq> None \<and> s \<noteq> Some Submitting"

lemma past_submitting_step:
  "\<lbrakk>s \<noteq> Submitting; apply_submission_observation (Some s) obs = Inr next\<rbrakk> \<Longrightarrow>
   next \<noteq> None \<and> next \<noteq> Some Submitting"
  by (cases s)
     (auto simp add: apply_defs split: SubmissionObservation.splits option.splits if_splits)

interpretation dispatched_rows: stepwise_invariant apply_submission_observation past_submitting
  using past_submitting_step by unfold_locales (fastforce simp add: past_submitting_def)

section \<open>Properties\<close>

text \<open>
  C1.  The transition function realises exactly the documented lifecycle graph: a pair of durable
  states (or absence) is joined by some successful observation if and only if it is an edge.
\<close>

theorem transition_graph:
  "(\<exists>cur obs next. apply_submission_observation cur obs = Inr next
      \<and> map_option durable_state cur = s \<and> map_option durable_state next = t)
   \<longleftrightarrow> lifecycle_edge s t"
  using apply_edge edge_realised by blast

text \<open>
  C5.  Terminal rows are immutable: from \<open>SubmittedWithoutHash\<close>, \<open>Confirmed\<close> or \<open>Rejected\<close> no
  sequence of observations leads to a different state; the only accepted one replays identical
  confirmation data.
\<close>

theorem terminal_rows_immutable:
  assumes "is_terminal s" "apply_observations (Some s) obs = Inr t"
  shows "t = Some s"
  using terminal_rows.run_holds [of s "[]" "Some s" obs t] assms by (simp add: stays_at_def)

theorem terminal_rows_immutable_witness:
  "is_terminal (Confirmed sample_confirmation)
   \<and> apply_observations (Some (Confirmed sample_confirmation))
       [ObservedConfirmed sample_confirmation, ObservedConfirmed sample_confirmation]
     = Inr (Some (Confirmed sample_confirmation))"
  using terminal_rows_immutable [of "Confirmed sample_confirmation"
      "[ObservedConfirmed sample_confirmation, ObservedConfirmed sample_confirmation]"]
  by (simp add: apply_defs)

text \<open>
  C4.  A hash confirmation is never invented: if any sequence of observations starting without a
  row ends in a hash-confirmed row, the confirmed transaction hash was accepted as this
  generation's candidate by an earlier observation of that sequence.
\<close>

theorem confirmed_hash_was_candidate:
  assumes "apply_observations None obs = Inr (Some (Confirmed (ValidatedHash c)))"
  shows "\<exists>h. conf_transaction_hash c = Some h \<and> UsableCandidateHash h \<in> set obs"
  using observed_hashes.run_holds [of "[]" None obs] assms by (auto simp add: hashes_observed_def)

theorem confirmed_hash_was_candidate_witness:
  "apply_observations None
     [ReserveFreshSubmission, UsableCandidateHash [1], CandidatePending,
      ObservedConfirmed sample_confirmation] = Inr (Some (Confirmed sample_confirmation))
   \<and> conf_transaction_hash (confirmation sample_confirmation) = Some [1]"
  using confirmed_hash_was_candidate [of
      "[ReserveFreshSubmission, UsableCandidateHash [1], CandidatePending,
        ObservedConfirmed sample_confirmation]" "confirmation sample_confirmation"]
  by (auto simp add: apply_defs sample_confirmation_def)

text \<open>
  C3.  Dispatch ambiguity cannot be undone: after an attempt that may have been dispatched, no
  sequence of observations removes the row or makes it a fresh reservation again, and as long as
  none of them resolves the dispatch the unresolved evidence itself is kept unchanged.
\<close>

theorem dispatch_ambiguity_not_erased:
  assumes "has_unresolved_dispatch s" "apply_observations (Some s) obs = Inr t"
  shows "t \<noteq> None \<and> t \<noteq> Some Submitting
         \<and> (list_all (\<lambda>x. \<not> resolves_dispatch x) obs \<longrightarrow> t = Some s)"
proof -
  have "s \<noteq> Submitting"
    using assms(1) by auto
  then have "t \<noteq> None \<and> t \<noteq> Some Submitting"
    using dispatched_rows.run_holds [of "[]" "Some s" obs t] assms(2)
    by (simp add: past_submitting_def)
  moreover have "t = Some s" if "list_all (\<lambda>x. \<not> resolves_dispatch x) obs"
    using that assms
    by (induction obs) (auto dest: unresolved_dispatch_kept)
  ultimately show ?thesis
    by blast
qed

theorem dispatch_ambiguity_not_erased_witness:
  "has_unresolved_dispatch (Recovering None sample_diagnostic)
   \<and> apply_observations (Some (Recovering None sample_diagnostic))
        [DefiniteRejection sample_diagnostic, DefinitelyNotDispatched, ContinueRecovery]
      = Inr (Some (Recovering None sample_diagnostic))"
  using dispatch_ambiguity_not_erased [of "Recovering None sample_diagnostic"
      "[DefiniteRejection sample_diagnostic, DefinitelyNotDispatched, ContinueRecovery]"
      "Some (Recovering None sample_diagnostic)"]
  by (simp add: apply_defs sample_diagnostic_def from_redacted_message_def)

end
