(* ===== verification/Submission_Coordination.thy ===== *)
theory Submission_Coordination
  imports Submission_Result "HOL-Library.Product_Lexorder" "HOL-Library.List_Lexorder"
    "HOL-Library.Multiset"
begin

text \<open>
  Process-local serialization of lifecycle work (\<open>chain_submission/coordination.rs\<close>): the
  operation keys with their derived order, the sequence of locks one lifecycle operation
  acquires, and the registry of submissions in flight.  The locale \<open>ordered_acquisition\<close> shows
  that operations which take their locks in one strict order cannot deadlock; it is interpreted
  on the lock sequence of \<open>acquire\<close>.

  The exclusive account and round leases and the delegation setup lease never wait: they use the
  \<open>try_\<close> operations and report \<open>Busy\<close>, so only the sequence of \<open>acquire\<close> can block.
\<close>

section \<open>Operation keys\<close>

datatype RoundOperationKey =
  RoundOperationKey (rk_wallet: bytes) (rk_network: u8) (rk_round: bytes)

datatype BundleOperationKey =
  BundleOperationKey (bk_round: RoundOperationKey) (bk_index: u32)

datatype SubmissionOperationKey =
  SubmissionOperationKey (sk_bundle: BundleOperationKey) (sk_kind: u8) (sk_value: bytes)

text \<open>The derived \<open>Ord\<close> of a Rust struct compares its fields in declaration order.\<close>

instantiation RoundOperationKey :: linorder
begin

fun round_key_fields :: "RoundOperationKey \<Rightarrow> bytes \<times> u8 \<times> bytes" where
  "round_key_fields (RoundOperationKey w n r) = (w, n, r)"

definition less_eq_RoundOperationKey :: "RoundOperationKey \<Rightarrow> RoundOperationKey \<Rightarrow> bool" where
  "a \<le> b \<longleftrightarrow> round_key_fields a \<le> round_key_fields b"

definition less_RoundOperationKey :: "RoundOperationKey \<Rightarrow> RoundOperationKey \<Rightarrow> bool" where
  "a < b \<longleftrightarrow> round_key_fields a < round_key_fields b"

lemma round_key_fields_inject: "round_key_fields a = round_key_fields b \<longleftrightarrow> a = b"
  by (cases a; cases b) simp

instance
  by standard
     (auto simp add: less_eq_RoundOperationKey_def less_RoundOperationKey_def
       simp flip: round_key_fields_inject)

end

instantiation BundleOperationKey :: linorder
begin

fun bundle_key_fields :: "BundleOperationKey \<Rightarrow> RoundOperationKey \<times> u32" where
  "bundle_key_fields (BundleOperationKey r i) = (r, i)"

definition less_eq_BundleOperationKey :: "BundleOperationKey \<Rightarrow> BundleOperationKey \<Rightarrow> bool" where
  "a \<le> b \<longleftrightarrow> bundle_key_fields a \<le> bundle_key_fields b"

definition less_BundleOperationKey :: "BundleOperationKey \<Rightarrow> BundleOperationKey \<Rightarrow> bool" where
  "a < b \<longleftrightarrow> bundle_key_fields a < bundle_key_fields b"

lemma bundle_key_fields_inject: "bundle_key_fields a = bundle_key_fields b \<longleftrightarrow> a = b"
  by (cases a; cases b) simp

instance
  by standard
     (auto simp add: less_eq_BundleOperationKey_def less_BundleOperationKey_def
       simp flip: bundle_key_fields_inject)

end

instantiation SubmissionOperationKey :: linorder
begin

fun submission_key_fields :: "SubmissionOperationKey \<Rightarrow> BundleOperationKey \<times> u8 \<times> bytes" where
  "submission_key_fields (SubmissionOperationKey b k v) = (b, k, v)"

definition less_eq_SubmissionOperationKey ::
  "SubmissionOperationKey \<Rightarrow> SubmissionOperationKey \<Rightarrow> bool" where
  "a \<le> b \<longleftrightarrow> submission_key_fields a \<le> submission_key_fields b"

definition less_SubmissionOperationKey ::
  "SubmissionOperationKey \<Rightarrow> SubmissionOperationKey \<Rightarrow> bool" where
  "a < b \<longleftrightarrow> submission_key_fields a < submission_key_fields b"

lemma submission_key_fields_inject: "submission_key_fields a = submission_key_fields b \<longleftrightarrow> a = b"
  by (cases a; cases b) simp

instance
  by standard
     (auto simp add: less_eq_SubmissionOperationKey_def less_SubmissionOperationKey_def
       simp flip: submission_key_fields_inject)

end

fun network_rank :: "Network \<Rightarrow> u8" where
  "network_rank Mainnet = 0"
| "network_rank Testnet = 1"
| "network_rank Regtest = 2"

definition round_key :: "ChainSubmissionIdentity \<Rightarrow> RoundOperationKey" where
  "round_key i = RoundOperationKey (wallet_id i) (network_rank (network i)) (vote_round_id i)"

definition bundle_operation_key :: "ChainSubmissionIdentity \<Rightarrow> BundleOperationKey" where
  "bundle_operation_key i = BundleOperationKey (round_key i) (bundle_index i)"

definition submission_operation_key :: "ChainSubmissionIdentity \<Rightarrow> SubmissionOperationKey" where
  "submission_operation_key i =
     (case target i of
        Delegation \<Rightarrow> SubmissionOperationKey (bundle_operation_key i) 0 []
      | Vote pid \<Rightarrow> SubmissionOperationKey (bundle_operation_key i) 1 (be_u32 pid)
      | VoteBatch digest \<Rightarrow> SubmissionOperationKey (bundle_operation_key i) 2 digest
      | DelegateAndVoteBatch digest \<Rightarrow> SubmissionOperationKey (bundle_operation_key i) 3 digest)"

lemma submission_operation_key_eq_iff:
  "submission_operation_key i = submission_operation_key j \<longleftrightarrow> i = j"
proof -
  have "network_rank m = network_rank n \<longleftrightarrow> m = n" for m n
    by (cases m; cases n) simp_all
  then have "submission_operation_key i = submission_operation_key j \<longleftrightarrow>
      wallet_id i = wallet_id j \<and> network i = network j \<and> vote_round_id i = vote_round_id j
      \<and> bundle_index i = bundle_index j \<and> target i = target j"
    by (auto simp add: submission_operation_key_def bundle_operation_key_def round_key_def
        split: ChainSubmissionTarget.splits)
  then show ?thesis
    by auto
qed

interpretation opkey: keyed_identity submission_operation_key "\<lambda>_. True"
  by unfold_locales (simp add: submission_operation_key_eq_iff)

section \<open>Lock acquisition\<close>

text \<open>
  The locks of one database authority.  Account and round gates are taken shared by lifecycle
  work, bundle and identity locks exclusively.  The order of the constructors is the normative
  lock order.
\<close>

datatype LifecycleLock =
    AccountGate bytes
  | RoundGate RoundOperationKey
  | BundleLock BundleOperationKey
  | IdentityLock SubmissionOperationKey

fun lock_exclusive :: "LifecycleLock \<Rightarrow> bool" where
  "lock_exclusive (AccountGate _) = False"
| "lock_exclusive (RoundGate _) = False"
| "lock_exclusive (BundleLock _) = True"
| "lock_exclusive (IdentityLock _) = True"

fun lock_before :: "LifecycleLock \<Rightarrow> LifecycleLock \<Rightarrow> bool" where
  "lock_before (AccountGate v) (AccountGate w) = (v < w)"
| "lock_before (AccountGate _) _ = True"
| "lock_before (RoundGate _) (AccountGate _) = False"
| "lock_before (RoundGate r) (RoundGate s) = (r < s)"
| "lock_before (RoundGate _) _ = True"
| "lock_before (BundleLock b) (BundleLock c) = (b < c)"
| "lock_before (BundleLock _) (IdentityLock _) = True"
| "lock_before (BundleLock _) _ = False"
| "lock_before (IdentityLock k) (IdentityLock l) = (k < l)"
| "lock_before (IdentityLock _) _ = False"

definition identity_keys ::
  "ChainSubmissionIdentity \<Rightarrow> ChainSubmissionIdentity list \<Rightarrow> SubmissionOperationKey list" where
  "identity_keys operation applicable =
     remdups_adj (sort (map submission_operation_key applicable
                        @ [submission_operation_key operation]))"

definition acquire ::
  "ChainSubmissionIdentity \<Rightarrow> ChainSubmissionIdentity list \<Rightarrow> LifecycleLock list" where
  "acquire operation applicable =
     [AccountGate (wallet_id operation), RoundGate (round_key operation),
      BundleLock (bundle_operation_key operation)]
     @ map IdentityLock (identity_keys operation applicable)"

lemma lock_before_trans: "\<lbrakk>lock_before a b; lock_before b c\<rbrakk> \<Longrightarrow> lock_before a c"
  by (cases a; cases b; cases c) auto

lemma lock_before_irrefl: "\<not> lock_before a a"
  by (cases a) auto

lemma sorted_remdups_adj_strict:
  fixes xs :: "'a::linorder list"
  shows "sorted xs \<Longrightarrow> sorted_wrt (<) (remdups_adj xs)"
  by (induction xs rule: remdups_adj.induct) (auto simp add: less_le)

lemma sorted_wrt_identity_keys: "sorted_wrt (<) (identity_keys operation applicable)"
  by (simp add: identity_keys_def sorted_remdups_adj_strict)

lemma acquire_ordered: "sorted_wrt lock_before (acquire operation applicable)"
  using sorted_wrt_identity_keys [of operation applicable]
  by (simp add: acquire_def sorted_wrt_map)

section \<open>Ordered acquisition cannot deadlock\<close>

text \<open>
  A set of operations, each holding a prefix of its lock sequence and wanting the next lock.  A
  lock is refused while another operation holds it and one of the two uses is exclusive.
\<close>

locale ordered_acquisition =
  fixes before :: "'l \<Rightarrow> 'l \<Rightarrow> bool"
    and exclusive :: "'l \<Rightarrow> bool"
    and plan :: "'p \<Rightarrow> 'l list"
  assumes before_trans: "\<lbrakk>before a b; before b c\<rbrakk> \<Longrightarrow> before a c"
    and before_irrefl: "\<not> before a a"
    and plan_ordered: "sorted_wrt before (plan p)"
begin

lemma held_before_wanted:
  assumes "i < k" "k < length (plan p)"
  shows "before (plan p ! i) (plan p ! k)"
  using plan_ordered assms by (rule sorted_wrt_nth_less)

text \<open>
  Some operation that still waits is not blocked by another waiting operation: whoever holds
  the lock it wants has all its locks, and runs.
\<close>

lemma some_not_blocked:
  assumes fin: "finite P"
    and waiting: "waiter \<in> P" "held waiter < length (plan waiter)"
  shows "\<exists>p \<in> P. held p < length (plan p)
    \<and> (\<forall>q \<in> P. q \<noteq> p \<longrightarrow> held q < length (plan q) \<longrightarrow>
          \<not> (exclusive (plan p ! held p) \<and> (\<exists>i < held q. plan q ! i = plan p ! held p)))"
proof (rule ccontr)
  let ?W = "{p \<in> P. held p < length (plan p)}"
  let ?wanted = "\<lambda>p. plan p ! held p"
  let ?R = "{(y, x). x \<in> ?wanted ` ?W \<and> y \<in> ?wanted ` ?W \<and> before x y}"
  assume "\<not> ?thesis"
  then have step: "\<exists>q \<in> ?W. before (?wanted p) (?wanted q)" if "p \<in> ?W" for p
    using that held_before_wanted by fastforce
  have "finite ?R"
    by (rule finite_subset [of _ "?wanted ` ?W \<times> ?wanted ` ?W"]) (use fin in auto)
  moreover have "trans ?R"
    using before_trans by (fastforce intro: transI)
  then have "acyclic ?R"
    using before_irrefl by (auto simp add: acyclic_def)
  ultimately have "wf ?R"
    by (rule finite_acyclic_wf)
  moreover have "?wanted waiter \<in> ?wanted ` ?W"
    using waiting by blast
  ultimately obtain z where z: "z \<in> ?wanted ` ?W" "\<And>y. (y, z) \<in> ?R \<Longrightarrow> y \<notin> ?wanted ` ?W"
    by (rule wfE_min) blast
  then obtain p where "p \<in> ?W" "z = ?wanted p"
    by blast
  with step obtain q where "q \<in> ?W" "before z (?wanted q)"
    by blast
  with z show False
    by blast
qed

end

interpretation lifecycle_locks:
  ordered_acquisition lock_before lock_exclusive "\<lambda>p. acquire (operation p) (applicable p)"
  for operation :: "'p \<Rightarrow> ChainSubmissionIdentity"
    and applicable :: "'p \<Rightarrow> ChainSubmissionIdentity list"
  by unfold_locales (auto simp add: lock_before_irrefl acquire_ordered intro: lock_before_trans)

section \<open>Submissions in flight\<close>

text \<open>
  The registry counts, per operation key, the committed reservations whose network result is not
  yet durable.  Registering may fail only on a poisoned mutex, which the model excludes.
\<close>

type_synonym InFlightRegistry = "SubmissionOperationKey \<rightharpoonup> nat"

definition register_in_flight ::
  "InFlightRegistry \<Rightarrow> ChainSubmissionIdentity \<Rightarrow> InFlightRegistry" where
  "register_in_flight registry i =
     (let key = submission_operation_key i in
      registry(key \<mapsto> (case registry key of None \<Rightarrow> 0 | Some n \<Rightarrow> n) + 1))"

definition drop_in_flight ::
  "InFlightRegistry \<Rightarrow> SubmissionOperationKey \<Rightarrow> InFlightRegistry" where
  "drop_in_flight registry key =
     (case registry key of
        None \<Rightarrow> registry
      | Some n \<Rightarrow>
          if n - 1 = 0 then registry(key := None) else registry(key \<mapsto> n - 1))"

definition has_in_flight_for_round :: "InFlightRegistry \<Rightarrow> ChainSubmissionIdentity \<Rightarrow> bool" where
  "has_in_flight_for_round registry i \<longleftrightarrow>
     (\<exists>key \<in> dom registry. bk_round (sk_bundle key) = round_key i)"

text \<open>The registry that represents a multiset of live guards.\<close>

definition registry_of :: "SubmissionOperationKey multiset \<Rightarrow> InFlightRegistry" where
  "registry_of guards key = (if key \<in># guards then Some (count guards key) else None)"

lemma registry_of_count:
  "registry_of guards key = (if count guards key = 0 then None else Some (count guards key))"
  by (simp add: registry_of_def count_eq_zero_iff)

lemma registry_of_register:
  "register_in_flight (registry_of guards) i =
   registry_of (add_mset (submission_operation_key i) guards)"
  by (rule ext) (simp add: register_in_flight_def registry_of_count Let_def not_in_iff)

lemma registry_of_drop:
  "drop_in_flight (registry_of (add_mset key guards)) key = registry_of guards"
  by (rule ext) (simp add: drop_in_flight_def registry_of_count not_in_iff)

section \<open>Properties\<close>

text \<open>
  C39.  Lifecycle operations cannot deadlock on their locks: among any finite set of operations
  that acquire the account gate, round gate, bundle lock and identity locks in the order of
  \<open>acquire\<close>, as long as one still waits there is one whose next lock is not held in conflict by
  another waiting operation.
\<close>

theorem acquire_deadlock_free:
  assumes "finite P" "waiter \<in> P" "held waiter < length (acquire (operation waiter) (applicable waiter))"
  shows "\<exists>p \<in> P. held p < length (acquire (operation p) (applicable p))
    \<and> (\<forall>q \<in> P. q \<noteq> p \<longrightarrow> held q < length (acquire (operation q) (applicable q)) \<longrightarrow>
          \<not> (lock_exclusive (acquire (operation p) (applicable p) ! held p)
             \<and> (\<exists>i < held q. acquire (operation q) (applicable q) ! i
                                = acquire (operation p) (applicable p) ! held p)))"
  using assms by (rule lifecycle_locks.some_not_blocked)

theorem acquire_deadlock_free_witness:
  "\<exists>p \<in> {0, 1 :: nat}. (if p = 0 then 4 else 2) < length (acquire sample_identity [])
    \<and> (\<forall>q \<in> {0, 1}. q \<noteq> p \<longrightarrow> (if q = 0 then 4 else 2) < length (acquire sample_identity []) \<longrightarrow>
          \<not> (lock_exclusive (acquire sample_identity [] ! (if p = 0 then 4 else 2))
             \<and> (\<exists>i < (if q = 0 then 4 else 2). acquire sample_identity [] ! i
                                = acquire sample_identity [] ! (if p = 0 then 4 else 2))))"
  by (rule acquire_deadlock_free [where P = "{0, 1 :: nat}" and waiter = 1
        and held = "\<lambda>p. if p = 0 then 4 else 2" and operation = "\<lambda>_. sample_identity"
        and applicable = "\<lambda>_. []"])
     (simp_all add: acquire_def identity_keys_def)

text \<open>
  The lease covers exactly the submission itself and every applicable identity, each once
  and in ascending key order.
\<close>

theorem acquire_covers_identities:
  "sorted_wrt (<) (identity_keys operation applicable)
   \<and> set (identity_keys operation applicable)
     = submission_operation_key ` (insert operation (set applicable))"
  using sorted_wrt_identity_keys by (auto simp add: identity_keys_def)

text \<open>
  The in-flight registry is exact: after any multiset of live guards, a round is reported
  busy if and only if a guard of that round is live; registering adds one guard and dropping
  removes one.
\<close>

theorem in_flight_registry_exact:
  "register_in_flight (registry_of guards) i
     = registry_of (add_mset (submission_operation_key i) guards)
   \<and> drop_in_flight (registry_of (add_mset key guards)) key = registry_of guards
   \<and> (has_in_flight_for_round (registry_of guards) j
        \<longleftrightarrow> (\<exists>k. k \<in># guards \<and> bk_round (sk_bundle k) = round_key j))"
proof -
  have "dom (registry_of guards) = set_mset guards"
    by (auto simp add: registry_of_def split: if_splits)
  then show ?thesis
    by (auto simp add: registry_of_register registry_of_drop has_in_flight_for_round_def)
qed

end
