(* ===== verification/Submission_Store.thy ===== *)
theory Submission_Store
  imports Submission_State Submission_Coordination
begin

text \<open>
  The storage contract of the submission lifecycle (\<open>chain_submission/store.rs\<close>): advancement
  requests with the identities a batch overlaps, the durable record with the bookkeeping every
  transition shares, and the failures a store attaches to it.  The types of
  \<open>chain_submission/generation.rs\<close> that cross the contract are here as well.
\<close>

section \<open>Generations bound to their confirmation layout\<close>

datatype ExpectedTreeLayout =
    DelegationLayout bytes
  | VoteLayout bytes bytes
  | VoteBatchLayout bytes "bytes list"

fun layout_leaves :: "ExpectedTreeLayout \<Rightarrow> bytes list" where
  "layout_leaves (DelegationLayout van) = [van]"
| "layout_leaves (VoteLayout van commitment) = [van, commitment]"
| "layout_leaves (VoteBatchLayout van commitments) = van # commitments"

text \<open>
  The closed wire request; the bodies are opaque JSON documents here, except what confirmation
  reads of a batch: its members' VAN nullifiers and the number of governance nullifiers.
\<close>

datatype ChainSubmissionRequest =
    DelegationRequest bytes
  | ImportedDelegationRequest CandidateTransactionHash
  | VoteRequest bytes
  | VoteBatchRequest bytes "bytes list"
  | DelegateAndVoteBatchRequest bytes "bytes list" nat

record BoundGeneration =
  generation :: ChainSubmissionGeneration
  expected_layout :: ExpectedTreeLayout
  ordered_proposal_ids :: "u32 list"

record DerivedChainSubmission =
  bound :: BoundGeneration
  wire_request :: ChainSubmissionRequest

abbreviation derived_generation :: "DerivedChainSubmission \<Rightarrow> ChainSubmissionGeneration" where
  "derived_generation derived \<equiv> generation (bound derived)"

fun imported_candidate_of :: "ChainSubmissionRequest \<Rightarrow> CandidateTransactionHash option" where
  "imported_candidate_of (ImportedDelegationRequest candidate) = Some candidate"
| "imported_candidate_of _ = None"

definition imported_candidate :: "DerivedChainSubmission \<Rightarrow> CandidateTransactionHash option" where
  "imported_candidate derived = imported_candidate_of (wire_request derived)"

section \<open>Advancement requests\<close>

datatype SubmissionDerivationRequest =
    DeriveDelegation ChainSubmissionIdentity bytes
  | DeriveImportedDelegation ChainSubmissionIdentity
  | DeriveVote ChainSubmissionIdentity
  | DeriveVoteBatch ChainSubmissionIdentity

fun derivation_identity :: "SubmissionDerivationRequest \<Rightarrow> ChainSubmissionIdentity" where
  "derivation_identity (DeriveDelegation i _) = i"
| "derivation_identity (DeriveImportedDelegation i) = i"
| "derivation_identity (DeriveVote i) = i"
| "derivation_identity (DeriveVoteBatch i) = i"

record StoreAdvancementRequest =
  derivation :: SubmissionDerivationRequest
  member_identities :: "ChainSubmissionIdentity list"
  ordered_batch_proposal_ids :: "u32 list option"

definition request_delegation :: "ChainSubmissionIdentity \<Rightarrow> bytes \<Rightarrow> StoreAdvancementRequest" where
  "request_delegation i signature =
     \<lparr>derivation = DeriveDelegation i signature, member_identities = [],
      ordered_batch_proposal_ids = None\<rparr>"

definition request_imported_delegation :: "ChainSubmissionIdentity \<Rightarrow> StoreAdvancementRequest" where
  "request_imported_delegation i =
     \<lparr>derivation = DeriveImportedDelegation i, member_identities = [],
      ordered_batch_proposal_ids = None\<rparr>"

definition request_vote :: "ChainSubmissionIdentity \<Rightarrow> StoreAdvancementRequest" where
  "request_vote i =
     \<lparr>derivation = DeriveVote i, member_identities = [], ordered_batch_proposal_ids = None\<rparr>"

fun identity_error_text :: "ChainSubmissionIdentityError \<Rightarrow> unicode" where
  "identity_error_text EmptyWalletId = lit ''chain submission wallet_id must not be empty''"
| "identity_error_text InvalidVoteRoundId =
     lit ''vote_round_id must be a canonical Pallas field encoding''"
| "identity_error_text (InvalidProposalId pid) =
     lit (''proposal_id must be between '' @ decimal (unat MIN_PROPOSAL_ID) @ '' and ''
          @ decimal (unat MAX_PROPOSAL_ID) @ '', got '' @ decimal (unat pid))"

definition member_identity ::
  "(bytes \<Rightarrow> bool) \<Rightarrow> ChainSubmissionIdentity \<Rightarrow> ChainSubmissionTarget
   \<Rightarrow> ChainSubmissionFailure + ChainSubmissionIdentity" where
  "member_identity canonical i tgt =
     map_err (\<lambda>error. without_state InvalidInput (identity_error_text error))
       (identity_new canonical (wallet_id i) (network i) (vote_round_id i) (bundle_index i) tgt)"

fun collect_results :: "('e + 'a) list \<Rightarrow> 'e + 'a list" where
  "collect_results [] = Inr []"
| "collect_results (r # rs) =
     and_then r (\<lambda>x. and_then (collect_results rs) (\<lambda>xs. Inr (x # xs)))"

text \<open>The last step of \<open>vote_batch\<close>: members sorted by operation key, duplicates refused.\<close>

definition batch_request_from_members ::
  "ChainSubmissionIdentity \<Rightarrow> u32 list \<Rightarrow> ChainSubmissionIdentity list
   \<Rightarrow> ChainSubmissionFailure + StoreAdvancementRequest" where
  "batch_request_from_members i proposal_ids members =
     (let sorted_members = sort_key submission_operation_key members;
          deduplicated = remdups_adj sorted_members
      in if length deduplicated \<noteq> length sorted_members
         then Inl (without_state InvalidInput
           (lit ''vote-batch proposal roster contains duplicates''))
         else Inr \<lparr>derivation = DeriveVoteBatch i, member_identities = deduplicated,
                   ordered_batch_proposal_ids = Some proposal_ids\<rparr>)"

definition request_vote_batch ::
  "(bytes \<Rightarrow> bool) \<Rightarrow> ChainSubmissionIdentity \<Rightarrow> u32 list
   \<Rightarrow> ChainSubmissionFailure + StoreAdvancementRequest" where
  "request_vote_batch canonical i proposal_ids =
     (if batch_digest (target i) = None \<or> proposal_ids = []
      then Inl (without_state InvalidInput
        (lit ''vote-batch requests require a batch identity and a non-empty ordered proposal roster''))
      else if length proposal_ids > MAX_VOTE_BATCH_ACTIONS
      then Inl (without_state InvalidInput
        (lit (''vote-batch proposal roster exceeds the '' @ decimal MAX_VOTE_BATCH_ACTIONS
              @ ''-action protocol maximum'')))
      else
        and_then (collect_results (map (\<lambda>pid. member_identity canonical i (Vote pid)) proposal_ids))
          (\<lambda>votes.
        and_then (if is_combined (target i)
                  then and_then (member_identity canonical i Delegation) (\<lambda>d. Inr (votes @ [d]))
                  else Inr votes)
          (\<lambda>members.
        batch_request_from_members i proposal_ids members)))"

definition request_identity :: "StoreAdvancementRequest \<Rightarrow> ChainSubmissionIdentity" where
  "request_identity request = derivation_identity (derivation request)"

definition applicable_identities :: "StoreAdvancementRequest \<Rightarrow> ChainSubmissionIdentity list" where
  "applicable_identities request = member_identities request @ [request_identity request]"

fun is_batch_derivation :: "SubmissionDerivationRequest \<Rightarrow> bool" where
  "is_batch_derivation (DeriveVoteBatch _) = True"
| "is_batch_derivation _ = False"

fun is_imported_derivation :: "SubmissionDerivationRequest \<Rightarrow> bool" where
  "is_imported_derivation (DeriveImportedDelegation _) = True"
| "is_imported_derivation _ = False"

definition is_batch :: "StoreAdvancementRequest \<Rightarrow> bool" where
  "is_batch request = is_batch_derivation (derivation request)"

definition is_imported_delegation :: "StoreAdvancementRequest \<Rightarrow> bool" where
  "is_imported_delegation request = is_imported_derivation (derivation request)"

definition verify_batch_roster ::
  "StoreAdvancementRequest \<Rightarrow> u32 list \<Rightarrow> ChainSubmissionFailure + unit" where
  "verify_batch_roster request authoritative =
     (case ordered_batch_proposal_ids request of
        None \<Rightarrow> Inr ()
      | Some expected \<Rightarrow>
          ensure (authoritative = expected)
            (without_state InvalidInput
              (lit ''vote-batch proposal roster does not match the complete persisted batch'')))"

fun target_matches_derivation :: "SubmissionDerivationRequest \<Rightarrow> ChainSubmissionTarget \<Rightarrow> bool" where
  "target_matches_derivation (DeriveDelegation _ _) Delegation = True"
| "target_matches_derivation (DeriveImportedDelegation _) Delegation = True"
| "target_matches_derivation (DeriveVote _) (Vote _) = True"
| "target_matches_derivation (DeriveVoteBatch _) (VoteBatch _) = True"
| "target_matches_derivation (DeriveVoteBatch _) (DelegateAndVoteBatch _) = True"
| "target_matches_derivation _ _ = False"

definition validate_target :: "StoreAdvancementRequest \<Rightarrow> ChainSubmissionFailure + unit" where
  "validate_target request =
     ensure (target_matches_derivation (derivation request) (target (request_identity request)))
       (without_state InvalidInput
         (lit ''submission request kind does not match its typed identity target''))"

section \<open>The durable record\<close>

record StoredChainSubmission =
  stored_identity :: ChainSubmissionIdentity
  stored_digest :: GenerationDigest
  stored_state :: SubmissionRecordState
  committed_post_reservations :: u64
  tracking_started_at :: "u64 option"
  stored_diagnostic :: "ChainSubmissionDiagnostic option"
  created_at :: u64
  updated_at :: u64

fun is_tracking :: "SubmissionRecordState \<Rightarrow> bool" where
  "is_tracking (Tracking _) = True"
| "is_tracking _ = False"

fun state_diagnostic :: "SubmissionRecordState \<Rightarrow> ChainSubmissionDiagnostic option" where
  "state_diagnostic (Recovering _ d) = Some d"
| "state_diagnostic (SubmittedWithoutHash d) = Some d"
| "state_diagnostic (Rejected d) = Some d"
| "state_diagnostic _ = None"

definition settle_after_transition ::
  "ChainSubmissionState \<Rightarrow> ChainSubmissionDiagnostic option \<Rightarrow> u64
   \<Rightarrow> StoredChainSubmission \<Rightarrow> StoredChainSubmission" where
  "settle_after_transition previous explicit_diagnostic now record =
     (let entered_tracking = is_tracking (stored_state record) \<and> previous \<noteq> StateTracking;
          diagnostic =
            (case state_diagnostic (stored_state record) of
               Some d \<Rightarrow> Some d
             | None \<Rightarrow> (case explicit_diagnostic of
                   Some d \<Rightarrow> Some d
                 | None \<Rightarrow> if entered_tracking then None else stored_diagnostic record));
          effective_now = max now (updated_at record)
      in record\<lparr>stored_diagnostic := diagnostic,
                tracking_started_at :=
                  (if is_tracking (stored_state record) \<and> tracking_started_at record = None
                   then Some effective_now else tracking_started_at record),
                updated_at := effective_now\<rparr>)"

fun is_rejected :: "SubmissionRecordState \<Rightarrow> bool" where
  "is_rejected (Rejected _) = True"
| "is_rejected _ = False"

definition retires_combined_generation ::
  "StoredChainSubmission \<Rightarrow> ChainSubmissionState \<Rightarrow> bool" where
  "retires_combined_generation record previous \<longleftrightarrow>
     is_rejected (stored_state record) \<and> previous \<noteq> StateRejected
     \<and> is_combined (target (stored_identity record))"

definition fresh_record ::
  "ChainSubmissionGeneration \<Rightarrow> u64 \<Rightarrow> u64 \<Rightarrow> StoredChainSubmission" where
  "fresh_record gen reservations now =
     \<lparr>stored_identity = gen_identity gen, stored_digest = gen_digest gen,
      stored_state = Submitting, committed_post_reservations = reservations,
      tracking_started_at = None, stored_diagnostic = None, created_at = now, updated_at = now\<rparr>"

definition adopted_imported_delegation ::
  "ChainSubmissionGeneration \<Rightarrow> CandidateTransactionHash \<Rightarrow> u64 \<Rightarrow> StoredChainSubmission" where
  "adopted_imported_delegation gen candidate now =
     \<lparr>stored_identity = gen_identity gen, stored_digest = gen_digest gen,
      stored_state = Tracking candidate, committed_post_reservations = 0,
      tracking_started_at = Some now, stored_diagnostic = None,
      created_at = now, updated_at = now\<rparr>"

abbreviation record_durable_state :: "StoredChainSubmission \<Rightarrow> ChainSubmissionState" where
  "record_durable_state record \<equiv> durable_state (stored_state record)"

definition public_result ::
  "StoredChainSubmission \<Rightarrow> ChainSubmissionFailure + ChainSubmissionResult" where
  "public_result record =
     (case stored_state record of
        Submitting \<Rightarrow> Inl (with_durable_state InvariantViolation StateSubmitting
          (lit ''Submitting must be normalized before returning from an advancement pass''))
      | Tracking candidate \<Rightarrow> Inr (ResultPending (PendingTracking candidate))
      | Recovering candidate d \<Rightarrow> Inr (ResultPending (PendingRecovering candidate d))
      | SubmittedWithoutHash d \<Rightarrow> Inr (ResultSubmittedWithoutHash d)
      | Confirmed c \<Rightarrow> Inr (ResultConfirmed (confirmation c))
      | Rejected d \<Rightarrow> Inr (ResultRejected d))"

datatype StoreAdmission =
    NoAuthoritativeState
  | Authoritative StoredChainSubmission
  | AbandonedReservation StoredChainSubmission
  | Ready DerivedChainSubmission StoredChainSubmission bool

datatype ConfirmationCommit =
    CommitInterrupted StoredChainSubmission
  | CommitConfirmed StoredChainSubmission

section \<open>Failures of a store\<close>

text \<open>
  An error of the crate's \<open>VotingError\<close> type, with the text of its \<open>Display\<close>; only invalid
  input is distinguished by the lifecycle.
\<close>

datatype VotingError =
    VotingInvalidInput unicode
  | VotingOtherError unicode

definition abandoned_diagnostic :: ChainSubmissionDiagnostic where
  "abandoned_diagnostic = from_redacted_message AmbiguousDispatch
     (lit ''an unclassified submission reservation survived process interruption'')"

definition ensure_generation ::
  "StoredChainSubmission \<Rightarrow> ChainSubmissionGeneration \<Rightarrow> ChainSubmissionFailure + unit" where
  "ensure_generation record gen =
     (if stored_identity record \<noteq> gen_identity gen \<or> stored_digest record \<noteq> gen_digest gen
      then Inl (with_durable_state InvalidInput (record_durable_state record)
        (lit ''stored submission belongs to a different semantic generation''))
      else Inr ())"

definition transition_failure :: "ChainSubmissionState \<Rightarrow> unicode \<Rightarrow> ChainSubmissionFailure" where
  "transition_failure state error = with_durable_state InvariantViolation state error"

definition preserve_loaded_state ::
  "ChainSubmissionFailure \<Rightarrow> StoredChainSubmission option \<Rightarrow> ChainSubmissionFailure" where
  "preserve_loaded_state error loaded =
     (case (strongest_state error, loaded) of
        (None, Some record) \<Rightarrow>
          with_durable_state (failure_kind error) (record_durable_state record)
            (lit (failure_message error))
      | _ \<Rightarrow> error)"

fun map_generation_error :: "VotingError \<Rightarrow> ChainSubmissionFailure" where
  "map_generation_error (VotingInvalidInput message) = without_state InvalidInput message"
| "map_generation_error (VotingOtherError message) = without_state Storage message"

fun state_debug :: "ChainSubmissionState \<Rightarrow> string" where
  "state_debug StateSubmitting = ''Submitting''"
| "state_debug StateTracking = ''Tracking''"
| "state_debug StateRecovering = ''Recovering''"
| "state_debug StateSubmittedWithoutHash = ''SubmittedWithoutHash''"
| "state_debug StateConfirmed = ''Confirmed''"
| "state_debug StateRejected = ''Rejected''"

fun transition_error_text :: "SubmissionTransitionError \<Rightarrow> unicode" where
  "transition_error_text (IllegalTransition from observation) =
     lit (''illegal chain submission transition from ''
          @ (case from of None \<Rightarrow> ''None'' | Some s \<Rightarrow> ''Some('' @ state_debug s @ '')'')
          @ '' after '' @ observation)"
| "transition_error_text ConflictingCandidateHash =
     lit ''candidate transaction hash conflicts with the durable candidate''"
| "transition_error_text ConfirmationDoesNotMatchCandidate =
     lit ''hash confirmation does not match the durable candidate transaction''"
| "transition_error_text ConflictingConfirmation =
     lit ''terminal confirmation conflicts with the durable confirmation''"

section \<open>Facts about batch requests\<close>

lemma member_identity_eq_Inr:
  "member_identity canonical i (Vote pid) = Inr j \<longleftrightarrow>
     wallet_id i \<noteq> [] \<and> validate_vote_round_id_bytes canonical (vote_round_id i) = Inr ()
     \<and> MIN_PROPOSAL_ID \<le> pid \<and> pid \<le> MAX_PROPOSAL_ID \<and> j = i\<lparr>target := Vote pid\<rparr>"
  "member_identity canonical i Delegation = Inr j \<longleftrightarrow>
     wallet_id i \<noteq> [] \<and> validate_vote_round_id_bytes canonical (vote_round_id i) = Inr ()
     \<and> j = i\<lparr>target := Delegation\<rparr>"
  by (auto simp add: member_identity_def identity_new_def)

lemma collect_results_map_eq_Inr:
  assumes "\<And>x y. f x = Inr y \<Longrightarrow> y = g x"
  shows "collect_results (map f xs) = Inr ys \<longleftrightarrow>
     (\<forall>x \<in> set xs. f x = Inr (g x)) \<and> ys = map g xs"
proof (induction xs arbitrary: ys)
  case (Cons x xs)
  show ?case
  proof (cases "f x")
    case (Inr y)
    with assms have "y = g x"
      by blast
    with Inr Cons.IH show ?thesis
      by auto
  qed simp
qed auto

lemma length_remdups_adj_sort_key:
  assumes "inj f"
  shows "length (remdups_adj (sort_key f xs)) = length (sort_key f xs) \<longleftrightarrow> distinct xs"
    and "sorted_wrt (<) (map f (remdups_adj (sort_key f xs)))"
proof -
  let ?ys = "sort_key f xs"
  have map: "map f (remdups_adj ?ys) = remdups_adj (map f ?ys)"
    using assms by (simp add: remdups_adj_map_injective)
  show strict: "sorted_wrt (<) (map f (remdups_adj ?ys))"
    unfolding map by (rule sorted_remdups_adj_strict) simp
  then have "distinct (remdups_adj ?ys)"
    by (simp add: strict_sorted_iff distinct_map)
  then have "length (remdups_adj ?ys) = card (set xs)"
    using distinct_card [of "remdups_adj ?ys"] by simp
  moreover have "distinct xs \<longleftrightarrow> card (set xs) = length xs"
    using card_distinct distinct_card by blast
  ultimately show "length (remdups_adj ?ys) = length ?ys \<longleftrightarrow> distinct xs"
    by simp
qed

lemma submission_operation_key_inj: "inj submission_operation_key"
  by (simp add: inj_def submission_operation_key_eq_iff)

lemma distinct_vote_members:
  "distinct (map (\<lambda>pid. i\<lparr>target := Vote pid\<rparr>) pids) \<longleftrightarrow> distinct pids"
  by (auto simp add: distinct_map inj_on_def
      dest: arg_cong [of _ _ target])

definition batch_members :: "ChainSubmissionIdentity \<Rightarrow> u32 list \<Rightarrow> ChainSubmissionIdentity list" where
  "batch_members i pids =
     map (\<lambda>pid. i\<lparr>target := Vote pid\<rparr>) pids
     @ (if is_combined (target i) then [i\<lparr>target := Delegation\<rparr>] else [])"

lemma distinct_batch_members: "distinct (batch_members i pids) \<longleftrightarrow> distinct pids"
  by (auto simp add: batch_members_def distinct_vote_members dest: arg_cong [of _ _ target])

definition batch_request_valid ::
  "(bytes \<Rightarrow> bool) \<Rightarrow> ChainSubmissionIdentity \<Rightarrow> u32 list \<Rightarrow> bool" where
  "batch_request_valid canonical i pids \<longleftrightarrow>
     batch_digest (target i) \<noteq> None \<and> pids \<noteq> [] \<and> length pids \<le> MAX_VOTE_BATCH_ACTIONS
     \<and> wallet_id i \<noteq> [] \<and> validate_vote_round_id_bytes canonical (vote_round_id i) = Inr ()
     \<and> list_all (\<lambda>pid. MIN_PROPOSAL_ID \<le> pid \<and> pid \<le> MAX_PROPOSAL_ID) pids \<and> distinct pids"

lemma batch_request_from_members_eq_Inr:
  "batch_request_from_members i pids ms = Inr r \<longleftrightarrow>
     distinct ms
     \<and> r = \<lparr>derivation = DeriveVoteBatch i,
            member_identities = sort_key submission_operation_key ms,
            ordered_batch_proposal_ids = Some pids\<rparr>"
proof -
  let ?ys = "sort_key submission_operation_key ms"
  have "length (remdups_adj ?ys) = length ?ys \<longleftrightarrow> distinct ms"
    by (rule length_remdups_adj_sort_key(1)) (rule submission_operation_key_inj)
  moreover have "remdups_adj ?ys = ?ys" if "distinct ms"
    using that by (simp add: remdups_adj_distinct)
  ultimately show ?thesis
    unfolding batch_request_from_members_def Let_def by auto
qed

lemma request_vote_batch_eq_Inr:
  "request_vote_batch canonical i pids = Inr r \<longleftrightarrow>
     batch_request_valid canonical i pids
     \<and> r = \<lparr>derivation = DeriveVoteBatch i,
            member_identities = sort_key submission_operation_key (batch_members i pids),
            ordered_batch_proposal_ids = Some pids\<rparr>"
proof -
  have votes: "collect_results (map (\<lambda>pid. member_identity canonical i (Vote pid)) pids) = Inr ys
      \<longleftrightarrow> (pids \<noteq> [] \<longrightarrow> wallet_id i \<noteq> []
            \<and> validate_vote_round_id_bytes canonical (vote_round_id i) = Inr ())
          \<and> list_all (\<lambda>pid. MIN_PROPOSAL_ID \<le> pid \<and> pid \<le> MAX_PROPOSAL_ID) pids
          \<and> ys = map (\<lambda>pid. i\<lparr>target := Vote pid\<rparr>) pids" for ys
    by (subst collect_results_map_eq_Inr [where g = "\<lambda>pid. i\<lparr>target := Vote pid\<rparr>"])
       (cases pids; auto simp add: member_identity_eq_Inr list_all_iff)+
  have members: "(if is_combined (target i)
        then and_then (member_identity canonical i Delegation) (\<lambda>d. Inr (votes @ [d]))
        else Inr votes) = Inr ms \<longleftrightarrow>
      (is_combined (target i) \<longrightarrow> wallet_id i \<noteq> []
         \<and> validate_vote_round_id_bytes canonical (vote_round_id i) = Inr ())
      \<and> ms = votes @ (if is_combined (target i) then [i\<lparr>target := Delegation\<rparr>] else [])"
    for votes ms
    by (auto simp add: member_identity_eq_Inr)
  show ?thesis
  proof (cases "batch_digest (target i) = None \<or> pids = [] \<or> length pids > MAX_VOTE_BATCH_ACTIONS")
    case True
    then show ?thesis
      by (auto simp add: request_vote_batch_def batch_request_valid_def)
  next
    case False
    then have cond: "(batch_digest (target i) = None \<or> pids = []) = False"
        "(length pids > MAX_VOTE_BATCH_ACTIONS) = False"
      by auto
    have "request_vote_batch canonical i pids = Inr r \<longleftrightarrow>
        wallet_id i \<noteq> [] \<and> validate_vote_round_id_bytes canonical (vote_round_id i) = Inr ()
        \<and> list_all (\<lambda>pid. MIN_PROPOSAL_ID \<le> pid \<and> pid \<le> MAX_PROPOSAL_ID) pids
        \<and> batch_request_from_members i pids (batch_members i pids) = Inr r"
      unfolding batch_members_def
      by (simp only: request_vote_batch_def cond if_False and_then_eq_Inr votes members)
         (use cond in auto)
    with False show ?thesis
      by (auto simp add: batch_request_valid_def batch_request_from_members_eq_Inr
          distinct_batch_members)
  qed
qed

text \<open>
  A vote-batch request is accepted exactly for a batch identity with a non-empty roster of
  at most fifty distinct valid proposals, and the accepted request is determined: it locks, in
  strictly ascending key order, one singleton identity per proposal and for a combined batch the
  delegation as well.
\<close>

theorem request_vote_batch_exact:
  "request_vote_batch canonical i pids = Inr r \<longleftrightarrow>
     batch_request_valid canonical i pids
     \<and> derivation r = DeriveVoteBatch i \<and> ordered_batch_proposal_ids r = Some pids
     \<and> sorted_wrt (<) (map submission_operation_key (member_identities r))
     \<and> set (member_identities r) = set (batch_members i pids)"
proof -
  let ?k = submission_operation_key
  let ?ms = "sort_key ?k (batch_members i pids)"
  have canonical_order: "ms = ?ms \<longleftrightarrow> sorted_wrt (<) (map ?k ms) \<and> set ms = set (batch_members i pids)"
    if "distinct (batch_members i pids)" for ms
  proof
    assume "ms = ?ms"
    moreover from that have "remdups_adj ?ms = ?ms"
      by (simp add: remdups_adj_distinct)
    ultimately show "sorted_wrt (<) (map ?k ms) \<and> set ms = set (batch_members i pids)"
      using length_remdups_adj_sort_key(2) [OF submission_operation_key_inj, of "batch_members i pids"]
      by simp
  next
    assume ms: "sorted_wrt (<) (map ?k ms) \<and> set ms = set (batch_members i pids)"
    have "map ?k ms = map ?k ?ms"
    proof (rule sorted_distinct_set_unique)
      show "distinct (map ?k ?ms)"
        using that submission_operation_key_inj by (simp add: distinct_map inj_on_def inj_def)
    qed (use ms in \<open>auto simp add: strict_sorted_iff\<close>)
    then show "ms = ?ms"
      using submission_operation_key_inj by (simp add: inj_map_eq_map)
  qed
  show ?thesis
    using canonical_order [of "member_identities r"] distinct_batch_members [of i pids]
    by (cases r) (auto simp add: request_vote_batch_eq_Inr batch_request_valid_def)
qed

section \<open>Facts about the bookkeeping of a transition\<close>

lemma settle_after_transition_fields [simp]:
  "stored_identity (settle_after_transition p d now r) = stored_identity r"
  "stored_digest (settle_after_transition p d now r) = stored_digest r"
  "stored_state (settle_after_transition p d now r) = stored_state r"
  "committed_post_reservations (settle_after_transition p d now r) = committed_post_reservations r"
  "created_at (settle_after_transition p d now r) = created_at r"
  "updated_at (settle_after_transition p d now r) = max now (updated_at r)"
  by (simp_all add: settle_after_transition_def Let_def)

lemma settle_after_transition_tracking_start:
  "tracking_started_at (settle_after_transition p d now r) =
     (if is_tracking (stored_state r) \<and> tracking_started_at r = None
      then Some (max now (updated_at r)) else tracking_started_at r)"
  by (simp add: settle_after_transition_def Let_def)

lemma settle_after_transition_diagnostic:
  "stored_diagnostic (settle_after_transition p d now r) =
     (case state_diagnostic (stored_state r) of
        Some x \<Rightarrow> Some x
      | None \<Rightarrow> (case d of Some x \<Rightarrow> Some x
          | None \<Rightarrow> if is_tracking (stored_state r) \<and> p \<noteq> StateTracking then None
                    else stored_diagnostic r))"
  by (simp add: settle_after_transition_def Let_def)

end
