(* ===== verification/Submission_Sqlite.thy ===== *)
theory Submission_Sqlite
  imports Submission_Store
begin

text \<open>
  The SQLite authority of the submission lifecycle (\<open>chain_submission/store/sqlite.rs\<close>) over
  the table \<open>chain_submissions\<close> of \<open>storage/migrations/001_init.sql\<close>: the row codec, the
  constraints, indexes and triggers of the schema, immediate transactions, and every operation of
  the store.

  A database is the list of submission rows together with the tables of the voting domain.  The
  domain tables are an abstract state: what the store calls on them (generation derivation,
  confirmation validation, the confirmation projection, retirement of a combined generation) is
  the record \<open>domain_ops\<close>, and every theorem holds for all its instances.  The column
  \<open>round_id\<close> holds the hexadecimal text of the round id; since the store only compares it for
  equality the model keeps the 32 bytes.  SQLite's own failures are the \<open>sql_faults\<close> of a
  transaction: it may fail to begin or to commit, and then nothing is written.
\<close>

section \<open>Rows, errors and the environment of a transaction\<close>

record SubmissionRow =
  row_key :: bytes
  row_round_id :: bytes
  row_wallet_id :: bytes
  row_network :: string
  row_bundle_index :: int
  row_kind :: string
  row_proposal_id :: "int option"
  row_batch_digest :: "bytes option"
  row_generation_digest :: bytes
  row_state :: string
  row_candidate :: "bytes option"
  row_reservations :: int
  row_tracking_started_at :: "int option"
  row_diagnostic_kind :: "string option"
  row_diagnostic :: "string option"
  row_source :: "string option"
  row_confirmed_hash :: "bytes option"
  row_final_van :: "int option"
  row_positions :: "bytes option"
  row_created_at :: int
  row_updated_at :: int

datatype SqlError =
    InvalidQuery
  | QueryReturnedNoRows
  | IntegerOutOfRange
  | ConstraintViolation
  | SqlFault unicode

record sql_faults =
  begin_fault :: "SqlError option"
  commit_fault :: "SqlError option"

record ('d, 'ev) domain_ops =
  ops_sql_text :: "SqlError \<Rightarrow> unicode"
  ops_round_exists :: "'d \<Rightarrow> bytes \<Rightarrow> bytes \<Rightarrow> bool"
  ops_bundle_delegated :: "'d \<Rightarrow> ChainSubmissionIdentity \<Rightarrow> bool option"
  ops_combined_recovery :: "'d \<Rightarrow> ChainSubmissionIdentity \<Rightarrow> bool"
  ops_derive :: "'d \<Rightarrow> SubmissionDerivationRequest \<Rightarrow> VotingError + DerivedChainSubmission"
  ops_validate_confirmation ::
    "bool \<Rightarrow> DerivedChainSubmission \<Rightarrow> CandidateTransactionHash \<Rightarrow> 'ev
     \<Rightarrow> VotingError + ValidatedChainSubmissionConfirmation"
  ops_apply_confirmed ::
    "'d \<Rightarrow> BoundGeneration \<Rightarrow> ValidatedChainSubmissionConfirmation \<Rightarrow> VotingError + 'd"
  ops_retire_combined ::
    "'d \<Rightarrow> ChainSubmissionIdentity \<Rightarrow> ChainSubmissionDiagnostic \<Rightarrow> u64 \<Rightarrow> VotingError + 'd"

record 'd voting_db =
  submissions :: "SubmissionRow list"
  domain :: 'd

definition storage_error :: "('d, 'ev) domain_ops \<Rightarrow> SqlError \<Rightarrow> ChainSubmissionFailure" where
  "storage_error ops error = without_state Storage (ops_sql_text ops error)"

definition possible_dispatch_error :: "ChainSubmissionFailure \<Rightarrow> ChainSubmissionFailure" where
  "possible_dispatch_error error =
     with_known_possible_dispatch (failure_kind error) (lit (failure_message error))"

definition transact ::
  "('d, 'ev) domain_ops \<Rightarrow> sql_faults \<Rightarrow> 'd voting_db
   \<Rightarrow> ('d voting_db \<Rightarrow> ChainSubmissionFailure + 'a \<times> 'd voting_db)
   \<Rightarrow> (ChainSubmissionFailure + 'a) \<times> 'd voting_db" where
  "transact ops faults db operation =
     (case begin_fault faults of
        Some e \<Rightarrow> (Inl (storage_error ops e), db)
      | None \<Rightarrow> (case operation db of
            Inl e \<Rightarrow> (Inl e, db)
          | Inr (result, db') \<Rightarrow> (case commit_fault faults of
                Some e \<Rightarrow> (Inl (storage_error ops e), db)
              | None \<Rightarrow> (Inr result, db'))))"

definition derive ::
  "('d, 'ev) domain_ops \<Rightarrow> 'd voting_db \<Rightarrow> SubmissionDerivationRequest
   \<Rightarrow> ChainSubmissionFailure + DerivedChainSubmission" where
  "derive ops db request = map_err map_generation_error (ops_derive ops (domain db) request)"

section \<open>The row codec\<close>

definition sql_u64 :: "u64 \<Rightarrow> SqlError + int" where
  "sql_u64 w = (if unat w < 2 ^ 63 then Inr (int (unat w)) else Inl IntegerOutOfRange)"

definition sql_option_u64 :: "u64 option \<Rightarrow> SqlError + int option" where
  "sql_option_u64 x =
     (case x of None \<Rightarrow> Inr None | Some w \<Rightarrow> and_then (sql_u64 w) (\<lambda>i. Inr (Some i)))"

definition u64_try_from :: "int \<Rightarrow> SqlError + u64" where
  "u64_try_from i = (if 0 \<le> i then Inr (of_int i) else Inl InvalidQuery)"

definition bytes32 :: "bytes \<Rightarrow> SqlError + bytes" where
  "bytes32 value = (if length value = 32 then Inr value else Inl InvalidQuery)"

definition option_bytes32 :: "bytes option \<Rightarrow> SqlError + bytes option" where
  "option_bytes32 x =
     (case x of None \<Rightarrow> Inr None | Some v \<Rightarrow> and_then (bytes32 v) (\<lambda>b. Inr (Some b)))"

fun chunks_exact_u64 :: "bytes \<Rightarrow> u64 list" where
  "chunks_exact_u64 bs =
     (if length bs < 8 then [] else of_nat (be_nat (take 8 bs)) # chunks_exact_u64 (drop 8 bs))"

declare chunks_exact_u64.simps [simp del]

definition decode_positions :: "bytes \<Rightarrow> SqlError + u64 list" where
  "decode_positions encoded =
     (if length encoded < 5 \<or> encoded ! 0 \<noteq> 1 then Inl InvalidQuery
      else let n = be_nat (take 4 (drop 1 encoded)) in
        if length encoded \<noteq> 5 + n * 8 then Inl InvalidQuery
        else Inr (chunks_exact_u64 (drop 5 encoded)))"

definition encode_positions :: "u64 list \<Rightarrow> bytes" where
  "encode_positions positions =
     1 # be_u32 (of_nat (length positions)) @ concat (map be_u64 positions)"

definition parse_diagnostic_kind :: "string \<Rightarrow> SqlError + ChainSubmissionDiagnosticKind" where
  "parse_diagnostic_kind value = ok_or InvalidQuery (diagnostic_kind_from_stable_name value)"

definition load_diagnostic :: "SubmissionRow \<Rightarrow> SqlError + ChainSubmissionDiagnostic option" where
  "load_diagnostic row =
     (case (row_diagnostic_kind row, row_diagnostic row) of
        (Some kind, Some message) \<Rightarrow>
          and_then (parse_diagnostic_kind kind) (\<lambda>k.
            Inr (Some (from_redacted_message k (lit message))))
      | (None, None) \<Rightarrow> Inr None
      | _ \<Rightarrow> Inl InvalidQuery)"

definition load_confirmation ::
  "SubmissionRow \<Rightarrow> SqlError + (string \<times> u64 \<times> u64 list \<times> CandidateTransactionHash option) option" where
  "load_confirmation row =
     (case row_source row of
        None \<Rightarrow> Inr None
      | Some source \<Rightarrow>
          and_then (and_then (ok_or InvalidQuery (row_final_van row)) u64_try_from) (\<lambda>final_van.
          and_then (and_then (ok_or InvalidQuery (row_positions row)) decode_positions) (\<lambda>positions.
          and_then (option_bytes32 (row_confirmed_hash row)) (\<lambda>hash.
            Inr (Some (source, final_van, positions, hash))))))"

definition load_confirmed ::
  "(string \<times> u64 \<times> u64 list \<times> CandidateTransactionHash option) option
   \<Rightarrow> SqlError + SubmissionRecordState" where
  "load_confirmed loaded =
     and_then (ok_or InvalidQuery loaded) (\<lambda>(source, final_van, positions, hash).
     and_then
       (if source = ''hash''
        then and_then (ok_or InvalidQuery hash) (\<lambda>h.
               map_err (\<lambda>_. InvalidQuery) (confirmation_from_hash h final_van positions))
        else if source = ''tree''
        then map_err (\<lambda>_. InvalidQuery) (confirmation_from_tree final_van positions)
        else Inl InvalidQuery)
       (\<lambda>value. Inr (Confirmed value)))"

definition load_state ::
  "string \<Rightarrow> CandidateTransactionHash option \<Rightarrow> ChainSubmissionDiagnostic option
   \<Rightarrow> (string \<times> u64 \<times> u64 list \<times> CandidateTransactionHash option) option
   \<Rightarrow> SqlError + SubmissionRecordState" where
  "load_state name candidate diagnostic loaded =
     (if name = ''submitting'' then Inr Submitting
      else if name = ''tracking''
      then and_then (ok_or InvalidQuery candidate) (\<lambda>h. Inr (Tracking h))
      else if name = ''recovering''
      then and_then (ok_or InvalidQuery diagnostic) (\<lambda>d. Inr (Recovering candidate d))
      else if name = ''submitted_without_hash''
      then and_then (ok_or InvalidQuery diagnostic) (\<lambda>d. Inr (SubmittedWithoutHash d))
      else if name = ''confirmed'' then load_confirmed loaded
      else if name = ''rejected''
      then and_then (ok_or InvalidQuery diagnostic) (\<lambda>d. Inr (Rejected d))
      else Inl InvalidQuery)"

definition load_one ::
  "ChainSubmissionIdentity \<Rightarrow> SubmissionRow \<Rightarrow> SqlError + StoredChainSubmission" where
  "load_one i row =
     and_then (load_diagnostic row) (\<lambda>diagnostic.
     and_then (option_bytes32 (row_candidate row)) (\<lambda>candidate.
     and_then (load_confirmation row) (\<lambda>loaded.
     and_then (load_state (row_state row) candidate diagnostic loaded) (\<lambda>state.
     and_then (bytes32 (row_generation_digest row)) (\<lambda>digest.
     and_then (u64_try_from (row_reservations row)) (\<lambda>attempts.
     and_then (case row_tracking_started_at row of
                 None \<Rightarrow> Inr None
               | Some t \<Rightarrow> and_then (u64_try_from t) (\<lambda>w. Inr (Some w))) (\<lambda>tracking.
     and_then (u64_try_from (row_created_at row)) (\<lambda>created.
     and_then (u64_try_from (row_updated_at row)) (\<lambda>updated.
       Inr \<lparr>stored_identity = i, stored_digest = digest, stored_state = state,
            committed_post_reservations = attempts, tracking_started_at = tracking,
            stored_diagnostic = diagnostic, created_at = created,
            updated_at = updated\<rparr>)))))))))"

definition find_row :: "bytes \<Rightarrow> SubmissionRow list \<Rightarrow> SubmissionRow option" where
  "find_row key rows = find (\<lambda>row. row_key row = key) rows"

definition load_submission ::
  "('d, 'ev) domain_ops \<Rightarrow> 'd voting_db \<Rightarrow> ChainSubmissionIdentity
   \<Rightarrow> ChainSubmissionFailure + StoredChainSubmission option" where
  "load_submission ops db i =
     (case find_row (submission_identity_key i) (submissions db) of
        None \<Rightarrow> Inr None
      | Some row \<Rightarrow> map_err (storage_error ops) (and_then (load_one i row) (\<lambda>r. Inr (Some r))))"

section \<open>The schema\<close>

text \<open>
  The \<open>CHECK\<close> constraints of the table.  A constraint is violated only when it evaluates to
  false; one that involves a \<open>NULL\<close> passes.
\<close>

definition column_checks :: "SubmissionRow \<Rightarrow> bool" where
  "column_checks row \<longleftrightarrow>
     row_network row \<in> {''mainnet'', ''testnet'', ''regtest''}
     \<and> 0 \<le> row_bundle_index row \<and> row_bundle_index row \<le> 4294967295
     \<and> row_kind row \<in> {''delegation'', ''vote'', ''vote_batch'', ''delegate_and_cast_vote_batch''}
     \<and> length (row_generation_digest row) = 32
     \<and> row_state row \<in> {''submitting'', ''tracking'', ''recovering'', ''submitted_without_hash'',
                         ''confirmed'', ''rejected''}
     \<and> row_reservations row \<ge> 0
     \<and> (case row_source row of None \<Rightarrow> True | Some s \<Rightarrow> s \<in> {''hash'', ''tree''})
     \<and> row_created_at row \<ge> 0 \<and> row_updated_at row \<ge> row_created_at row
     \<and> length (row_key row) \<ge> 32"

definition target_checks :: "SubmissionRow \<Rightarrow> bool" where
  "target_checks row \<longleftrightarrow>
     row_kind row = ''delegation'' \<and> row_proposal_id row = None \<and> row_batch_digest row = None
     \<or> row_kind row = ''vote'' \<and> row_batch_digest row = None
         \<and> (case row_proposal_id row of None \<Rightarrow> True | Some p \<Rightarrow> 1 \<le> p \<and> p \<le> 50)
     \<or> row_kind row \<in> {''vote_batch'', ''delegate_and_cast_vote_batch''}
         \<and> row_proposal_id row = None
         \<and> (case row_batch_digest row of None \<Rightarrow> True | Some d \<Rightarrow> length d = 32)"

definition state_checks :: "SubmissionRow \<Rightarrow> bool" where
  "state_checks row \<longleftrightarrow>
     (case row_candidate row of None \<Rightarrow> True | Some h \<Rightarrow> length h = 32)
     \<and> (case row_confirmed_hash row of None \<Rightarrow> True | Some h \<Rightarrow> length h = 32)
     \<and> (row_state row = ''submitting'' \<and> row_candidate row = None
            \<and> row_tracking_started_at row = None
        \<or> row_state row = ''tracking'' \<and> row_candidate row \<noteq> None
            \<and> row_tracking_started_at row \<noteq> None
        \<or> row_state row \<in> {''recovering'', ''submitted_without_hash'', ''confirmed'', ''rejected''})
     \<and> (row_state row \<noteq> ''submitted_without_hash''
        \<or> row_candidate row = None \<and> row_confirmed_hash row = None \<and> row_final_van row = None
           \<and> row_positions row = None \<and> row_diagnostic_kind row \<noteq> None)"

definition evidence_checks :: "SubmissionRow \<Rightarrow> bool" where
  "evidence_checks row \<longleftrightarrow>
     ((row_diagnostic_kind row = None) = (row_diagnostic row = None))
     \<and> (case row_diagnostic row of None \<Rightarrow> True | Some d \<Rightarrow> length d \<le> 512)
     \<and> ((row_state row = ''confirmed'') = (row_source row \<noteq> None))
     \<and> (row_state row \<noteq> ''confirmed'' \<or> row_final_van row \<noteq> None \<and> row_positions row \<noteq> None)
     \<and> (row_source row \<noteq> Some ''hash''
        \<or> row_confirmed_hash row \<noteq> None
           \<and> (row_candidate row = None \<or> row_candidate row = row_confirmed_hash row))
     \<and> (row_source row \<noteq> Some ''tree'' \<or> row_confirmed_hash row = None)"

definition row_checks :: "SubmissionRow \<Rightarrow> bool" where
  "row_checks row \<longleftrightarrow>
     column_checks row \<and> target_checks row \<and> state_checks row \<and> evidence_checks row"

definition candidate_unique :: "SubmissionRow \<Rightarrow> SubmissionRow list \<Rightarrow> bool" where
  "candidate_unique row others \<longleftrightarrow>
     row_candidate row = None \<or> list_all (\<lambda>r. row_candidate r \<noteq> row_candidate row) others"

definition confirmed_hash_unique :: "SubmissionRow \<Rightarrow> SubmissionRow list \<Rightarrow> bool" where
  "confirmed_hash_unique row others \<longleftrightarrow>
     row_confirmed_hash row = None
     \<or> list_all (\<lambda>r. row_confirmed_hash r \<noteq> row_confirmed_hash row) others"

definition row_identity_columns ::
  "SubmissionRow \<Rightarrow> bytes \<times> string \<times> bytes \<times> string \<times> int \<times> int option \<times> bytes option" where
  "row_identity_columns row =
     (row_wallet_id row, row_network row, row_round_id row, row_kind row, row_bundle_index row,
      row_proposal_id row, row_batch_digest row)"

definition insert_row ::
  "('d, 'ev) domain_ops \<Rightarrow> 'd voting_db \<Rightarrow> SubmissionRow \<Rightarrow> SqlError + 'd voting_db" where
  "insert_row ops db row =
     (if row_checks row
         \<and> list_all (\<lambda>r. row_key r \<noteq> row_key row
              \<and> row_identity_columns r \<noteq> row_identity_columns row) (submissions db)
         \<and> candidate_unique row (submissions db)
         \<and> confirmed_hash_unique row (submissions db)
         \<and> ops_round_exists ops (domain db) (row_round_id row) (row_wallet_id row)
      then Inr (db\<lparr>submissions := submissions db @ [row]\<rparr>)
      else Inl ConstraintViolation)"

text \<open>The triggers on updates: the reservation count and a set tracking start never change back.\<close>

definition update_triggers :: "SubmissionRow \<Rightarrow> SubmissionRow \<Rightarrow> bool" where
  "update_triggers old new \<longleftrightarrow>
     row_reservations new \<ge> row_reservations old
     \<and> (row_tracking_started_at old = None
        \<or> row_tracking_started_at new = row_tracking_started_at old)"

definition replace_row :: "SubmissionRow \<Rightarrow> SubmissionRow list \<Rightarrow> SubmissionRow list" where
  "replace_row new rows = map (\<lambda>row. if row_key row = row_key new then new else row) rows"

definition update_row ::
  "'d voting_db \<Rightarrow> bytes \<Rightarrow> (SubmissionRow \<Rightarrow> SqlError + SubmissionRow) \<Rightarrow> SqlError + 'd voting_db" where
  "update_row db key set_columns =
     (case find_row key (submissions db) of
        None \<Rightarrow> Inr db
      | Some old \<Rightarrow> and_then (set_columns old) (\<lambda>new.
          let others = filter (\<lambda>row. row_key row \<noteq> key) (submissions db) in
          if row_checks new \<and> update_triggers old new
             \<and> candidate_unique new others \<and> confirmed_hash_unique new others
          then Inr (db\<lparr>submissions := replace_row new (submissions db)\<rparr>)
          else Inl ConstraintViolation))"

definition delete_row :: "'d voting_db \<Rightarrow> bytes \<Rightarrow> 'd voting_db" where
  "delete_row db key = db\<lparr>submissions := filter (\<lambda>row. row_key row \<noteq> key) (submissions db)\<rparr>"

section \<open>Writing rows\<close>

fun target_columns :: "ChainSubmissionTarget \<Rightarrow> string \<times> int option \<times> bytes option" where
  "target_columns Delegation = (''delegation'', None, None)"
| "target_columns (Vote pid) = (''vote'', Some (int (unat pid)), None)"
| "target_columns (VoteBatch digest) = (''vote_batch'', None, Some digest)"
| "target_columns (DelegateAndVoteBatch digest) =
     (''delegate_and_cast_vote_batch'', None, Some digest)"

definition fresh_row :: "StoredChainSubmission \<Rightarrow> SqlError + SubmissionRow" where
  "fresh_row record =
     (let i = stored_identity record; (kind, proposal, batch) = target_columns (target i) in
      and_then (sql_u64 (committed_post_reservations record)) (\<lambda>attempts.
      and_then (sql_u64 (created_at record)) (\<lambda>created.
        Inr \<lparr>row_key = submission_identity_key i, row_round_id = vote_round_id i,
             row_wallet_id = wallet_id i, row_network = network_name (network i),
             row_bundle_index = int (unat (bundle_index i)), row_kind = kind,
             row_proposal_id = proposal, row_batch_digest = batch,
             row_generation_digest = stored_digest record, row_state = ''submitting'',
             row_candidate = None, row_reservations = attempts, row_tracking_started_at = None,
             row_diagnostic_kind = None, row_diagnostic = None, row_source = None,
             row_confirmed_hash = None, row_final_van = None, row_positions = None,
             row_created_at = created, row_updated_at = created\<rparr>)))"

definition insert_fresh ::
  "('d, 'ev) domain_ops \<Rightarrow> 'd voting_db \<Rightarrow> StoredChainSubmission
   \<Rightarrow> ChainSubmissionFailure + 'd voting_db" where
  "insert_fresh ops db record =
     map_err (storage_error ops) (and_then (fresh_row record) (insert_row ops db))"

definition imported_row ::
  "StoredChainSubmission \<Rightarrow> CandidateTransactionHash \<Rightarrow> SqlError + SubmissionRow" where
  "imported_row record candidate =
     (let i = stored_identity record in
      and_then (sql_u64 (created_at record)) (\<lambda>created.
        Inr \<lparr>row_key = submission_identity_key i, row_round_id = vote_round_id i,
             row_wallet_id = wallet_id i, row_network = network_name (network i),
             row_bundle_index = int (unat (bundle_index i)), row_kind = ''delegation'',
             row_proposal_id = None, row_batch_digest = None,
             row_generation_digest = stored_digest record, row_state = ''tracking'',
             row_candidate = Some candidate, row_reservations = 0,
             row_tracking_started_at = Some created,
             row_diagnostic_kind = None, row_diagnostic = None, row_source = None,
             row_confirmed_hash = None, row_final_van = None, row_positions = None,
             row_created_at = created, row_updated_at = created\<rparr>))"

definition insert_imported_delegation ::
  "('d, 'ev) domain_ops \<Rightarrow> 'd voting_db \<Rightarrow> StoredChainSubmission \<Rightarrow> CandidateTransactionHash
   \<Rightarrow> ChainSubmissionFailure + 'd voting_db" where
  "insert_imported_delegation ops db record candidate =
     map_err (storage_error ops) (and_then (imported_row record candidate) (insert_row ops db))"

fun state_columns ::
  "SubmissionRecordState \<Rightarrow> ChainSubmissionDiagnostic option
   \<Rightarrow> string \<times> bytes option \<times> ChainSubmissionDiagnostic option \<times> ChainSubmissionConfirmation option" where
  "state_columns Submitting _ = (''submitting'', None, None, None)"
| "state_columns (Tracking h) diagnostic = (''tracking'', Some h, diagnostic, None)"
| "state_columns (Recovering h d) _ = (''recovering'', h, Some d, None)"
| "state_columns (SubmittedWithoutHash d) _ = (''submitted_without_hash'', None, Some d, None)"
| "state_columns (Confirmed c) _ =
     (''confirmed'', conf_transaction_hash (confirmation c), None, Some (confirmation c))"
| "state_columns (Rejected d) _ = (''rejected'', None, Some d, None)"

fun source_name :: "ChainSubmissionConfirmationSource \<Rightarrow> string" where
  "source_name SourceHash = ''hash''"
| "source_name SourceTree = ''tree''"

definition mutable_columns ::
  "StoredChainSubmission \<Rightarrow> SubmissionRow \<Rightarrow> SqlError + SubmissionRow" where
  "mutable_columns record row =
     (let (state, candidate, diagnostic, confirmed) =
            state_columns (stored_state record) (stored_diagnostic record) in
      and_then (sql_u64 (committed_post_reservations record)) (\<lambda>attempts.
      and_then (sql_option_u64 (tracking_started_at record)) (\<lambda>tracking.
      and_then (sql_option_u64 (map_option final_van_position confirmed)) (\<lambda>final_van.
      and_then (sql_u64 (updated_at record)) (\<lambda>updated.
        Inr (row\<lparr>row_state := state, row_candidate := candidate, row_reservations := attempts,
             row_tracking_started_at := tracking,
             row_diagnostic_kind := map_option (\<lambda>d. diagnostic_kind_as_str (diag_kind d)) diagnostic,
             row_diagnostic := map_option diag_message diagnostic,
             row_source := map_option (\<lambda>c. source_name (conf_source c)) confirmed,
             row_confirmed_hash := Option.bind confirmed conf_transaction_hash,
             row_final_van := final_van,
             row_positions :=
               map_option (\<lambda>c. encode_positions (vote_commitment_positions c)) confirmed,
             row_updated_at := updated\<rparr>))))))"

definition persist_mutable ::
  "('d, 'ev) domain_ops \<Rightarrow> 'd voting_db \<Rightarrow> StoredChainSubmission
   \<Rightarrow> ChainSubmissionFailure + 'd voting_db" where
  "persist_mutable ops db record =
     map_err (storage_error ops)
       (update_row db (submission_identity_key (stored_identity record)) (mutable_columns record))"

definition normalize_abandoned ::
  "('d, 'ev) domain_ops \<Rightarrow> 'd voting_db \<Rightarrow> StoredChainSubmission \<Rightarrow> u64
   \<Rightarrow> ChainSubmissionFailure + StoredChainSubmission \<times> 'd voting_db" where
  "normalize_abandoned ops db record now =
     and_then
       (map_err (\<lambda>error. possible_dispatch_error
                   (transition_failure StateSubmitting (transition_error_text error)))
          (apply_submission_observation (Some (stored_state record))
             (AbandonedSubmitting abandoned_diagnostic))) (\<lambda>applied.
     and_then
       (ok_or (possible_dispatch_error (transition_failure StateSubmitting
                 (lit ''abandoned reservation normalization removed the durable row''))) applied)
       (\<lambda>state.
     let updated = record\<lparr>stored_state := state,
           stored_diagnostic := (case state of Recovering _ d \<Rightarrow> Some d | _ \<Rightarrow> None),
           updated_at := max now (updated_at record)\<rparr>
     in and_then (map_err possible_dispatch_error (persist_mutable ops db updated)) (\<lambda>db'.
          Inr (updated, db'))))"

section \<open>Admission\<close>

definition same_bundle :: "ChainSubmissionIdentity \<Rightarrow> SubmissionRow \<Rightarrow> bool" where
  "same_bundle i row \<longleftrightarrow>
     row_wallet_id row = wallet_id i \<and> row_network row = network_name (network i)
     \<and> row_round_id row = vote_round_id i \<and> row_bundle_index row = int (unat (bundle_index i))"

definition unresolved_predecessor :: "'d voting_db \<Rightarrow> ChainSubmissionIdentity \<Rightarrow> bool" where
  "unresolved_predecessor db i =
     list_ex (\<lambda>row. same_bundle i row
        \<and> row_state row \<in> {''submitting'', ''tracking'', ''recovering'', ''submitted_without_hash''})
       (submissions db)"

definition confirmed_successor :: "'d voting_db \<Rightarrow> ChainSubmissionIdentity \<Rightarrow> bool" where
  "confirmed_successor db i =
     list_ex (\<lambda>row. same_bundle i row
        \<and> row_kind row \<in> {''vote'', ''vote_batch'', ''delegate_and_cast_vote_batch''}
        \<and> row_state row = ''confirmed'')
       (submissions db)"

definition combined_bundle_occupied ::
  "('d, 'ev) domain_ops \<Rightarrow> 'd voting_db \<Rightarrow> ChainSubmissionIdentity
   \<Rightarrow> ChainSubmissionFailure + bool" where
  "combined_bundle_occupied ops db i =
     (case ops_bundle_delegated ops (domain db) i of
        None \<Rightarrow> Inl (storage_error ops QueryReturnedNoRows)
      | Some delegated \<Rightarrow> Inr (delegated \<or> list_ex (\<lambda>row.
            row_round_id row = vote_round_id i \<and> row_wallet_id row = wallet_id i
            \<and> row_bundle_index row = int (unat (bundle_index i))) (submissions db)))"

definition hash_owned :: "CandidateTransactionHash \<Rightarrow> SubmissionRow \<Rightarrow> bool" where
  "hash_owned candidate row \<longleftrightarrow>
     row_candidate row = Some candidate \<or> row_confirmed_hash row = Some candidate"

text \<open>The gates a submission without a row passes before anything is reserved.\<close>

definition fresh_admission_gates ::
  "('d, 'ev) domain_ops \<Rightarrow> 'd voting_db \<Rightarrow> ChainSubmissionIdentity \<Rightarrow> ChainSubmissionFailure + unit" where
  "fresh_admission_gates ops db i =
     and_then (if is_combined (target i)
               then and_then (combined_bundle_occupied ops db i) (\<lambda>occupied.
                      ensure (\<not> occupied) (without_state InvalidInput
                        (lit ''combined admission requires a fresh delegation'')))
               else Inr ()) (\<lambda>_.
     and_then (ensure (\<not> (target i = Delegation \<and> ops_combined_recovery ops (domain db) i))
                (without_state InvalidInput
                  (lit ''persisted combined recovery owns this delegation''))) (\<lambda>_.
     and_then (ensure (\<not> unresolved_predecessor db i)
                (without_state InvalidInput
                  (lit ''another submission for this bundle has not established an authoritative successor''))) (\<lambda>_.
     ensure (\<not> (target i = Delegation \<and> confirmed_successor db i))
       (without_state InvalidInput
         (lit ''a confirmed vote already succeeds this bundle's delegation'')))))"

definition adopt_imported ::
  "('d, 'ev) domain_ops \<Rightarrow> 'd voting_db \<Rightarrow> StoreAdvancementRequest \<Rightarrow> u64
   \<Rightarrow> ChainSubmissionFailure + StoreAdmission \<times> 'd voting_db" where
  "adopt_imported ops db request now =
     and_then (derive ops db (derivation request)) (\<lambda>derived.
     and_then (ok_or (without_state InvariantViolation
                 (lit ''imported delegation derivation omitted its transaction hash''))
                (imported_candidate derived)) (\<lambda>candidate.
     and_then (ensure (\<not> list_ex (hash_owned candidate) (submissions db))
                (without_state InvalidInput
                  (lit ''imported delegation transaction hash belongs to another submission''))) (\<lambda>_.
     let record = adopted_imported_delegation (derived_generation derived) candidate now in
     and_then (insert_imported_delegation ops db record candidate) (\<lambda>db'.
       Inr (Ready derived record False, db')))))"

definition reserve_fresh ::
  "('d, 'ev) domain_ops \<Rightarrow> 'd voting_db \<Rightarrow> StoreAdvancementRequest
   \<Rightarrow> DerivedChainSubmission option \<Rightarrow> u64 \<Rightarrow> u64
   \<Rightarrow> ChainSubmissionFailure + StoreAdmission \<times> 'd voting_db" where
  "reserve_fresh ops db request batch_derived ordinal now =
     and_then (case batch_derived of
                 Some derived \<Rightarrow> Inr derived
               | None \<Rightarrow> derive ops db (derivation request)) (\<lambda>derived.
     and_then (verify_batch_roster request (ordered_proposal_ids (bound derived))) (\<lambda>_.
     let record = fresh_record (derived_generation derived) ordinal now in
     and_then (insert_fresh ops db record) (\<lambda>db'.
       Inr (Ready derived record True, db'))))"

definition admit_existing ::
  "('d, 'ev) domain_ops \<Rightarrow> 'd voting_db \<Rightarrow> StoreAdvancementRequest
   \<Rightarrow> DerivedChainSubmission option \<Rightarrow> StoredChainSubmission
   \<Rightarrow> ChainSubmissionFailure + StoreAdmission \<times> 'd voting_db" where
  "admit_existing ops db request batch_derived record =
     and_then (case batch_derived of
                 Some derived \<Rightarrow> Inr derived
               | None \<Rightarrow> map_err (\<lambda>error. preserve_loaded_state error (Some record))
                           (derive ops db (derivation request))) (\<lambda>derived.
     and_then (map_err (\<lambda>error. preserve_loaded_state error (Some record))
                (verify_batch_roster request (ordered_proposal_ids (bound derived)))) (\<lambda>_.
     and_then (ensure_generation record (derived_generation derived)) (\<lambda>_.
       Inr (if is_terminal (stored_state record) then Authoritative record
            else Ready derived record False, db))))"

definition derive_batch ::
  "('d, 'ev) domain_ops \<Rightarrow> 'd voting_db \<Rightarrow> StoreAdvancementRequest \<Rightarrow> StoredChainSubmission option
   \<Rightarrow> ChainSubmissionFailure + DerivedChainSubmission option" where
  "derive_batch ops db request existing =
     (if is_batch request then
        and_then (map_err (\<lambda>error. preserve_loaded_state error existing)
                   (derive ops db (derivation request))) (\<lambda>derived.
        and_then (map_err (\<lambda>error. preserve_loaded_state error existing)
                   (verify_batch_roster request (ordered_proposal_ids (bound derived)))) (\<lambda>_.
          Inr (Some derived)))
      else Inr None)"

text \<open>
  The body of \<open>admit\<close>; the flag reports that an interrupted reservation was being normalized,
  which decides how a failure of the transaction is reported.
\<close>

definition admit_body ::
  "('d, 'ev) domain_ops \<Rightarrow> StoreAdvancementRequest \<Rightarrow> bool \<Rightarrow> u64 \<Rightarrow> u64 \<Rightarrow> 'd voting_db
   \<Rightarrow> bool \<times> (ChainSubmissionFailure + StoreAdmission \<times> 'd voting_db)" where
  "admit_body ops request work_allowed ordinal now db =
     (case load_submission ops db (request_identity request) of
        Inl e \<Rightarrow> (False, Inl e)
      | Inr existing \<Rightarrow>
          (if \<not> work_allowed then
             (case existing of
                None \<Rightarrow> (False, Inr (NoAuthoritativeState, db))
              | Some record \<Rightarrow>
                  if stored_state record = Submitting
                  then (True, and_then (normalize_abandoned ops db record now) (\<lambda>(updated, db').
                          Inr (Authoritative updated, db')))
                  else (False, Inr (Authoritative record, db)))
           else
             (case existing of
                Some record \<Rightarrow>
                  if stored_state record = Submitting
                  then (True, and_then (normalize_abandoned ops db record now) (\<lambda>(updated, db').
                          Inr (AbandonedReservation updated, db')))
                  else (False, and_then (derive_batch ops db request existing) (\<lambda>batch_derived.
                          admit_existing ops db request batch_derived record))
              | None \<Rightarrow>
                  (False, and_then (derive_batch ops db request existing) (\<lambda>batch_derived.
                     and_then (fresh_admission_gates ops db (request_identity request)) (\<lambda>_.
                       if is_imported_delegation request
                       then adopt_imported ops db request now
                       else reserve_fresh ops db request batch_derived ordinal now))))))"

definition admit ::
  "('d, 'ev) domain_ops \<Rightarrow> sql_faults \<Rightarrow> StoreAdvancementRequest \<Rightarrow> bool \<Rightarrow> u64 \<Rightarrow> u64
   \<Rightarrow> 'd voting_db \<Rightarrow> (ChainSubmissionFailure + StoreAdmission) \<times> 'd voting_db" where
  "admit ops faults request work_allowed ordinal now db =
     (case validate_target request of
        Inl e \<Rightarrow> (Inl e, db)
      | Inr _ \<Rightarrow>
          let normalizes = begin_fault faults = None
                \<and> fst (admit_body ops request work_allowed ordinal now db);
              (result, db') = transact ops faults db
                (\<lambda>db. snd (admit_body ops request work_allowed ordinal now db))
          in (map_err (\<lambda>error. if normalizes then possible_dispatch_error error else error) result,
              db'))"

section \<open>Transitions of an admitted row\<close>

definition missing_row :: "string \<Rightarrow> ChainSubmissionFailure" where
  "missing_row message = without_state InvariantViolation (lit message)"

definition load_generation ::
  "('d, 'ev) domain_ops \<Rightarrow> 'd voting_db \<Rightarrow> ChainSubmissionIdentity \<Rightarrow> string
   \<Rightarrow> ChainSubmissionFailure + StoredChainSubmission" where
  "load_generation ops db i message =
     and_then (load_submission ops db i) (\<lambda>loaded. ok_or (missing_row message) loaded)"

definition remove_fresh_reservation ::
  "('d, 'ev) domain_ops \<Rightarrow> sql_faults \<Rightarrow> ChainSubmissionGeneration \<Rightarrow> 'd voting_db
   \<Rightarrow> (ChainSubmissionFailure + unit) \<times> 'd voting_db" where
  "remove_fresh_reservation ops faults gen db =
     transact ops faults db (\<lambda>db.
       and_then (load_generation ops db (gen_identity gen) ''fresh reservation disappeared'') (\<lambda>record.
       and_then (ensure_generation record gen) (\<lambda>_.
       and_then (ensure (stored_state record = Submitting)
                  (with_durable_state InvariantViolation (record_durable_state record)
                    (lit ''only a fresh Submitting reservation can be removed''))) (\<lambda>_.
         Inr ((), delete_row db (submission_identity_key (gen_identity gen)))))))"

definition collision_diagnostic :: ChainSubmissionDiagnostic where
  "collision_diagnostic = from_redacted_message InvalidProtocolResponse
     (lit ''vote-chain returned a transaction hash owned by another semantic generation'')"

definition owned_elsewhere ::
  "'d voting_db \<Rightarrow> ChainSubmissionIdentity \<Rightarrow> CandidateTransactionHash \<Rightarrow> bool" where
  "owned_elsewhere db i candidate =
     list_ex (\<lambda>row. row_key row \<noteq> submission_identity_key i \<and> hash_owned candidate row)
       (submissions db)"

definition effective_observation ::
  "'d voting_db \<Rightarrow> ChainSubmissionIdentity \<Rightarrow> SubmissionObservation \<Rightarrow> SubmissionObservation" where
  "effective_observation db i observation =
     (case observation of
        UsableCandidateHash candidate \<Rightarrow>
          if owned_elsewhere db i candidate then PossiblyDispatched collision_diagnostic
          else UsableCandidateHash candidate
      | _ \<Rightarrow> observation)"

definition apply_observation_body ::
  "('d, 'ev) domain_ops \<Rightarrow> ChainSubmissionGeneration \<Rightarrow> SubmissionObservation
   \<Rightarrow> ChainSubmissionDiagnostic option \<Rightarrow> u64 \<Rightarrow> 'd voting_db
   \<Rightarrow> ChainSubmissionFailure + StoredChainSubmission \<times> 'd voting_db" where
  "apply_observation_body ops gen observation diagnostic now db =
     and_then (load_generation ops db (gen_identity gen)
                 ''submission disappeared during lifecycle transition'') (\<lambda>record.
     and_then (ensure_generation record gen) (\<lambda>_.
     let previous = record_durable_state record in
     and_then (map_err (\<lambda>error. transition_failure previous (transition_error_text error))
                (apply_submission_observation (Some (stored_state record))
                   (effective_observation db (gen_identity gen) observation))) (\<lambda>applied.
     and_then (ok_or (transition_failure previous
                       (lit ''transition unexpectedly removed durable row'')) applied) (\<lambda>state.
     let settled = settle_after_transition previous diagnostic now (record\<lparr>stored_state := state\<rparr>) in
     if retires_combined_generation settled previous then
       and_then (ok_or (transition_failure previous (lit ''a rejected row carries its diagnostic''))
                   (stored_diagnostic settled)) (\<lambda>d.
       and_then (map_err map_generation_error
                  (ops_retire_combined ops (domain db) (gen_identity gen) d (updated_at settled)))
         (\<lambda>domain'.
         Inr (settled, delete_row (db\<lparr>domain := domain'\<rparr>)
                         (submission_identity_key (gen_identity gen)))))
     else
       and_then (persist_mutable ops db settled) (\<lambda>db'. Inr (settled, db'))))))"

definition apply_observation ::
  "('d, 'ev) domain_ops \<Rightarrow> sql_faults \<Rightarrow> ChainSubmissionGeneration \<Rightarrow> SubmissionObservation
   \<Rightarrow> ChainSubmissionDiagnostic option \<Rightarrow> u64 \<Rightarrow> 'd voting_db
   \<Rightarrow> (ChainSubmissionFailure + StoredChainSubmission) \<times> 'd voting_db" where
  "apply_observation ops faults gen observation diagnostic now db =
     transact ops faults db (apply_observation_body ops gen observation diagnostic now)"

definition classify_post ::
  "('d, 'ev) domain_ops \<Rightarrow> sql_faults \<Rightarrow> ChainSubmissionGeneration \<Rightarrow> SubmissionObservation
   \<Rightarrow> u64 \<Rightarrow> 'd voting_db \<Rightarrow> (ChainSubmissionFailure + StoredChainSubmission) \<times> 'd voting_db" where
  "classify_post ops faults gen observation now db =
     apply_observation ops faults gen observation None now db"

definition reconcile ::
  "('d, 'ev) domain_ops \<Rightarrow> sql_faults \<Rightarrow> ChainSubmissionGeneration \<Rightarrow> SubmissionObservation
   \<Rightarrow> ChainSubmissionDiagnostic option \<Rightarrow> u64 \<Rightarrow> 'd voting_db
   \<Rightarrow> (ChainSubmissionFailure + StoredChainSubmission) \<times> 'd voting_db" where
  "reconcile ops faults gen observation diagnostic now db =
     apply_observation ops faults gen observation diagnostic now db"

text \<open>\<open>checked_add(1)\<close> filtered to the range of a SQLite integer.\<close>

definition next_reservation :: "u64 \<Rightarrow> u64 option" where
  "next_reservation n =
     (if unat n + 1 < 2 ^ 64 \<and> unat n + 1 \<le> 2 ^ 63 - 1 then Some (n + 1) else None)"

definition reserve_ambiguous_retry_body ::
  "('d, 'ev) domain_ops \<Rightarrow> ChainSubmissionGeneration \<Rightarrow> u64 \<Rightarrow> 'd voting_db
   \<Rightarrow> ChainSubmissionFailure + StoredChainSubmission \<times> 'd voting_db" where
  "reserve_ambiguous_retry_body ops gen now db =
     and_then (load_generation ops db (gen_identity gen)
                 ''submission disappeared before ambiguous retry reservation'') (\<lambda>record.
     and_then (ensure_generation record gen) (\<lambda>_.
     and_then (ensure (permits_ambiguous_retry (stored_state record))
                (with_durable_state InvariantViolation (record_durable_state record)
                  (lit ''ambiguous retry requires a hashless possibly-dispatched recovery row''))) (\<lambda>_.
     and_then (ok_or (with_durable_state InvariantViolation StateRecovering
                       (lit ''submission reservation counter overflowed''))
                (next_reservation (committed_post_reservations record))) (\<lambda>reservations.
     let reserved = record\<lparr>committed_post_reservations := reservations,
           updated_at := max now (updated_at record)\<rparr>
     in and_then (persist_mutable ops db reserved) (\<lambda>db'. Inr (reserved, db'))))))"

definition reserve_ambiguous_retry ::
  "('d, 'ev) domain_ops \<Rightarrow> sql_faults \<Rightarrow> ChainSubmissionGeneration \<Rightarrow> u64 \<Rightarrow> 'd voting_db
   \<Rightarrow> (ChainSubmissionFailure + StoredChainSubmission) \<times> 'd voting_db" where
  "reserve_ambiguous_retry ops faults gen now db =
     transact ops faults db (reserve_ambiguous_retry_body ops gen now)"

section \<open>Confirmation\<close>

text \<open>
  The common end of both confirmations: the transition to \<open>Confirmed\<close>, the projection onto the
  domain tables and the row.  The source unwraps the transition's result; a confirmation never
  removes a row (\<open>confirmed_not_removed\<close> below).
\<close>

definition commit_confirmation ::
  "('d, 'ev) domain_ops \<Rightarrow> 'd voting_db \<Rightarrow> StoredChainSubmission \<Rightarrow> DerivedChainSubmission
   \<Rightarrow> ValidatedChainSubmissionConfirmation \<Rightarrow> u64
   \<Rightarrow> ChainSubmissionFailure + ConfirmationCommit \<times> 'd voting_db" where
  "commit_confirmation ops db record derived validated now =
     (let previous = record_durable_state record in
      and_then (map_err (\<lambda>error. transition_failure previous (transition_error_text error))
                 (apply_submission_observation (Some (stored_state record))
                    (ObservedConfirmed validated))) (\<lambda>applied.
      let confirmed = record\<lparr>stored_state := the applied, stored_diagnostic := None,
            updated_at := max now (updated_at record)\<rparr> in
      and_then (map_err map_generation_error
                 (ops_apply_confirmed ops (domain db) (bound derived) validated)) (\<lambda>domain'.
      and_then (persist_mutable ops (db\<lparr>domain := domain'\<rparr>) confirmed) (\<lambda>db'.
        Inr (CommitConfirmed confirmed, db')))))"

definition confirm_committed_body ::
  "('d, 'ev) domain_ops \<Rightarrow> StoreAdvancementRequest \<Rightarrow> ChainSubmissionGeneration
   \<Rightarrow> CandidateTransactionHash \<Rightarrow> 'ev \<Rightarrow> bool \<Rightarrow> u64 \<Rightarrow> 'd voting_db
   \<Rightarrow> ChainSubmissionFailure + ConfirmationCommit \<times> 'd voting_db" where
  "confirm_committed_body ops request expected candidate events commit_allowed now db =
     and_then (load_generation ops db (gen_identity expected)
                 ''submission disappeared before confirmation'') (\<lambda>record.
     and_then (ensure_generation record expected) (\<lambda>_.
     and_then (map_err (\<lambda>error. preserve_loaded_state error (Some record))
                (derive ops db (derivation request))) (\<lambda>derived.
     and_then (ensure (derived_generation derived = expected)
                (with_durable_state InvalidInput (record_durable_state record)
                  (lit ''semantic generation changed before confirmation''))) (\<lambda>_.
     if \<not> commit_allowed then Inr (CommitInterrupted record, db)
     else
       and_then (map_err (\<lambda>error. with_durable_state Protocol (record_durable_state record)
                            (case error of VotingInvalidInput m \<Rightarrow> m | VotingOtherError m \<Rightarrow> m))
                  (ops_validate_confirmation ops (is_imported_delegation request) derived candidate
                     events)) (\<lambda>validated.
       commit_confirmation ops db record derived validated now)))))"

definition confirm_committed ::
  "('d, 'ev) domain_ops \<Rightarrow> sql_faults \<Rightarrow> StoreAdvancementRequest \<Rightarrow> ChainSubmissionGeneration
   \<Rightarrow> CandidateTransactionHash \<Rightarrow> 'ev \<Rightarrow> bool \<Rightarrow> u64 \<Rightarrow> 'd voting_db
   \<Rightarrow> (ChainSubmissionFailure + ConfirmationCommit) \<times> 'd voting_db" where
  "confirm_committed ops faults request expected candidate events commit_allowed now db =
     transact ops faults db
       (confirm_committed_body ops request expected candidate events commit_allowed now)"

definition confirm_tree_body ::
  "('d, 'ev) domain_ops \<Rightarrow> StoreAdvancementRequest \<Rightarrow> ChainSubmissionGeneration
   \<Rightarrow> u64 \<Rightarrow> u64 list \<Rightarrow> bool \<Rightarrow> u64 \<Rightarrow> 'd voting_db
   \<Rightarrow> ChainSubmissionFailure + ConfirmationCommit \<times> 'd voting_db" where
  "confirm_tree_body ops request expected van vcs commit_allowed now db =
     and_then (load_generation ops db (gen_identity expected)
                 ''submission disappeared before tree confirmation'') (\<lambda>record.
     and_then (ensure_generation record expected) (\<lambda>_.
     and_then (map_err (\<lambda>error. preserve_loaded_state error (Some record))
                (derive ops db (derivation request))) (\<lambda>derived.
     and_then (map_err (\<lambda>error. preserve_loaded_state error (Some record))
                (verify_batch_roster request (ordered_proposal_ids (bound derived)))) (\<lambda>_.
     and_then (ensure (derived_generation derived = expected)
                (with_durable_state InvalidInput (record_durable_state record)
                  (lit ''semantic generation changed before tree confirmation''))) (\<lambda>_.
     if \<not> commit_allowed then Inr (CommitInterrupted record, db)
     else
       and_then (map_err (\<lambda>_. with_durable_state Protocol (record_durable_state record)
                   (lit ''chain tree positions must be below the commitment-tree capacity''))
                  (confirmation_from_tree van vcs)) (\<lambda>validated.
       commit_confirmation ops db record derived validated now))))))"

definition confirm_tree ::
  "('d, 'ev) domain_ops \<Rightarrow> sql_faults \<Rightarrow> StoreAdvancementRequest \<Rightarrow> ChainSubmissionGeneration
   \<Rightarrow> u64 \<Rightarrow> u64 list \<Rightarrow> bool \<Rightarrow> u64 \<Rightarrow> 'd voting_db
   \<Rightarrow> (ChainSubmissionFailure + ConfirmationCommit) \<times> 'd voting_db" where
  "confirm_tree ops faults request expected van vcs commit_allowed now db =
     transact ops faults db (confirm_tree_body ops request expected van vcs commit_allowed now)"

section \<open>Retry after a complete no-match scan\<close>

text \<open>The private authorization of \<open>recovery.rs\<close>, with what the store reads of it.\<close>

record RecoveryRetryAuthorization =
  auth_identity :: ChainSubmissionIdentity
  auth_digest :: GenerationDigest
  auth_candidate :: "CandidateTransactionHash option"

fun recovering_with :: "CandidateTransactionHash option \<Rightarrow> SubmissionRecordState \<Rightarrow> bool" where
  "recovering_with candidate (Recovering h _) = (h = candidate)"
| "recovering_with _ _ = False"

fun without_candidate :: "SubmissionRecordState \<Rightarrow> SubmissionRecordState" where
  "without_candidate (Recovering _ d) = Recovering None d"
| "without_candidate s = s"

definition reserve_recovery_retry_body ::
  "('d, 'ev) domain_ops \<Rightarrow> StoreAdvancementRequest \<Rightarrow> RecoveryRetryAuthorization \<Rightarrow> u64
   \<Rightarrow> 'd voting_db \<Rightarrow> ChainSubmissionFailure + StoredChainSubmission \<times> 'd voting_db" where
  "reserve_recovery_retry_body ops request authorization now db =
     and_then (ensure (request_identity request = auth_identity authorization)
                (without_state InvalidInput
                  (lit ''recovery request does not match its authorization identity''))) (\<lambda>_.
     and_then (load_generation ops db (auth_identity authorization)
                 ''submission disappeared before recovery retry reservation'') (\<lambda>record.
     and_then (ensure (stored_digest record = auth_digest authorization)
                (with_durable_state InvalidInput (record_durable_state record)
                  (lit ''recovery authorization belongs to a different generation''))) (\<lambda>_.
     and_then (map_err (\<lambda>error. preserve_loaded_state error (Some record))
                (derive ops db (derivation request))) (\<lambda>derived.
     and_then (map_err (\<lambda>error. preserve_loaded_state error (Some record))
                (verify_batch_roster request (ordered_proposal_ids (bound derived)))) (\<lambda>_.
     and_then (ensure_generation record (derived_generation derived)) (\<lambda>_.
     and_then (ensure (recovering_with (auth_candidate authorization) (stored_state record))
                (with_durable_state InvariantViolation (record_durable_state record)
                  (lit ''recovery authorization no longer matches durable state''))) (\<lambda>_.
     and_then (ok_or (with_durable_state InvariantViolation StateRecovering
                       (lit ''recovery reservation counter overflowed''))
                (next_reservation (committed_post_reservations record))) (\<lambda>reservations.
     let reserved = record\<lparr>committed_post_reservations := reservations,
           stored_state := without_candidate (stored_state record),
           updated_at := max now (updated_at record)\<rparr>
     in and_then (persist_mutable ops db reserved) (\<lambda>db'. Inr (reserved, db'))))))))))"

definition reserve_recovery_retry ::
  "('d, 'ev) domain_ops \<Rightarrow> sql_faults \<Rightarrow> StoreAdvancementRequest \<Rightarrow> RecoveryRetryAuthorization
   \<Rightarrow> u64 \<Rightarrow> 'd voting_db \<Rightarrow> (ChainSubmissionFailure + StoredChainSubmission) \<times> 'd voting_db" where
  "reserve_recovery_retry ops faults request authorization now db =
     transact ops faults db (reserve_recovery_retry_body ops request authorization now)"

end
