(* ===== verification/Submission_Table.thy ===== *)
theory Submission_Table
  imports Submission_Sqlite
begin

text \<open>
  The submission table as a table of typed records.  \<open>row_of\<close> is the row that stands for a record;
  \<open>db_rep\<close> relates a database to the list of records it holds.  The codec lemmas show that the
  store reads back what it wrote up to the diagnostic text (\<open>reload\<close>), that the rows of
  well-formed records satisfy the schema, and how an insertion, an update and a deletion act on
  the records.
\<close>

section \<open>Commitment positions\<close>

lemma chunks_exact_u64_Nil [simp]: "chunks_exact_u64 [] = []"
  by (simp add: chunks_exact_u64.simps)

lemma chunks_exact_u64_append:
  "length c = 8 \<Longrightarrow> chunks_exact_u64 (c @ bs) = of_nat (be_nat c) # chunks_exact_u64 bs"
  by (subst chunks_exact_u64.simps) simp

lemma chunks_exact_u64_concat: "chunks_exact_u64 (concat (map be_u64 ps)) = ps"
  by (induction ps) (simp_all add: chunks_exact_u64_append)

lemma be_u64_of_nat_be_nat: "length c = 8 \<Longrightarrow> be_u64 (of_nat (be_nat c)) = c"
  using be_nat_less [of c] be_bytes_be_nat [of c] by (simp add: be_u64_def unat_of_nat)

lemma concat_chunks_exact_u64:
  "length bs = n * 8 \<Longrightarrow>
   concat (map be_u64 (chunks_exact_u64 bs)) = bs \<and> length (chunks_exact_u64 bs) = n"
proof (induction n arbitrary: bs)
  case (Suc n)
  then obtain c rest where "bs = c @ rest" "length c = 8" "length rest = n * 8"
    by (metis add_diff_cancel_left' append_take_drop_id length_drop length_take min_absorb2
        mult_Suc le_add1)
  with Suc.IH [of rest] show ?case
    by (simp add: chunks_exact_u64_append be_u64_of_nat_be_nat)
qed simp

lemma length_concat_be_u64 [simp]: "length (concat (map be_u64 ps)) = length ps * 8"
  by (induction ps) simp_all

lemma decode_positions_eq_Inr:
  "decode_positions e = Inr ps \<longleftrightarrow> length ps < 2 ^ 32 \<and> e = encode_positions ps"
proof
  assume decoded: "decode_positions e = Inr ps"
  then have len: "5 \<le> length e" and tag: "e ! 0 = 1"
    by (auto simp add: decode_positions_def Let_def split: if_splits)
  then obtain xs where e: "e = 1 # xs"
    by (cases e) auto
  define n where "n = be_nat (take 4 xs)"
  have lenxs: "length xs = 4 + n * 8" and ps: "ps = chunks_exact_u64 (drop 4 xs)"
    using decoded len by (auto simp add: decode_positions_def Let_def e n_def split: if_splits)
  have "concat (map be_u64 ps) = drop 4 xs" "length ps = n"
    using concat_chunks_exact_u64 [of "drop 4 xs" n] lenxs by (simp_all add: ps)
  moreover have "n < 2 ^ 32" "be_bytes 4 n = take 4 xs"
    using be_nat_less [of "take 4 xs"] be_bytes_be_nat [of "take 4 xs"] lenxs
    by (simp_all add: n_def min_absorb2)
  ultimately show "length ps < 2 ^ 32 \<and> e = encode_positions ps"
    by (simp add: e encode_positions_def be_u32_def unat_of_nat)
next
  assume "length ps < 2 ^ 32 \<and> e = encode_positions ps"
  then show "decode_positions e = Inr ps"
    by (simp add: decode_positions_def encode_positions_def Let_def unat_of_nat
        chunks_exact_u64_concat)
qed

section \<open>Records and their rows\<close>

definition wf_hash :: "bytes option \<Rightarrow> bool" where
  "wf_hash h \<longleftrightarrow> (case h of None \<Rightarrow> True | Some b \<Rightarrow> length b = 32)"

definition wf_diagnostic :: "ChainSubmissionDiagnostic \<Rightarrow> bool" where
  "wf_diagnostic d \<longleftrightarrow> length (diag_message d) \<le> 512"

fun wf_state :: "SubmissionRecordState \<Rightarrow> bool" where
  "wf_state Submitting = True"
| "wf_state (Tracking h) = (length h = 32)"
| "wf_state (Recovering h d) = (wf_hash h \<and> wf_diagnostic d)"
| "wf_state (SubmittedWithoutHash d) = wf_diagnostic d"
| "wf_state (Confirmed c) =
     (wf_confirmation c \<and> wf_hash (conf_transaction_hash (confirmation c))
      \<and> length (vote_commitment_positions (confirmation c)) < 2 ^ 32)"
| "wf_state (Rejected d) = wf_diagnostic d"

definition state_name :: "StoredChainSubmission \<Rightarrow> string" where
  "state_name r = fst (state_columns (stored_state r) (stored_diagnostic r))"

definition record_candidate :: "StoredChainSubmission \<Rightarrow> bytes option" where
  "record_candidate r = fst (snd (state_columns (stored_state r) (stored_diagnostic r)))"

definition record_diagnostic :: "StoredChainSubmission \<Rightarrow> ChainSubmissionDiagnostic option" where
  "record_diagnostic r = fst (snd (snd (state_columns (stored_state r) (stored_diagnostic r))))"

definition record_confirmation :: "StoredChainSubmission \<Rightarrow> ChainSubmissionConfirmation option" where
  "record_confirmation r = snd (snd (snd (state_columns (stored_state r) (stored_diagnostic r))))"

lemmas record_columns = state_name_def record_candidate_def record_diagnostic_def
  record_confirmation_def

definition row_of :: "StoredChainSubmission \<Rightarrow> SubmissionRow" where
  "row_of r =
     (let i = stored_identity r; (kind, proposal, batch) = target_columns (target i) in
      \<lparr>row_key = submission_identity_key i, row_round_id = vote_round_id i,
       row_wallet_id = wallet_id i, row_network = network_name (network i),
       row_bundle_index = int (unat (bundle_index i)), row_kind = kind,
       row_proposal_id = proposal, row_batch_digest = batch,
       row_generation_digest = stored_digest r, row_state = state_name r,
       row_candidate = record_candidate r,
       row_reservations = int (unat (committed_post_reservations r)),
       row_tracking_started_at = map_option (\<lambda>t. int (unat t)) (tracking_started_at r),
       row_diagnostic_kind =
         map_option (\<lambda>d. diagnostic_kind_as_str (diag_kind d)) (record_diagnostic r),
       row_diagnostic = map_option diag_message (record_diagnostic r),
       row_source = map_option (\<lambda>c. source_name (conf_source c)) (record_confirmation r),
       row_confirmed_hash = Option.bind (record_confirmation r) conf_transaction_hash,
       row_final_van = map_option (\<lambda>c. int (unat (final_van_position c))) (record_confirmation r),
       row_positions =
         map_option (\<lambda>c. encode_positions (vote_commitment_positions c)) (record_confirmation r),
       row_created_at = int (unat (created_at r)), row_updated_at = int (unat (updated_at r))\<rparr>)"

definition in_sql_range :: "StoredChainSubmission \<Rightarrow> bool" where
  "in_sql_range r \<longleftrightarrow>
     unat (committed_post_reservations r) < 2 ^ 63 \<and> unat (updated_at r) < 2 ^ 63
     \<and> (case tracking_started_at r of None \<Rightarrow> True | Some t \<Rightarrow> unat t < 2 ^ 63)"

text \<open>
  The records the lifecycle builds: everything but the range of a SQLite integer, which the store
  checks when it writes.
\<close>

definition wf_record :: "StoredChainSubmission \<Rightarrow> bool" where
  "wf_record r \<longleftrightarrow>
     wf_identity (stored_identity r) \<and> length (stored_digest r) = 32 \<and> wf_state (stored_state r)
     \<and> (case stored_diagnostic r of None \<Rightarrow> True | Some d \<Rightarrow> wf_diagnostic d)
     \<and> (stored_state r = Submitting \<longrightarrow> tracking_started_at r = None)
     \<and> (is_tracking (stored_state r) \<longrightarrow> tracking_started_at r \<noteq> None)
     \<and> created_at r \<le> updated_at r"

text \<open>What a reader gets: the stored message passes the redaction escape a second time.\<close>

definition reload_diagnostic :: "ChainSubmissionDiagnostic \<Rightarrow> ChainSubmissionDiagnostic" where
  "reload_diagnostic d = from_redacted_message (diag_kind d) (lit (diag_message d))"

fun reload_state :: "SubmissionRecordState \<Rightarrow> SubmissionRecordState" where
  "reload_state (Recovering h d) = Recovering h (reload_diagnostic d)"
| "reload_state (SubmittedWithoutHash d) = SubmittedWithoutHash (reload_diagnostic d)"
| "reload_state (Rejected d) = Rejected (reload_diagnostic d)"
| "reload_state s = s"

definition reload :: "StoredChainSubmission \<Rightarrow> StoredChainSubmission" where
  "reload r = r\<lparr>stored_state := reload_state (stored_state r),
               stored_diagnostic := map_option reload_diagnostic (record_diagnostic r)\<rparr>"

lemma row_of_fields [simp]:
  "row_key (row_of r) = submission_identity_key (stored_identity r)"
  "row_round_id (row_of r) = vote_round_id (stored_identity r)"
  "row_wallet_id (row_of r) = wallet_id (stored_identity r)"
  "row_network (row_of r) = network_name (network (stored_identity r))"
  "row_bundle_index (row_of r) = int (unat (bundle_index (stored_identity r)))"
  "row_kind (row_of r) = fst (target_columns (target (stored_identity r)))"
  "row_proposal_id (row_of r) = fst (snd (target_columns (target (stored_identity r))))"
  "row_batch_digest (row_of r) = snd (snd (target_columns (target (stored_identity r))))"
  "row_generation_digest (row_of r) = stored_digest r"
  "row_state (row_of r) = state_name r"
  "row_candidate (row_of r) = record_candidate r"
  "row_reservations (row_of r) = int (unat (committed_post_reservations r))"
  "row_tracking_started_at (row_of r) = map_option (\<lambda>t. int (unat t)) (tracking_started_at r)"
  "row_diagnostic_kind (row_of r) =
     map_option (\<lambda>d. diagnostic_kind_as_str (diag_kind d)) (record_diagnostic r)"
  "row_diagnostic (row_of r) = map_option diag_message (record_diagnostic r)"
  "row_source (row_of r) = map_option (\<lambda>c. source_name (conf_source c)) (record_confirmation r)"
  "row_confirmed_hash (row_of r) = Option.bind (record_confirmation r) conf_transaction_hash"
  "row_final_van (row_of r) =
     map_option (\<lambda>c. int (unat (final_van_position c))) (record_confirmation r)"
  "row_positions (row_of r) =
     map_option (\<lambda>c. encode_positions (vote_commitment_positions c)) (record_confirmation r)"
  "row_created_at (row_of r) = int (unat (created_at r))"
  "row_updated_at (row_of r) = int (unat (updated_at r))"
  by (simp_all add: row_of_def Let_def split: prod.splits)

lemma reload_fields [simp]:
  "stored_identity (reload r) = stored_identity r"
  "stored_digest (reload r) = stored_digest r"
  "stored_state (reload r) = reload_state (stored_state r)"
  "committed_post_reservations (reload r) = committed_post_reservations r"
  "tracking_started_at (reload r) = tracking_started_at r"
  "stored_diagnostic (reload r) = map_option reload_diagnostic (record_diagnostic r)"
  "created_at (reload r) = created_at r"
  "updated_at (reload r) = updated_at r"
  by (simp_all add: reload_def)

lemma reload_state_simps [simp]:
  "durable_state (reload_state s) = durable_state s"
  "is_terminal (reload_state s) = is_terminal s"
  "is_tracking (reload_state s) = is_tracking s"
  "reload_state s = Submitting \<longleftrightarrow> s = Submitting"
  "reload_state s = Tracking h \<longleftrightarrow> s = Tracking h"
  "reload_state s = Confirmed c \<longleftrightarrow> s = Confirmed c"
  "candidate_of (Some (reload_state s)) = candidate_of (Some s)"
  by (cases s; simp)+

lemma wf_reload_diagnostic [simp]: "wf_diagnostic (reload_diagnostic d)"
  by (simp add: wf_diagnostic_def reload_diagnostic_def from_redacted_message_def
      length_bounded_redacted_text)

lemma reload_diagnostic_plain:
  "\<lbrakk>list_all plain_char (diag_message d); wf_diagnostic d\<rbrakk> \<Longrightarrow> reload_diagnostic d = d"
  by (simp add: reload_diagnostic_def from_redacted_message_def bounded_redacted_text_plain
      wf_diagnostic_def)

lemma wf_state_reload [simp]: "wf_state s \<Longrightarrow> wf_state (reload_state s)"
  by (cases s) simp_all

lemma wf_record_reload: "wf_record r \<Longrightarrow> wf_record (reload r)"
  by (auto simp add: wf_record_def split: option.splits)

section \<open>Reading and writing rows\<close>

lemma u64_try_from_uint [simp]: "u64_try_from (uint w) = Inr w"
  by (simp add: u64_try_from_def)

lemma sql_u64_eq_Inr [simp]: "sql_u64 w = Inr v \<longleftrightarrow> unat w < 2 ^ 63 \<and> v = int (unat w)"
  by (auto simp add: sql_u64_def)

lemma sql_option_u64_eq_Inr [simp]:
  "sql_option_u64 x = Inr v \<longleftrightarrow>
     (case x of None \<Rightarrow> True | Some t \<Rightarrow> unat t < 2 ^ 63) \<and> v = map_option (\<lambda>t. int (unat t)) x"
  by (auto simp add: sql_option_u64_def split: option.splits)

lemma option_bytes32_wf [simp]: "wf_hash h \<Longrightarrow> option_bytes32 h = Inr h"
  by (cases h) (simp_all add: wf_hash_def option_bytes32_def bytes32_def)

lemma load_diagnostic_row_of [simp]:
  "load_diagnostic (row_of r) = Inr (map_option reload_diagnostic (record_diagnostic r))"
  by (cases "record_diagnostic r")
     (simp_all add: load_diagnostic_def parse_diagnostic_kind_def reload_diagnostic_def)

lemma wf_record_candidate: "wf_record r \<Longrightarrow> wf_hash (record_candidate r)"
  by (cases "stored_state r") (auto simp add: wf_record_def record_columns wf_hash_def)

definition confirmation_columns ::
  "ChainSubmissionConfirmation \<Rightarrow> string \<times> u64 \<times> u64 list \<times> CandidateTransactionHash option" where
  "confirmation_columns c =
     (source_name (conf_source c), final_van_position c, vote_commitment_positions c,
      conf_transaction_hash c)"

lemma load_confirmation_row_of:
  "wf_record r \<Longrightarrow>
   load_confirmation (row_of r) = Inr (map_option confirmation_columns (record_confirmation r))"
  by (cases "stored_state r")
     (auto simp add: wf_record_def load_confirmation_def record_columns confirmation_columns_def
       decode_positions_eq_Inr [THEN iffD2])

lemma load_confirmed_columns:
  assumes "wf_confirmation c"
  shows "load_confirmed (Some (confirmation_columns (confirmation c))) = Inr (Confirmed c)"
proof -
  have "validate_tree_positions (final_van_position (confirmation c))
      (vote_commitment_positions (confirmation c)) = Inr ()"
    using assms
    by (cases c) (auto simp add: validate_tree_positions_def not_le list_all_iff list_ex_iff)
  with assms show ?thesis
    by (cases c) (auto simp add: load_confirmed_def confirmation_columns_def
        confirmation_from_hash_def confirmation_from_tree_def)
qed

lemma load_state_row_of:
  "wf_record r \<Longrightarrow>
   load_state (state_name r) (record_candidate r) (map_option reload_diagnostic (record_diagnostic r))
     (map_option confirmation_columns (record_confirmation r)) = Inr (reload_state (stored_state r))"
  by (cases "stored_state r")
     (auto simp add: wf_record_def load_state_def record_columns load_confirmed_columns)

lemma load_one_row_of:
  assumes "wf_record r"
  shows "load_one (stored_identity r) (row_of r) = Inr (reload r)"
proof -
  have digest: "bytes32 (stored_digest r) = Inr (stored_digest r)"
    using assms by (simp add: wf_record_def bytes32_def)
  show ?thesis
    using assms wf_record_candidate [OF assms]
    by (cases "tracking_started_at r")
       (simp_all add: load_one_def load_confirmation_row_of load_state_row_of digest reload_def)
qed

lemma mutable_columns_row_of:
  assumes "stored_identity r' = stored_identity r" "stored_digest r' = stored_digest r"
    and "created_at r' = created_at r" "wf_state (stored_state r')"
  shows "mutable_columns r' (row_of r) = Inr row \<longleftrightarrow> in_sql_range r' \<and> row = row_of r'"
proof -
  obtain s c d f where columns: "state_columns (stored_state r') (stored_diagnostic r') = (s, c, d, f)"
    by (metis prod_cases4)
  have names: "state_name r' = s" "record_candidate r' = c" "record_diagnostic r' = d"
      "record_confirmation r' = f"
    by (simp_all add: record_columns columns)
  have van: "case map_option final_van_position f of None \<Rightarrow> True | Some t \<Rightarrow> unat t < 2 ^ 63"
  proof (cases "stored_state r'")
    case (Confirmed v)
    with assms(4) have "final_van_position (confirmation v) < TREE_CAPACITY"
      by (cases v) simp_all
    with Confirmed columns show ?thesis
      by (auto simp add: word_less_nat_alt unat_TREE_CAPACITY)
  qed (use columns in auto)
  have "(row_of r)\<lparr>row_state := s, row_candidate := c,
      row_reservations := int (unat (committed_post_reservations r')),
      row_tracking_started_at := map_option (\<lambda>t. int (unat t)) (tracking_started_at r'),
      row_diagnostic_kind := map_option (\<lambda>d. diagnostic_kind_as_str (diag_kind d)) d,
      row_diagnostic := map_option diag_message d,
      row_source := map_option (\<lambda>c. source_name (conf_source c)) f,
      row_confirmed_hash := Option.bind f conf_transaction_hash,
      row_final_van := map_option (\<lambda>t. int (unat t)) (map_option final_van_position f),
      row_positions := map_option (\<lambda>c. encode_positions (vote_commitment_positions c)) f,
      row_updated_at := int (unat (updated_at r'))\<rparr> = row_of r'"
    using assms by (simp add: row_of_def Let_def names option.map_comp comp_def split: prod.splits)
  then show ?thesis
    using van by (auto simp add: mutable_columns_def columns in_sql_range_def)
qed

lemma state_name_simps:
  "state_name r = ''confirmed'' \<longleftrightarrow> record_confirmation r \<noteq> None"
  "state_name r = ''submitting'' \<longleftrightarrow> stored_state r = Submitting"
  "state_name r = ''tracking'' \<longleftrightarrow> is_tracking (stored_state r)"
  by (cases "stored_state r"; simp add: record_columns)+

lemma length_submission_identity_key: "wf_identity i \<Longrightarrow> length (submission_identity_key i) \<ge> 32"
  by (simp add: submission_identity_key_def wf_identity_def framed_def)

lemma column_checks_row_of: "wf_record r \<Longrightarrow> column_checks (row_of r)"
proof -
  assume wf: "wf_record r"
  have "unat (created_at r) \<le> unat (updated_at r)" "length (stored_digest r) = 32"
    using wf by (simp_all add: wf_record_def word_le_nat_alt)
  moreover have "network_name n \<in> {''mainnet'', ''testnet'', ''regtest''}" for n
    by (cases n) simp_all
  moreover have "int (unat (bundle_index i)) \<le> 4294967295" for i
    using unsigned_less [of "bundle_index i", where ?'a = nat] by (simp del: of_nat_unat)
  moreover have "fst (target_columns t) \<in> {''delegation'', ''vote'', ''vote_batch'',
      ''delegate_and_cast_vote_batch''}" for t
    by (cases t) simp_all
  moreover have "state_name r \<in> {''submitting'', ''tracking'', ''recovering'',
      ''submitted_without_hash'', ''confirmed'', ''rejected''}"
    by (cases "stored_state r") (simp_all add: state_name_def)
  moreover have "source_name s \<in> {''hash'', ''tree''}" for s
    by (cases s) simp_all
  moreover have "length (submission_identity_key (stored_identity r)) \<ge> 32"
    using wf by (simp add: wf_record_def length_submission_identity_key)
  ultimately show ?thesis
    by (cases "record_confirmation r") (simp_all only: column_checks_def row_of_fields
        option.map option.case of_nat_0_le_iff of_nat_le_iff simp_thms)
qed

lemma target_checks_row_of: "wf_record r \<Longrightarrow> target_checks (row_of r)"
proof -
  assume "wf_record r"
  then have wf: "wf_target (target (stored_identity r))"
    by (simp add: wf_record_def wf_identity_def)
  then have "1 \<le> int (unat pid) \<and> int (unat pid) \<le> 50" if "target (stored_identity r) = Vote pid" for pid
    using that by (simp del: of_nat_unat add: word_le_nat_alt MIN_PROPOSAL_ID_def MAX_PROPOSAL_ID_def)
  with wf show ?thesis
    by (cases "target (stored_identity r)") (simp_all add: target_checks_def)
qed

lemma state_checks_row_of: "wf_record r \<Longrightarrow> state_checks (row_of r)"
  by (cases "stored_state r")
     (auto simp add: state_checks_def wf_record_def record_columns wf_hash_def
       split: option.splits)

lemma evidence_checks_row_of: "wf_record r \<Longrightarrow> evidence_checks (row_of r)"
  by (cases "stored_state r")
     (auto simp add: evidence_checks_def wf_record_def record_columns wf_diagnostic_def
       split: option.splits elim!: wf_confirmation.elims)

lemma row_checks_row_of: "wf_record r \<Longrightarrow> row_checks (row_of r)"
  by (simp add: row_checks_def column_checks_row_of target_checks_row_of state_checks_row_of
      evidence_checks_row_of)

section \<open>Databases as lists of records\<close>

definition lookup_record ::
  "StoredChainSubmission list \<Rightarrow> ChainSubmissionIdentity \<Rightarrow> StoredChainSubmission option" where
  "lookup_record rs i = find (\<lambda>r. stored_identity r = i) rs"

definition replace_record ::
  "StoredChainSubmission \<Rightarrow> StoredChainSubmission list \<Rightarrow> StoredChainSubmission list" where
  "replace_record r rs = map (\<lambda>s. if stored_identity s = stored_identity r then r else s) rs"

definition remove_record ::
  "ChainSubmissionIdentity \<Rightarrow> StoredChainSubmission list \<Rightarrow> StoredChainSubmission list" where
  "remove_record i rs = filter (\<lambda>r. stored_identity r \<noteq> i) rs"

text \<open>No other record has the record's candidate hash.\<close>

definition candidate_free :: "StoredChainSubmission \<Rightarrow> StoredChainSubmission list \<Rightarrow> bool" where
  "candidate_free r rs \<longleftrightarrow>
     record_candidate r = None
     \<or> (\<forall>s \<in> set rs. stored_identity s \<noteq> stored_identity r \<longrightarrow>
          record_candidate s \<noteq> record_candidate r)"

definition wf_records :: "StoredChainSubmission list \<Rightarrow> bool" where
  "wf_records rs \<longleftrightarrow>
     (\<forall>r \<in> set rs. wf_record r \<and> in_sql_range r \<and> candidate_free r rs)
     \<and> distinct (map stored_identity rs)"

definition db_rep :: "'d voting_db \<Rightarrow> StoredChainSubmission list \<Rightarrow> bool" where
  "db_rep db rs \<longleftrightarrow> submissions db = map row_of rs \<and> wf_records rs"

lemma lookup_record_Some:
  "lookup_record rs i = Some r \<Longrightarrow> r \<in> set rs \<and> stored_identity r = i"
  by (auto simp add: lookup_record_def dest: find_Some_iff_in)

lemma lookup_record_None: "lookup_record rs i = None \<longleftrightarrow> i \<notin> stored_identity ` set rs"
  by (auto simp add: lookup_record_def find_None_iff)

lemma lookup_record_in:
  "\<lbrakk>wf_records rs; r \<in> set rs\<rbrakk> \<Longrightarrow> lookup_record rs (stored_identity r) = Some r"
  by (simp add: lookup_record_def wf_records_def distinct_map_find)

lemma lookup_record_append:
  "lookup_record (rs @ [r]) i =
     (case lookup_record rs i of None \<Rightarrow> if stored_identity r = i then Some r else None
      | Some s \<Rightarrow> Some s)"
  by (induction rs) (simp_all add: lookup_record_def)

lemma lookup_replace_record:
  "lookup_record (replace_record r rs) i =
     (if i = stored_identity r \<and> lookup_record rs i \<noteq> None then Some r else lookup_record rs i)"
  by (induction rs) (auto simp add: lookup_record_def replace_record_def)

lemma lookup_remove_record:
  "lookup_record (remove_record j rs) i = (if i = j then None else lookup_record rs i)"
  by (induction rs) (auto simp add: lookup_record_def remove_record_def)

lemma find_row_rep:
  assumes "wf_records rs" "wf_identity i"
  shows "find_row (submission_identity_key i) (map row_of rs) = map_option row_of (lookup_record rs i)"
proof -
  have "list_all (\<lambda>r. wf_identity (stored_identity r)) rs"
    using assms(1) by (simp add: wf_records_def wf_record_def list_all_iff)
  then show ?thesis
    using assms(2)
    by (induction rs)
       (auto simp add: find_row_def lookup_record_def submission_identity_key_eq_iff)
qed

lemma load_submission_rep:
  assumes "db_rep db rs" "wf_identity i"
  shows "load_submission ops db i = Inr (map_option reload (lookup_record rs i))"
proof (cases "lookup_record rs i")
  case None
  with assms show ?thesis
    by (simp add: load_submission_def db_rep_def find_row_rep)
next
  case (Some r)
  with assms have "wf_record r" "stored_identity r = i"
    by (auto simp add: db_rep_def wf_records_def dest: lookup_record_Some)
  with assms Some load_one_row_of [of r] show ?thesis
    by (simp add: load_submission_def db_rep_def find_row_rep)
qed

lemma db_rep_domain [simp]: "db_rep (db\<lparr>domain := d\<rparr>) rs = db_rep db rs"
  by (simp add: db_rep_def)

subsection \<open>Deletion, insertion and update\<close>

lemma wf_records_remove: "wf_records rs \<Longrightarrow> wf_records (remove_record i rs)"
  by (auto simp add: wf_records_def remove_record_def candidate_free_def distinct_map_filter)

lemma delete_row_rep:
  assumes "db_rep db rs" "wf_identity i"
  shows "db_rep (delete_row db (submission_identity_key i)) (remove_record i rs)"
proof -
  have "submission_identity_key (stored_identity r) = submission_identity_key i \<longleftrightarrow>
      stored_identity r = i" if "r \<in> set rs" for r
    using that assms by (auto simp add: db_rep_def wf_records_def wf_record_def
        submission_identity_key_eq_iff)
  then have "filter (\<lambda>row. row_key row \<noteq> submission_identity_key i) (map row_of rs)
      = map row_of (remove_record i rs)"
    by (simp add: remove_record_def filter_map comp_def cong: filter_cong)
  with assms show ?thesis
    by (simp add: db_rep_def delete_row_def wf_records_remove)
qed

lemma row_confirmed_hash_candidate:
  "\<lbrakk>wf_record r; row_confirmed_hash (row_of r) = Some h\<rbrakk> \<Longrightarrow> record_candidate r = Some h"
  by (cases "stored_state r") (auto simp add: record_columns)

lemma candidate_unique_rep:
  assumes "stored_identity r \<notin> stored_identity ` set rs"
  shows "candidate_unique (row_of r) (map row_of rs) \<longleftrightarrow> candidate_free r rs"
  using assms by (auto simp add: candidate_unique_def candidate_free_def list_all_iff image_iff)

lemma confirmed_hash_unique_rep:
  assumes "wf_records rs" "wf_record r" "stored_identity r \<notin> stored_identity ` set rs"
    and "candidate_free r rs"
  shows "confirmed_hash_unique (row_of r) (map row_of rs)"
proof (cases "row_confirmed_hash (row_of r)")
  case (Some h)
  have "row_confirmed_hash (row_of s) \<noteq> Some h" if "s \<in> set rs" for s
  proof
    assume "row_confirmed_hash (row_of s) = Some h"
    with that assms(1) have "record_candidate s = Some h"
      by (intro row_confirmed_hash_candidate) (auto simp add: wf_records_def)
    moreover have "record_candidate r = Some h"
      using assms(2) Some by (rule row_confirmed_hash_candidate)
    ultimately show False
      using assms(3,4) that by (auto simp add: candidate_free_def image_iff)
  qed
  with Some show ?thesis
    by (simp add: confirmed_hash_unique_def list_all_iff)
qed (simp add: confirmed_hash_unique_def)

lemma wf_records_append:
  assumes "wf_records rs" "wf_record r" "in_sql_range r" "candidate_free r rs"
    and "stored_identity r \<notin> stored_identity ` set rs"
  shows "wf_records (rs @ [r])"
  using assms by (fastforce simp add: wf_records_def candidate_free_def)

lemma insert_row_rep:
  assumes "db_rep db rs" "wf_record r" "in_sql_range r" "insert_row ops db (row_of r) = Inr db'"
  shows "db_rep db' (rs @ [r])" "lookup_record rs (stored_identity r) = None"
    "db' = db\<lparr>submissions := submissions db @ [row_of r]\<rparr>"
proof -
  have inserted: "list_all (\<lambda>row. row_key row \<noteq> row_key (row_of r)) (map row_of rs)"
      "candidate_unique (row_of r) (map row_of rs)"
    and db': "db' = db\<lparr>submissions := map row_of rs @ [row_of r]\<rparr>"
    using assms by (auto simp add: insert_row_def db_rep_def list_all_iff split: if_splits)
  then have fresh: "stored_identity r \<notin> stored_identity ` set rs"
    by (auto simp add: list_all_iff)
  with inserted assms show "db_rep db' (rs @ [r])"
    by (simp add: db' db_rep_def wf_records_append candidate_unique_rep)
  show "lookup_record rs (stored_identity r) = None"
    using fresh by (simp add: lookup_record_None)
  show "db' = db\<lparr>submissions := submissions db @ [row_of r]\<rparr>"
    using db' assms(1) by (simp add: db_rep_def)
qed

text \<open>What an update keeps: the generation, its age, and the two columns under triggers.\<close>

definition same_generation :: "StoredChainSubmission \<Rightarrow> StoredChainSubmission \<Rightarrow> bool" where
  "same_generation r r' \<longleftrightarrow>
     stored_identity r' = stored_identity r \<and> stored_digest r' = stored_digest r
     \<and> created_at r' = created_at r \<and> updated_at r \<le> updated_at r'
     \<and> committed_post_reservations r \<le> committed_post_reservations r'
     \<and> (tracking_started_at r \<noteq> None \<longrightarrow> tracking_started_at r' = tracking_started_at r)"

lemma update_triggers_row_of: "same_generation r r' \<Longrightarrow> update_triggers (row_of r) (row_of r')"
  by (auto simp add: same_generation_def update_triggers_def word_le_def)

lemma replace_row_rep:
  assumes "wf_records rs" "wf_identity (stored_identity r')"
  shows "replace_row (row_of r') (map row_of rs) = map row_of (replace_record r' rs)"
    and "filter (\<lambda>row. row_key row \<noteq> submission_identity_key (stored_identity r')) (map row_of rs)
         = map row_of (remove_record (stored_identity r') rs)"
proof -
  have "submission_identity_key (stored_identity s) = submission_identity_key (stored_identity r')
      \<longleftrightarrow> stored_identity s = stored_identity r'" if "s \<in> set rs" for s
    using that assms by (auto simp add: wf_records_def wf_record_def submission_identity_key_eq_iff)
  then show "replace_row (row_of r') (map row_of rs) = map row_of (replace_record r' rs)"
    "filter (\<lambda>row. row_key row \<noteq> submission_identity_key (stored_identity r')) (map row_of rs)
         = map row_of (remove_record (stored_identity r') rs)"
    by (simp_all add: replace_row_def replace_record_def remove_record_def filter_map comp_def
        cong: filter_cong)
qed

lemma candidate_free_remove:
  "candidate_free r (remove_record (stored_identity r) rs) = candidate_free r rs"
  by (auto simp add: candidate_free_def remove_record_def)

lemma wf_records_replace:
  assumes "wf_records rs" "wf_record r" "in_sql_range r" "candidate_free r rs"
  shows "wf_records (replace_record r rs)"
proof -
  have "map stored_identity (replace_record r rs) = map stored_identity rs"
    by (simp add: replace_record_def)
  moreover have "wf_record s \<and> in_sql_range s \<and> candidate_free s (replace_record r rs)"
    if s: "s \<in> set (replace_record r rs)" for s
  proof (cases "s = r")
    case True
    with assms show ?thesis
      by (auto simp add: candidate_free_def replace_record_def)
  next
    case False
    with s have "s \<in> set rs" "stored_identity s \<noteq> stored_identity r"
      by (auto simp add: replace_record_def split: if_splits)
    with assms show ?thesis
      by (auto simp add: candidate_free_def replace_record_def wf_records_def)
  qed
  ultimately show ?thesis
    using assms(1) by (simp add: wf_records_def)
qed

lemma persist_mutable_rep:
  assumes rep: "db_rep db rs" and r: "lookup_record rs (stored_identity r') = Some r"
    and kept: "same_generation r r'" and wf: "wf_record r'"
  shows "persist_mutable ops db r' = Inr db' \<longleftrightarrow>
     in_sql_range r' \<and> candidate_free r' rs
     \<and> db' = db\<lparr>submissions := map row_of (replace_record r' rs)\<rparr>"
proof -
  let ?i = "stored_identity r'"
  have wf_rs: "wf_records rs" and id: "wf_identity ?i" and rows: "submissions db = map row_of rs"
    using rep wf by (simp_all add: db_rep_def wf_record_def)
  have columns: "mutable_columns r' (row_of r) = Inr row \<longleftrightarrow> in_sql_range r' \<and> row = row_of r'" for row
    using kept wf by (intro mutable_columns_row_of) (simp_all add: same_generation_def wf_record_def)
  have fresh: "?i \<notin> stored_identity ` set (remove_record ?i rs)"
    by (auto simp add: remove_record_def)
  have unique: "candidate_unique (row_of r') (map row_of (remove_record ?i rs)) \<longleftrightarrow> candidate_free r' rs"
    using candidate_unique_rep [OF fresh] by (simp add: candidate_free_remove)
  have confirmed: "confirmed_hash_unique (row_of r') (map row_of (remove_record ?i rs))"
    if "candidate_free r' rs"
    using confirmed_hash_unique_rep [OF wf_records_remove [OF wf_rs] wf fresh] that
    by (simp add: candidate_free_remove)
  have "update_row db (submission_identity_key ?i) (mutable_columns r') = Inr db' \<longleftrightarrow>
      in_sql_range r' \<and> candidate_free r' rs
      \<and> db' = db\<lparr>submissions := map row_of (replace_record r' rs)\<rparr>"
    using r row_checks_row_of [OF wf] update_triggers_row_of [OF kept] confirmed
    by (auto simp add: update_row_def rows find_row_rep [OF wf_rs id] columns Let_def
        replace_row_rep [OF wf_rs id] unique)
  then show ?thesis
    by (simp add: persist_mutable_def)
qed

lemma persist_mutable_db_rep:
  assumes "db_rep db rs" "lookup_record rs (stored_identity r') = Some r"
    and "same_generation r r'" "wf_record r'" "persist_mutable ops db r' = Inr db'"
  shows "db_rep db' (replace_record r' rs)"
  using assms persist_mutable_rep [OF assms(1-4), of ops db']
  by (simp add: db_rep_def wf_records_replace)

section \<open>Properties\<close>

text \<open>
  The blob of commitment positions is a canonical encoding: decoding succeeds exactly on the
  encodings of lists of fewer than \<open>2^32\<close> positions and returns that list, so no two blobs stand
  for the same positions and a truncated or extended blob is refused.
\<close>

theorem positions_codec_exact:
  "decode_positions encoded = Inr positions
   \<longleftrightarrow> length positions < 2 ^ 32 \<and> encoded = encode_positions positions"
  by (rule decode_positions_eq_Inr)

text \<open>
  What an update writes is what a later load reads: the updated identity reads the new record
  with its diagnostic escaped once more, which is the record's own state when the message needs no
  escape, and every other identity reads what it read before.
\<close>

theorem persisted_record_reads_back:
  assumes rep: "db_rep db rs" and loaded: "load_submission ops db (stored_identity r') = Inr (Some r)"
    and kept: "same_generation r r'" and wf: "wf_record r'" and i: "wf_identity i"
    and written: "persist_mutable ops db r' = Inr db'"
  shows "load_submission ops db' i =
           (if i = stored_identity r' then Inr (Some (reload r')) else load_submission ops db i)
         \<and> (record_diagnostic r' = Some d \<and> list_all plain_char (diag_message d) \<longrightarrow>
              stored_state (reload r') = stored_state r' \<and> stored_diagnostic (reload r') = Some d)"
proof -
  have id: "wf_identity (stored_identity r')"
    using wf by (simp add: wf_record_def)
  obtain q where q: "lookup_record rs (stored_identity r') = Some q" "r = reload q"
    using loaded by (auto simp add: load_submission_rep [OF rep id])
  then have "same_generation q r'"
    using kept by (simp add: same_generation_def)
  then have rep': "db_rep db' (replace_record r' rs)"
    using persist_mutable_db_rep [OF rep q(1) _ wf written] by simp
  have "wf_diagnostic d" if "record_diagnostic r' = Some d"
    using that wf by (cases "stored_state r'") (auto simp add: record_columns wf_record_def)
  then have "stored_state (reload r') = stored_state r' \<and> stored_diagnostic (reload r') = Some d"
    if "record_diagnostic r' = Some d" "list_all plain_char (diag_message d)"
    using that by (cases "stored_state r'") (auto simp add: record_columns reload_diagnostic_plain)
  with q(1) show ?thesis
    by (auto simp add: load_submission_rep [OF rep i] load_submission_rep [OF rep' i]
        lookup_replace_record)
qed

text \<open>
  A small instance of the domain tables: every derivation is the generation of the requested
  identity with a zero digest, hash evidence confirms at positions 4 and 5, and the projections
  leave the tables alone.
\<close>

definition sample_derived :: "SubmissionDerivationRequest \<Rightarrow> DerivedChainSubmission" where
  "sample_derived request =
     \<lparr>bound = \<lparr>generation = \<lparr>gen_identity = derivation_identity request,
                                gen_digest = replicate 32 0\<rparr>,
               expected_layout = DelegationLayout [], ordered_proposal_ids = []\<rparr>,
      wire_request = VoteRequest []\<rparr>"

definition sample_ops :: "(unit, unit) domain_ops" where
  "sample_ops =
     \<lparr>ops_sql_text = (\<lambda>_. []), ops_round_exists = (\<lambda>_ _ _. True),
      ops_bundle_delegated = (\<lambda>_ _. Some False), ops_combined_recovery = (\<lambda>_ _. False),
      ops_derive = (\<lambda>_ request. Inr (sample_derived request)),
      ops_validate_confirmation = (\<lambda>_ _ h _. map_err (\<lambda>_. VotingInvalidInput [])
        (confirmation_from_hash h 4 [5])),
      ops_apply_confirmed = (\<lambda>d _ _. Inr d), ops_retire_combined = (\<lambda>d _ _ _. Inr d)\<rparr>"

text \<open>A recovering submission with a given diagnostic, alone in its database.\<close>

definition recovering_record :: "ChainSubmissionDiagnostic \<Rightarrow> StoredChainSubmission" where
  "recovering_record d =
     \<lparr>stored_identity = sample_identity, stored_digest = replicate 32 0,
      stored_state = Recovering None d, committed_post_reservations = 1,
      tracking_started_at = None, stored_diagnostic = Some d, created_at = 100, updated_at = 101\<rparr>"

lemma wf_recovering_record:
  "wf_diagnostic d \<Longrightarrow> wf_record (recovering_record d) \<and> in_sql_range (recovering_record d)"
  by (simp add: wf_record_def recovering_record_def in_sql_range_def wf_hash_def)

lemma recovering_record_rep:
  "wf_diagnostic d \<Longrightarrow>
   db_rep \<lparr>submissions = [row_of (recovering_record d)], domain = ()\<rparr> [recovering_record d]"
  using wf_recovering_record [of d]
  by (simp add: db_rep_def wf_records_def candidate_free_def)

lemma sample_diagnostic_plain:
  "wf_diagnostic sample_diagnostic" "list_all plain_char (diag_message sample_diagnostic)"
  "reload_diagnostic sample_diagnostic = sample_diagnostic"
proof -
  have "bounded_redacted_text (lit ''lost'') = ''lost''"
    by (rule bounded_redacted_text_plain) (simp_all add: plain_char_def printable_def)
  then show plain: "list_all plain_char (diag_message sample_diagnostic)"
    and wf: "wf_diagnostic sample_diagnostic"
    by (simp_all add: sample_diagnostic_def from_redacted_message_def wf_diagnostic_def
        plain_char_def printable_def)
  show "reload_diagnostic sample_diagnostic = sample_diagnostic"
    using plain wf by (rule reload_diagnostic_plain)
qed

theorem persisted_record_reads_back_witness:
  "\<exists>db'. persist_mutable sample_ops
      \<lparr>submissions = [row_of (recovering_record sample_diagnostic)], domain = ()\<rparr>
      (recovering_record sample_diagnostic\<lparr>committed_post_reservations := 2\<rparr>) = Inr db'
     \<and> load_submission sample_ops db' sample_identity
         = Inr (Some (recovering_record sample_diagnostic\<lparr>committed_post_reservations := 2\<rparr>))"
proof -
  let ?r = "recovering_record sample_diagnostic"
  let ?r' = "?r\<lparr>committed_post_reservations := 2\<rparr>"
  let ?db = "\<lparr>submissions = [row_of ?r], domain = ()\<rparr>"
  have rep: "db_rep ?db [?r]"
    by (rule recovering_record_rep) (rule sample_diagnostic_plain)
  have wf: "wf_record ?r'" "in_sql_range ?r'"
    using wf_recovering_record [OF sample_diagnostic_plain(1)]
    by (simp_all add: wf_record_def in_sql_range_def)
  have reload: "reload ?r = ?r" "reload ?r' = ?r'"
    by (simp_all add: reload_def recovering_record_def record_columns sample_diagnostic_plain(3))
  have id: "stored_identity ?r = sample_identity" "stored_identity ?r' = sample_identity"
    by (simp_all add: recovering_record_def)
  have kept: "same_generation ?r ?r'"
    by (simp add: same_generation_def recovering_record_def)
  have loaded: "load_submission sample_ops ?db (stored_identity ?r') = Inr (Some ?r)"
    unfolding id(2) by (simp add: load_submission_rep [OF rep wf_sample_identity] lookup_record_def
        id reload)
  have "candidate_free ?r' [?r]"
    by (simp add: candidate_free_def id)
  then obtain db' where written: "persist_mutable sample_ops ?db ?r' = Inr db'"
    using persist_mutable_rep [OF rep _ kept wf(1)] wf(2) by (simp add: lookup_record_def id) blast
  have "record_diagnostic ?r' = Some sample_diagnostic"
    by (simp add: record_columns recovering_record_def)
  with persisted_record_reads_back [OF rep loaded kept wf(1) wf_sample_identity written,
      of sample_diagnostic] written reload(2) show ?thesis
    unfolding id(2) by (simp only: if_True refl) blast
qed


end
