(* ===== verification/Submission_Store_Safety.thy ===== *)
theory Submission_Store_Safety
  imports Submission_Table
begin

text \<open>
  Every operation of the SQLite store, with every fault a transaction can have, refines a step of
  a table of typed records: nothing, one reservation, one lifecycle transition of one record, or
  the removal of a record no dispatch or a combined rejection accounts for.  The properties of
  the store follow by induction over the calls made on it.
\<close>

section \<open>The abstract table\<close>

text \<open>One row of a bundle is unresolved while a later submission could conflict with it.\<close>

fun unresolved :: "SubmissionRecordState \<Rightarrow> bool" where
  "unresolved (Confirmed _) = False"
| "unresolved (Rejected _) = False"
| "unresolved _ = True"

definition bundle_of :: "ChainSubmissionIdentity \<Rightarrow> bytes \<times> Network \<times> bytes \<times> u32" where
  "bundle_of i = (wallet_id i, network i, vote_round_id i, bundle_index i)"

definition record_step :: "StoredChainSubmission \<Rightarrow> StoredChainSubmission \<Rightarrow> bool" where
  "record_step r r' \<longleftrightarrow>
     same_generation r r'
     \<and> lifecycle_edge (Some (durable_state (stored_state r))) (Some (durable_state (stored_state r')))
     \<and> (is_terminal (stored_state r) \<longrightarrow> stored_state r' = stored_state r)"

inductive table_step :: "StoredChainSubmission list \<Rightarrow> StoredChainSubmission list \<Rightarrow> bool" where
  stay: "table_step rs rs"
| reserve: "\<lbrakk>lookup_record rs (stored_identity r) = None;
             \<forall>s \<in> set rs. bundle_of (stored_identity s) = bundle_of (stored_identity r) \<longrightarrow>
               \<not> unresolved (stored_state s);
             stored_state r = Submitting
             \<or> is_tracking (stored_state r) \<and> committed_post_reservations r = 0\<rbrakk>
            \<Longrightarrow> table_step rs (rs @ [r])"
| transition: "\<lbrakk>lookup_record rs (stored_identity r') = Some r; record_step r r'\<rbrakk>
            \<Longrightarrow> table_step rs (replace_record r' rs)"
| remove: "\<lbrakk>lookup_record rs i = Some r; stored_state r = Submitting\<rbrakk>
            \<Longrightarrow> table_step rs (remove_record i rs)"
| retire: "\<lbrakk>lookup_record rs i = Some r; is_combined (target i); \<not> is_terminal (stored_state r)\<rbrakk>
            \<Longrightarrow> table_step rs (remove_record i rs)"

section \<open>Calls on the store\<close>

datatype 'ev store_call =
    CallAdmit sql_faults StoreAdvancementRequest bool u64 u64
  | CallRemoveFresh sql_faults ChainSubmissionGeneration
  | CallClassifyPost sql_faults ChainSubmissionGeneration SubmissionObservation u64
  | CallReconcile sql_faults ChainSubmissionGeneration SubmissionObservation
      "ChainSubmissionDiagnostic option" u64
  | CallReserveAmbiguousRetry sql_faults ChainSubmissionGeneration u64
  | CallConfirmCommitted sql_faults StoreAdvancementRequest ChainSubmissionGeneration
      CandidateTransactionHash 'ev bool u64
  | CallConfirmTree sql_faults StoreAdvancementRequest ChainSubmissionGeneration u64 "u64 list"
      bool u64
  | CallReserveRecoveryRetry sql_faults StoreAdvancementRequest RecoveryRetryAuthorization u64

fun run_call :: "('d, 'ev) domain_ops \<Rightarrow> 'ev store_call \<Rightarrow> 'd voting_db \<Rightarrow> 'd voting_db" where
  "run_call ops (CallAdmit f request allowed ordinal now) db =
     snd (admit ops f request allowed ordinal now db)"
| "run_call ops (CallRemoveFresh f gen) db = snd (remove_fresh_reservation ops f gen db)"
| "run_call ops (CallClassifyPost f gen obs now) db = snd (classify_post ops f gen obs now db)"
| "run_call ops (CallReconcile f gen obs d now) db = snd (reconcile ops f gen obs d now db)"
| "run_call ops (CallReserveAmbiguousRetry f gen now) db =
     snd (reserve_ambiguous_retry ops f gen now db)"
| "run_call ops (CallConfirmCommitted f request gen h events allowed now) db =
     snd (confirm_committed ops f request gen h events allowed now db)"
| "run_call ops (CallConfirmTree f request gen van vcs allowed now) db =
     snd (confirm_tree ops f request gen van vcs allowed now db)"
| "run_call ops (CallReserveRecoveryRetry f request authorization now) db =
     snd (reserve_recovery_retry ops f request authorization now db)"

text \<open>The type invariants of the arguments: private constructors make them hold in the source.\<close>

fun wf_observation :: "SubmissionObservation \<Rightarrow> bool" where
  "wf_observation (UsableCandidateHash h) = (length h = 32)"
| "wf_observation (PossiblyDispatched d) = wf_diagnostic d"
| "wf_observation (DefiniteRejection d) = wf_diagnostic d"
| "wf_observation (TerminalRejection d) = wf_diagnostic d"
| "wf_observation (ObservedSubmittedWithoutHash d) = wf_diagnostic d"
| "wf_observation (ObservedTrackingWindowExpired d) = wf_diagnostic d"
| "wf_observation (CandidateCommittedFailure d) = wf_diagnostic d"
| "wf_observation (TerminalCandidateFailure d) = wf_diagnostic d"
| "wf_observation (ObservedConfirmed c) = wf_state (Confirmed c)"
| "wf_observation (AbandonedSubmitting d) = wf_diagnostic d"
| "wf_observation _ = True"

definition wf_explicit :: "ChainSubmissionDiagnostic option \<Rightarrow> bool" where
  "wf_explicit d \<longleftrightarrow> (case d of None \<Rightarrow> True | Some x \<Rightarrow> wf_diagnostic x)"

fun wf_call :: "'ev store_call \<Rightarrow> bool" where
  "wf_call (CallAdmit f request allowed ordinal now) = wf_identity (request_identity request)"
| "wf_call (CallRemoveFresh f gen) = wf_identity (gen_identity gen)"
| "wf_call (CallClassifyPost f gen obs now) =
     (wf_identity (gen_identity gen) \<and> wf_observation obs)"
| "wf_call (CallReconcile f gen obs d now) =
     (wf_identity (gen_identity gen) \<and> wf_observation obs \<and> wf_explicit d)"
| "wf_call (CallReserveAmbiguousRetry f gen now) = wf_identity (gen_identity gen)"
| "wf_call (CallConfirmCommitted f request gen h events allowed now) =
     wf_identity (gen_identity gen)"
| "wf_call (CallConfirmTree f request gen van vcs allowed now) =
     (wf_identity (gen_identity gen) \<and> length vcs < 2 ^ 32)"
| "wf_call (CallReserveRecoveryRetry f request authorization now) =
     wf_identity (auth_identity authorization)"

text \<open>
  What the store relies on of generation derivation and confirmation validation: a derivation
  belongs to the requested identity and carries digests of 32 bytes, and validated evidence is a
  confirmation the record type admits.
\<close>

definition sound_domain :: "('d, 'ev) domain_ops \<Rightarrow> bool" where
  "sound_domain ops \<longleftrightarrow>
     (\<forall>d request derived. ops_derive ops d request = Inr derived \<longrightarrow>
        gen_identity (derived_generation derived) = derivation_identity request
        \<and> length (gen_digest (derived_generation derived)) = 32
        \<and> wf_hash (imported_candidate derived))
     \<and> (\<forall>imported derived h events c.
          ops_validate_confirmation ops imported derived h events = Inr c \<longrightarrow>
          wf_confirmation c
          \<and> length (vote_commitment_positions (confirmation c)) < 2 ^ 32)"

section \<open>Single operations\<close>

definition steps_to :: "StoredChainSubmission list \<Rightarrow> 'd voting_db \<Rightarrow> bool" where
  "steps_to rs db \<longleftrightarrow> (\<exists>rs'. db_rep db rs' \<and> table_step rs rs')"

lemma transact_holds:
  assumes "P db" "\<And>result db'. operation db = Inr (result, db') \<Longrightarrow> P db'"
  shows "P (snd (transact ops faults db operation))"
  using assms by (auto simp add: transact_def split: option.splits sum.splits)

lemma transact_failure:
  "fst (transact ops faults db operation) = Inl e \<Longrightarrow> snd (transact ops faults db operation) = db"
  by (auto simp add: transact_def split: option.splits sum.splits prod.splits)

lemma admit_failure:
  "fst (admit ops faults request allowed ordinal now db) = Inl e \<Longrightarrow>
   snd (admit ops faults request allowed ordinal now db) = db"
  using transact_failure [of ops faults db "\<lambda>db. snd (admit_body ops request allowed ordinal now db)"]
  by (auto simp add: admit_def Let_def map_err_def split: sum.splits prod.splits)

lemma steps_to_stay: "db_rep db rs \<Longrightarrow> steps_to rs db"
  by (auto simp add: steps_to_def intro: table_step.stay)

lemma steps_to_domain [simp]: "steps_to rs (db\<lparr>domain := d\<rparr>) = steps_to rs db"
  by (simp add: steps_to_def)

lemma load_generation_rep:
  assumes "db_rep db rs" "wf_identity i"
  shows "load_generation ops db i message = Inr record \<longleftrightarrow>
     (\<exists>r. lookup_record rs i = Some r \<and> record = reload r)"
  by (auto simp add: load_generation_def load_submission_rep [OF assms])

lemma wf_records_inject:
  "\<lbrakk>wf_records rs; r \<in> set rs; s \<in> set rs; stored_identity r = stored_identity s\<rbrakk> \<Longrightarrow> r = s"
  unfolding wf_records_def distinct_map by (blast dest: inj_onD)

lemma wf_records_candidate_inject:
  assumes "wf_records rs" "r \<in> set rs" "s \<in> set rs"
    and "record_candidate r = Some h" "record_candidate s = Some h"
  shows "r = s"
proof (rule wf_records_inject [OF assms(1-3)])
  have "candidate_free r rs"
    using assms(1,2) by (simp add: wf_records_def)
  then show "stored_identity r = stored_identity s"
    unfolding candidate_free_def assms(4) using assms(3,5) by fastforce
qed

lemma wf_lookup:
  "\<lbrakk>db_rep db rs; lookup_record rs i = Some r\<rbrakk> \<Longrightarrow>
   wf_record r \<and> wf_record (reload r) \<and> stored_identity r = i \<and> r \<in> set rs"
  by (auto simp add: db_rep_def wf_records_def wf_record_reload dest: lookup_record_Some)

lemma same_generation_reload [simp]: "same_generation (reload r) r' = same_generation r r'"
  by (simp add: same_generation_def)

lemma reload_state_Recovering:
  "reload_state s = Recovering h d \<longleftrightarrow> (\<exists>e. s = Recovering h e \<and> d = reload_diagnostic e)"
  by (cases s) auto

lemma persist_steps_to:
  assumes "db_rep db rs" "lookup_record rs i = Some r" "persist_mutable ops db r' = Inr db'"
    and "wf_record r'" "record_step (reload r) r'"
  shows "steps_to rs db'"
proof -
  have step: "record_step r r'"
    using assms(5) by (cases "stored_state r") (auto simp add: record_step_def)
  then have id: "stored_identity r' = i"
    using wf_lookup [OF assms(1,2)] by (simp add: record_step_def same_generation_def)
  then have "table_step rs (replace_record r' rs)"
    using assms(2) step by (intro table_step.transition) simp_all
  moreover have "db_rep db' (replace_record r' rs)"
    using assms step id by (intro persist_mutable_db_rep [of db rs r' r ops]) (simp_all add: record_step_def)
  ultimately show ?thesis
    by (auto simp add: steps_to_def)
qed

subsection \<open>Observations\<close>

lemma apply_state_kept:
  assumes "apply_submission_observation (Some s) obs = Inr (Some t)" "wf_state s" "wf_observation obs"
  shows "wf_state t \<and> t \<noteq> Submitting"
  using assms
  by (cases s) (auto simp add: apply_defs wf_hash_def
      split: SubmissionObservation.splits option.splits if_splits)

lemma apply_terminal_kept:
  "\<lbrakk>is_terminal s; apply_submission_observation (Some s) obs = Inr (Some t)\<rbrakk> \<Longrightarrow> t = s"
  using terminal_step by blast

lemma wf_settle:
  assumes "wf_record r" "wf_state s" "s \<noteq> Submitting" "wf_explicit d"
  shows "wf_record (settle_after_transition p d now (r\<lparr>stored_state := s\<rparr>))"
  using assms
  by (cases s)
     (auto simp add: wf_record_def wf_explicit_def settle_after_transition_tracking_start
       settle_after_transition_diagnostic le_max_iff_disj split: option.splits)

lemma record_step_settle:
  assumes "apply_submission_observation (Some (stored_state r)) obs = Inr (Some s)"
  shows "record_step r (settle_after_transition p d now (r\<lparr>stored_state := s\<rparr>))"
  using apply_edge [OF assms] apply_terminal_kept [OF _ assms]
  by (auto simp add: record_step_def same_generation_def settle_after_transition_tracking_start)

lemma wf_collision_diagnostic [simp]: "wf_diagnostic collision_diagnostic"
  by (simp add: collision_diagnostic_def wf_diagnostic_def from_redacted_message_def
      length_bounded_redacted_text)

lemma wf_abandoned_diagnostic [simp]: "wf_diagnostic abandoned_diagnostic"
  by (simp add: abandoned_diagnostic_def wf_diagnostic_def from_redacted_message_def
      length_bounded_redacted_text)

lemma wf_effective_observation [simp]:
  "wf_observation obs \<Longrightarrow> wf_observation (effective_observation db i obs)"
  by (cases obs) (simp_all add: effective_observation_def)

lemma delete_steps_to:
  assumes "db_rep db rs" "lookup_record rs i = Some r"
    and "stored_state r = Submitting \<or> is_combined (target i) \<and> \<not> is_terminal (stored_state r)"
  shows "steps_to rs (delete_row db (submission_identity_key i))"
proof -
  have "wf_identity i"
    using wf_lookup [OF assms(1,2)] by (auto simp add: wf_record_def)
  with assms show ?thesis
    by (auto simp add: steps_to_def intro: delete_row_rep table_step.remove table_step.retire)
qed

lemma retired_not_terminal:
  assumes "apply_submission_observation (Some s) obs = Inr (Some t)"
    and "is_rejected t" "durable_state s \<noteq> StateRejected"
  shows "\<not> is_terminal s"
  using assms apply_terminal_kept [OF _ assms(1)] by (cases t) auto

lemma apply_observation_steps_to:
  assumes rep: "db_rep db rs" and id: "wf_identity (gen_identity gen)"
    and wf: "wf_observation obs" "wf_explicit d"
  shows "steps_to rs (snd (apply_observation ops faults gen obs d now db))"
  unfolding apply_observation_def
proof (rule transact_holds)
  show "steps_to rs db"
    using rep by (rule steps_to_stay)
next
  fix result db'
  assume "apply_observation_body ops gen obs d now db = Inr (result, db')"
  then obtain r s where r: "lookup_record rs (gen_identity gen) = Some r"
    and step: "apply_submission_observation (Some (stored_state (reload r)))
         (effective_observation db (gen_identity gen) obs) = Inr (Some s)"
    and written: "(let settled = settle_after_transition (record_durable_state (reload r)) d now
           (reload r\<lparr>stored_state := s\<rparr>) in
        retires_combined_generation settled (record_durable_state (reload r))
          \<and> (\<exists>domain'. db' = delete_row (db\<lparr>domain := domain'\<rparr>)
                 (submission_identity_key (gen_identity gen)))
        \<or> persist_mutable ops db settled = Inr db')"
    by (auto simp add: apply_observation_body_def load_generation_rep [OF rep id] Let_def
        split: if_splits)
  let ?settled = "settle_after_transition (record_durable_state (reload r)) d now
    (reload r\<lparr>stored_state := s\<rparr>)"
  have wfr: "wf_record (reload r)"
    using wf_lookup [OF rep r] by blast
  have s: "wf_state s \<and> s \<noteq> Submitting"
    using apply_state_kept [OF step] wfr wf by (simp add: wf_record_def)
  from written show "steps_to rs db'"
    unfolding Let_def
  proof (elim disjE conjE exE)
    fix domain'
    assume retired: "retires_combined_generation ?settled (record_durable_state (reload r))"
      and db': "db' = delete_row (db\<lparr>domain := domain'\<rparr>) (submission_identity_key (gen_identity gen))"
    have "is_combined (target (gen_identity gen))"
      using retired wf_lookup [OF rep r] by (auto simp add: retires_combined_generation_def)
    moreover have "\<not> is_terminal (stored_state (reload r))"
      using retired_not_terminal [OF step] retired by (simp add: retires_combined_generation_def)
    ultimately show ?thesis
      unfolding db' using rep r by (intro delete_steps_to [of _ rs]) auto
  next
    assume "persist_mutable ops db ?settled = Inr db'"
    then show ?thesis
      using rep r wf_settle [OF wfr] record_step_settle [OF step] s wf
      by (intro persist_steps_to [of db rs _ r ops]) auto
  qed
qed

lemma remove_fresh_steps_to:
  assumes rep: "db_rep db rs" and id: "wf_identity (gen_identity gen)"
  shows "steps_to rs (snd (remove_fresh_reservation ops faults gen db))"
  unfolding remove_fresh_reservation_def
  by (rule transact_holds)
     (use rep in \<open>auto simp add: load_generation_rep [OF rep id] intro: steps_to_stay delete_steps_to\<close>)

lemma next_reservation_le: "next_reservation n = Some m \<Longrightarrow> n \<le> m \<and> unat m = unat n + 1"
  by (auto simp add: next_reservation_def word_le_nat_alt unat_word_ariths split: if_splits)

subsection \<open>Retry reservations\<close>

lemma permits_recovering: "permits_ambiguous_retry s \<Longrightarrow> \<exists>d. s = Recovering None d"
  by (cases s rule: permits_ambiguous_retry.cases) auto

lemma reserve_ambiguous_retry_steps_to:
  assumes rep: "db_rep db rs" and id: "wf_identity (gen_identity gen)"
  shows "steps_to rs (snd (reserve_ambiguous_retry ops faults gen now db))"
  unfolding reserve_ambiguous_retry_def
proof (rule transact_holds)
  show "steps_to rs db"
    using rep by (rule steps_to_stay)
next
  fix result db'
  assume "reserve_ambiguous_retry_body ops gen now db = Inr (result, db')"
  then obtain r n where r: "lookup_record rs (gen_identity gen) = Some r"
    and permits: "permits_ambiguous_retry (stored_state (reload r))"
    and n: "next_reservation (committed_post_reservations r) = Some n"
    and written: "persist_mutable ops db (reload r\<lparr>committed_post_reservations := n,
        updated_at := max now (updated_at r)\<rparr>) = Inr db'"
    by (auto simp add: reserve_ambiguous_retry_body_def load_generation_rep [OF rep id] Let_def)
  show "steps_to rs db'"
    using rep r written
  proof (rule persist_steps_to)
    show "wf_record (reload r\<lparr>committed_post_reservations := n, updated_at := max now (updated_at r)\<rparr>)"
      using wf_lookup [OF rep r] by (auto simp add: wf_record_def le_max_iff_disj)
    show "record_step (reload r)
        (reload r\<lparr>committed_post_reservations := n, updated_at := max now (updated_at r)\<rparr>)"
      using next_reservation_le [OF n] permits_recovering [OF permits]
      by (auto simp add: record_step_def same_generation_def reload_state_Recovering)
  qed
qed

lemma recovering_with_eq: "recovering_with h s \<longleftrightarrow> (\<exists>d. s = Recovering h d)"
  by (cases s) auto

lemma reserve_recovery_retry_steps_to:
  assumes rep: "db_rep db rs" and id: "wf_identity (auth_identity authorization)"
  shows "steps_to rs (snd (reserve_recovery_retry ops faults request authorization now db))"
  unfolding reserve_recovery_retry_def
proof (rule transact_holds)
  show "steps_to rs db"
    using rep by (rule steps_to_stay)
next
  fix result db'
  assume "reserve_recovery_retry_body ops request authorization now db = Inr (result, db')"
  then obtain r n d where r: "lookup_record rs (auth_identity authorization) = Some r"
    and state: "stored_state (reload r) = Recovering (auth_candidate authorization) d"
    and n: "next_reservation (committed_post_reservations r) = Some n"
    and written: "persist_mutable ops db (reload r\<lparr>committed_post_reservations := n,
        stored_state := without_candidate (stored_state (reload r)),
        updated_at := max now (updated_at r)\<rparr>) = Inr db'"
    by (auto simp add: reserve_recovery_retry_body_def load_generation_rep [OF rep id] Let_def
        recovering_with_eq)
  show "steps_to rs db'"
    using rep r written
  proof (rule persist_steps_to)
    show "wf_record (reload r\<lparr>committed_post_reservations := n,
        stored_state := without_candidate (stored_state (reload r)),
        updated_at := max now (updated_at r)\<rparr>)"
      using wf_lookup [OF rep r] state
      by (auto simp add: wf_record_def le_max_iff_disj wf_hash_def)
    show "record_step (reload r) (reload r\<lparr>committed_post_reservations := n,
        stored_state := without_candidate (stored_state (reload r)),
        updated_at := max now (updated_at r)\<rparr>)"
      using next_reservation_le [OF n] state by (auto simp add: record_step_def same_generation_def)
  qed
qed

subsection \<open>Confirmation\<close>

lemma confirmed_not_removed:
  "apply_submission_observation (Some s) (ObservedConfirmed c) = Inr applied \<Longrightarrow>
   applied = Some (Confirmed c)"
  by (cases s) (auto simp add: apply_defs split: if_splits)

text \<open>A hash confirmation is accepted for the candidate of the row, whose length is checked.\<close>

lemma confirmed_state_wf:
  assumes "apply_submission_observation (Some s) (ObservedConfirmed c) = Inr applied"
    and "wf_state s" "wf_confirmation c"
    and "length (vote_commitment_positions (confirmation c)) < 2 ^ 32"
  shows "wf_state (Confirmed c)"
  using assms
  by (cases s; cases c)
     (auto simp add: apply_defs wf_hash_def split: if_splits
       elim!: require_valid_recovery_confirmation.elims)

lemma commit_confirmation_steps_to:
  assumes rep: "db_rep db rs" and r: "lookup_record rs i = Some r"
    and wf: "wf_confirmation validated"
      "length (vote_commitment_positions (confirmation validated)) < 2 ^ 32"
    and commit: "commit_confirmation ops db (reload r) derived validated now = Inr (result, db')"
  shows "steps_to rs db'"
proof -
  obtain applied domain' where
    step: "apply_submission_observation (Some (stored_state (reload r))) (ObservedConfirmed validated)
       = Inr applied"
    and written: "persist_mutable ops (db\<lparr>domain := domain'\<rparr>) (reload r\<lparr>stored_state := the applied,
       stored_diagnostic := None, updated_at := max now (updated_at r)\<rparr>) = Inr db'"
    using commit by (auto simp add: commit_confirmation_def Let_def)
  have applied: "applied = Some (Confirmed validated)"
    using step by (rule confirmed_not_removed)
  have wf': "wf_state (Confirmed validated)"
    using confirmed_state_wf [OF step _ wf] wf_lookup [OF rep r] by (simp add: wf_record_def)
  have rep': "db_rep (db\<lparr>domain := domain'\<rparr>) rs"
    using rep by simp
  show ?thesis
    using rep' r written
  proof (rule persist_steps_to)
    show "wf_record (reload r\<lparr>stored_state := the applied, stored_diagnostic := None,
        updated_at := max now (updated_at r)\<rparr>)"
      using wf_lookup [OF rep r] wf' by (auto simp add: wf_record_def le_max_iff_disj applied)
    have edge: "lifecycle_edge (Some (durable_state (stored_state (reload r)))) (Some StateConfirmed)"
      using apply_edge [OF step] by (simp add: applied)
    have "is_terminal (stored_state (reload r)) \<Longrightarrow> stored_state (reload r) = Confirmed validated"
      using apply_terminal_kept [OF _ step [unfolded applied]] by simp
    with edge show "record_step (reload r) (reload r\<lparr>stored_state := the applied,
        stored_diagnostic := None, updated_at := max now (updated_at r)\<rparr>)"
      by (auto simp add: record_step_def same_generation_def applied)
  qed
qed

lemma confirm_committed_steps_to:
  assumes rep: "db_rep db rs" and id: "wf_identity (gen_identity gen)"
    and sound: "sound_domain ops"
  shows "steps_to rs (snd (confirm_committed ops faults request gen h events allowed now db))"
  unfolding confirm_committed_def
proof (rule transact_holds)
  show "steps_to rs db"
    using rep by (rule steps_to_stay)
next
  fix result db'
  assume "confirm_committed_body ops request gen h events allowed now db = Inr (result, db')"
  then obtain r derived where r: "lookup_record rs (gen_identity gen) = Some r"
    and "db' = db \<or> (\<exists>v. ops_validate_confirmation ops (is_imported_delegation request) derived h events
           = Inr v \<and> commit_confirmation ops db (reload r) derived v now = Inr (result, db'))"
    by (auto simp add: confirm_committed_body_def load_generation_rep [OF rep id] split: if_splits)
  moreover have "wf_confirmation v \<and> length (vote_commitment_positions (confirmation v)) < 2 ^ 32"
    if "ops_validate_confirmation ops (is_imported_delegation request) derived h events = Inr v" for v
    using that sound unfolding sound_domain_def by blast
  ultimately show "steps_to rs db'"
    using rep by (auto intro: steps_to_stay commit_confirmation_steps_to)
qed

lemma confirm_tree_steps_to:
  assumes rep: "db_rep db rs" and id: "wf_identity (gen_identity gen)" and vcs: "length vcs < 2 ^ 32"
  shows "steps_to rs (snd (confirm_tree ops faults request gen van vcs allowed now db))"
  unfolding confirm_tree_def
proof (rule transact_holds)
  show "steps_to rs db"
    using rep by (rule steps_to_stay)
next
  fix result db'
  assume "confirm_tree_body ops request gen van vcs allowed now db = Inr (result, db')"
  then obtain r derived where r: "lookup_record rs (gen_identity gen) = Some r"
    and "db' = db \<or> (\<exists>v. confirmation_from_tree van vcs = Inr v
           \<and> commit_confirmation ops db (reload r) derived v now = Inr (result, db'))"
    by (auto simp add: confirm_tree_body_def load_generation_rep [OF rep id] split: if_splits)
  moreover have "wf_confirmation v \<and> length (vote_commitment_positions (confirmation v)) < 2 ^ 32"
    if "confirmation_from_tree van vcs = Inr v" for v
    using that vcs confirmation_from_wf(2) [OF that]
    by (auto simp add: confirmation_from_tree_def)
  ultimately show "steps_to rs db'"
    using rep by (auto intro: steps_to_stay commit_confirmation_steps_to)
qed

subsection \<open>Admission\<close>

lemma normalize_abandoned_steps_to:
  assumes rep: "db_rep db rs" and r: "lookup_record rs i = Some r"
    and normalized: "normalize_abandoned ops db (reload r) now = Inr (result, db')"
  shows "steps_to rs db'"
proof -
  obtain s where
    step: "apply_submission_observation (Some (stored_state (reload r)))
             (AbandonedSubmitting abandoned_diagnostic) = Inr (Some s)"
    and written: "persist_mutable ops db (reload r\<lparr>stored_state := s,
       stored_diagnostic := (case s of Recovering _ d \<Rightarrow> Some d | _ \<Rightarrow> None),
       updated_at := max now (updated_at r)\<rparr>) = Inr db'"
    using normalized by (auto simp add: normalize_abandoned_def Let_def)
  have s: "stored_state (reload r) = Submitting" "s = Recovering None abandoned_diagnostic"
    using step by (auto simp add: apply_defs split: SubmissionRecordState.splits option.splits)
  show ?thesis
    using rep r written
  proof (rule persist_steps_to)
    show "wf_record (reload r\<lparr>stored_state := s,
       stored_diagnostic := (case s of Recovering _ d \<Rightarrow> Some d | _ \<Rightarrow> None),
       updated_at := max now (updated_at r)\<rparr>)"
      using wf_lookup [OF rep r] by (auto simp add: wf_record_def le_max_iff_disj s(2) wf_hash_def)
    show "record_step (reload r) (reload r\<lparr>stored_state := s,
       stored_diagnostic := (case s of Recovering _ d \<Rightarrow> Some d | _ \<Rightarrow> None),
       updated_at := max now (updated_at r)\<rparr>)"
      using s(1) by (auto simp add: record_step_def same_generation_def s(2))
  qed
qed

lemma same_bundle_row_of:
  "same_bundle i (row_of r) \<longleftrightarrow> bundle_of (stored_identity r) = bundle_of i"
  by (auto simp add: same_bundle_def bundle_of_def word_uint_eq_iff)

lemma unresolved_state_name:
  "state_name r \<in> {''submitting'', ''tracking'', ''recovering'', ''submitted_without_hash''}
   \<longleftrightarrow> unresolved (stored_state r)"
  by (cases "stored_state r") (simp_all add: state_name_def)

lemma unresolved_predecessor_rep:
  assumes "db_rep db rs"
  shows "unresolved_predecessor db i \<longleftrightarrow>
     (\<exists>s \<in> set rs. bundle_of (stored_identity s) = bundle_of i \<and> unresolved (stored_state s))"
  using assms unresolved_state_name
  by (simp add: unresolved_predecessor_def db_rep_def list_ex_iff same_bundle_row_of)

lemma fresh_row_row_of:
  assumes "fresh_row r = Inr row" "stored_state r = Submitting" "tracking_started_at r = None"
    and "updated_at r = created_at r"
  shows "row = row_of r \<and> in_sql_range r"
  using assms
  by (auto simp add: fresh_row_def row_of_def Let_def record_columns in_sql_range_def
      split: prod.splits)

lemma imported_row_row_of:
  assumes "imported_row (adopted_imported_delegation gen h now) h = Inr row"
    and "target (gen_identity gen) = Delegation"
  shows "row = row_of (adopted_imported_delegation gen h now)
         \<and> in_sql_range (adopted_imported_delegation gen h now)"
  using assms
  by (auto simp add: imported_row_def row_of_def Let_def record_columns in_sql_range_def
      adopted_imported_delegation_def)

lemma insert_steps_to:
  assumes rep: "db_rep db rs" and wf: "wf_record r" "in_sql_range r"
    and inserted: "insert_row ops db (row_of r) = Inr db'"
    and gate: "\<not> unresolved_predecessor db (stored_identity r)"
    and state: "stored_state r = Submitting
       \<or> is_tracking (stored_state r) \<and> committed_post_reservations r = 0"
  shows "steps_to rs db'"
proof -
  have "table_step rs (rs @ [r])"
    using insert_row_rep(2) [OF rep wf inserted] gate state
    by (intro table_step.reserve) (auto simp add: unresolved_predecessor_rep [OF rep])
  with insert_row_rep(1) [OF rep wf inserted] show ?thesis
    by (auto simp add: steps_to_def)
qed

lemma derive_sound:
  assumes "sound_domain ops" "derive ops db request = Inr derived"
  shows "gen_identity (derived_generation derived) = derivation_identity request"
    and "length (gen_digest (derived_generation derived)) = 32"
    and "wf_hash (imported_candidate derived)"
  using assms unfolding derive_def sound_domain_def map_err_eq_Inr by blast+

lemma adopt_imported_steps_to:
  assumes rep: "db_rep db rs" and id: "wf_identity (request_identity request)"
    and sound: "sound_domain ops" and target: "target (request_identity request) = Delegation"
    and gate: "\<not> unresolved_predecessor db (request_identity request)"
    and adopted: "adopt_imported ops db request now = Inr (result, db')"
  shows "steps_to rs db'"
proof -
  obtain derived h where derived: "derive ops db (derivation request) = Inr derived"
    and h: "imported_candidate derived = Some h"
    and written: "insert_imported_delegation ops db
       (adopted_imported_delegation (derived_generation derived) h now) h = Inr db'"
    using adopted by (auto simp add: adopt_imported_def Let_def)
  let ?r = "adopted_imported_delegation (derived_generation derived) h now"
  have gen: "gen_identity (derived_generation derived) = request_identity request"
    "length (gen_digest (derived_generation derived)) = 32" "length h = 32"
    using derive_sound [OF sound derived] h by (simp_all add: request_identity_def wf_hash_def)
  have row: "insert_row ops db (row_of ?r) = Inr db'" "in_sql_range ?r"
    using written imported_row_row_of [of "derived_generation derived" h now] target gen(1)
    by (auto simp add: insert_imported_delegation_def)
  show ?thesis
    using rep _ row(2) row(1)
  proof (rule insert_steps_to)
    show "wf_record ?r"
      using id gen by (simp add: wf_record_def adopted_imported_delegation_def)
  qed (use gate gen(1) in \<open>simp_all add: adopted_imported_delegation_def\<close>)
qed

lemma reserve_fresh_steps_to:
  assumes rep: "db_rep db rs" and id: "wf_identity (request_identity request)"
    and sound: "sound_domain ops"
    and batch: "case batch_derived of None \<Rightarrow> True
       | Some derived \<Rightarrow> derive ops db (derivation request) = Inr derived"
    and gate: "\<not> unresolved_predecessor db (request_identity request)"
    and reserved: "reserve_fresh ops db request batch_derived ordinal now = Inr (result, db')"
  shows "steps_to rs db'"
proof -
  obtain derived where derived: "derive ops db (derivation request) = Inr derived"
    and written: "insert_fresh ops db (fresh_record (derived_generation derived) ordinal now) = Inr db'"
    using reserved batch by (auto simp add: reserve_fresh_def Let_def split: option.splits)
  let ?r = "fresh_record (derived_generation derived) ordinal now"
  have gen: "gen_identity (derived_generation derived) = request_identity request"
    "length (gen_digest (derived_generation derived)) = 32"
    using derive_sound [OF sound derived] by (simp_all add: request_identity_def)
  have row: "insert_row ops db (row_of ?r) = Inr db'" "in_sql_range ?r"
    using written fresh_row_row_of [of ?r] by (auto simp add: insert_fresh_def fresh_record_def)
  show ?thesis
    using rep _ row(2) row(1)
  proof (rule insert_steps_to)
    show "wf_record ?r"
      using id gen by (simp add: wf_record_def fresh_record_def)
  qed (use gate gen(1) in \<open>simp_all add: fresh_record_def\<close>)
qed

lemma fresh_admission_gates_unresolved:
  "fresh_admission_gates ops db i = Inr () \<Longrightarrow> \<not> unresolved_predecessor db i"
  by (auto simp add: fresh_admission_gates_def)

lemma derive_batch_derived:
  "derive_batch ops db request existing = Inr batch_derived \<Longrightarrow>
   case batch_derived of None \<Rightarrow> True
   | Some derived \<Rightarrow> derive ops db (derivation request) = Inr derived"
  by (auto simp add: derive_batch_def split: if_splits)

lemma admit_existing_db:
  "admit_existing ops db request batch_derived record = Inr (result, db') \<Longrightarrow> db' = db"
  by (auto simp add: admit_existing_def)

lemma imported_target:
  "\<lbrakk>validate_target request = Inr (); is_imported_delegation request\<rbrakk> \<Longrightarrow>
   target (request_identity request) = Delegation"
  by (cases "derivation request"; cases "target (request_identity request)")
     (auto simp add: validate_target_def is_imported_delegation_def)

lemma admit_body_steps_to:
  assumes rep: "db_rep db rs" and id: "wf_identity (request_identity request)"
    and sound: "sound_domain ops" and valid: "validate_target request = Inr ()"
    and body: "snd (admit_body ops request allowed ordinal now db) = Inr (result, db')"
  shows "steps_to rs db'"
proof (cases "lookup_record rs (request_identity request)")
  case None
  then have "load_submission ops db (request_identity request) = Inr None"
    by (simp add: load_submission_rep [OF rep id])
  with body consider "db' = db"
    | batch_derived where "derive_batch ops db request None = Inr batch_derived"
      "fresh_admission_gates ops db (request_identity request) = Inr ()"
      "(if is_imported_delegation request then adopt_imported ops db request now
        else reserve_fresh ops db request batch_derived ordinal now) = Inr (result, db')"
    by (auto simp add: admit_body_def split: if_splits)
  then show ?thesis
  proof cases
    case 1
    then show ?thesis
      using rep by (simp add: steps_to_stay)
  next
    case 2
    have gate: "\<not> unresolved_predecessor db (request_identity request)"
      using 2(2) by (rule fresh_admission_gates_unresolved)
    show ?thesis
    proof (cases "is_imported_delegation request")
      case True
      with 2(3) show ?thesis
        using adopt_imported_steps_to [OF rep id sound imported_target [OF valid True] gate] by simp
    next
      case False
      with 2(3) show ?thesis
        using reserve_fresh_steps_to [OF rep id sound derive_batch_derived [OF 2(1)] gate] by simp
    qed
  qed
next
  case (Some r)
  then have "load_submission ops db (request_identity request) = Inr (Some (reload r))"
    by (simp add: load_submission_rep [OF rep id])
  with body consider "db' = db"
    | updated where "normalize_abandoned ops db (reload r) now = Inr (updated, db')"
    by (auto simp add: admit_body_def split: if_splits dest: admit_existing_db)
  then show ?thesis
    using rep Some by cases (auto intro: steps_to_stay normalize_abandoned_steps_to)
qed

lemma admit_steps_to:
  assumes rep: "db_rep db rs" and id: "wf_identity (request_identity request)"
    and sound: "sound_domain ops"
  shows "steps_to rs (snd (admit ops faults request allowed ordinal now db))"
proof (cases "validate_target request")
  case (Inl e)
  then show ?thesis
    using rep by (simp add: admit_def steps_to_stay)
next
  case (Inr u)
  have "steps_to rs (snd (transact ops faults db
      (\<lambda>db. snd (admit_body ops request allowed ordinal now db))))"
    by (rule transact_holds) (use rep id sound Inr in \<open>auto intro: steps_to_stay admit_body_steps_to\<close>)
  with Inr show ?thesis
    by (auto simp add: admit_def Let_def split: prod.splits)
qed

lemma run_call_steps_to:
  assumes "db_rep db rs" "sound_domain ops" "wf_call call"
  shows "steps_to rs (run_call ops call db)"
  using assms
  by (cases call)
     (auto simp add: classify_post_def reconcile_def wf_explicit_def
       intro: admit_steps_to remove_fresh_steps_to apply_observation_steps_to
         reserve_ambiguous_retry_steps_to confirm_committed_steps_to confirm_tree_steps_to
         reserve_recovery_retry_steps_to)

section \<open>Sequences of calls\<close>

abbreviation run_calls :: "('d, 'ev) domain_ops \<Rightarrow> 'ev store_call list \<Rightarrow> 'd voting_db \<Rightarrow> 'd voting_db" where
  "run_calls ops \<equiv> fold (run_call ops)"

definition empty_db :: "'d \<Rightarrow> 'd voting_db" where
  "empty_db d = \<lparr>submissions = [], domain = d\<rparr>"

lemma empty_db_rep: "db_rep (empty_db d) []"
  by (simp add: empty_db_def db_rep_def wf_records_def)

text \<open>An invariant of the record table holds after any calls on a database that represents it.\<close>

locale table_invariant =
  fixes holds :: "StoredChainSubmission list \<Rightarrow> bool"
  assumes step_holds:
    "\<lbrakk>holds rs; wf_records rs; wf_records rs'; table_step rs rs'\<rbrakk> \<Longrightarrow> holds rs'"
begin

lemma calls_hold:
  assumes "db_rep db rs" "holds rs" "sound_domain ops" "list_all wf_call calls"
  shows "\<exists>rs'. db_rep (run_calls ops calls db) rs' \<and> holds rs'"
  using assms
proof (induction calls arbitrary: db rs)
  case (Cons call calls)
  then obtain rs' where "db_rep (run_call ops call db) rs'" "table_step rs rs'"
    using run_call_steps_to [of db rs ops call] by (auto simp add: steps_to_def)
  with Cons.IH [of "run_call ops call db" rs'] Cons.prems step_holds [of rs rs'] show ?case
    by (simp add: db_rep_def)
qed auto

end

interpretation reached: table_invariant "table_step\<^sup>*\<^sup>* rs" for rs
  by unfold_locales (auto intro: rtranclp.rtrancl_into_rtrancl)

definition terminal_at ::
  "ChainSubmissionIdentity \<Rightarrow> GenerationDigest \<Rightarrow> SubmissionRecordState
   \<Rightarrow> StoredChainSubmission list \<Rightarrow> bool" where
  "terminal_at i digest s rs \<longleftrightarrow>
     is_terminal s
     \<and> (\<exists>r. lookup_record rs i = Some r \<and> stored_digest r = digest \<and> stored_state r = s)"

interpretation terminal_records: table_invariant "terminal_at i digest s" for i digest s
proof
  fix rs rs'
  assume "terminal_at i digest s rs" and step: "table_step rs rs'"
  then obtain r where r: "is_terminal s" "lookup_record rs i = Some r" "stored_digest r = digest"
      "stored_state r = s"
    by (auto simp add: terminal_at_def)
  from step r show "terminal_at i digest s rs'"
    by cases (auto simp add: terminal_at_def lookup_record_append lookup_replace_record
        lookup_remove_record record_step_def same_generation_def)
qed

definition one_unresolved :: "StoredChainSubmission list \<Rightarrow> bool" where
  "one_unresolved rs \<longleftrightarrow>
     (\<forall>r \<in> set rs. \<forall>s \<in> set rs.
        bundle_of (stored_identity r) = bundle_of (stored_identity s)
        \<and> unresolved (stored_state r) \<and> unresolved (stored_state s) \<longrightarrow>
        stored_identity r = stored_identity s)"

lemma record_step_unresolved:
  "\<lbrakk>record_step r r'; unresolved (stored_state r')\<rbrakk> \<Longrightarrow> unresolved (stored_state r)"
  by (cases "stored_state r"; cases "stored_state r'") (auto simp add: record_step_def)

interpretation unresolved_records: table_invariant one_unresolved
proof
  fix rs rs'
  assume one: "one_unresolved rs" and step: "table_step rs rs'"
  from step show "one_unresolved rs'"
  proof cases
    case (transition r' r)
    have "stored_identity r = stored_identity r'" "r \<in> set rs"
      using lookup_record_Some [OF transition(2)] by auto
    with one record_step_unresolved [OF transition(3)] show ?thesis
      unfolding transition(1) one_unresolved_def replace_record_def
      by (auto simp add: image_iff)
  qed (use one in \<open>auto simp add: one_unresolved_def remove_record_def\<close>)
qed

section \<open>Recording classified observations\<close>

lemma unat_max_less: "\<lbrakk>unat a < n; unat b < n\<rbrakk> \<Longrightarrow> unat (max a b) < n"
  by (simp add: max_def)

lemma in_sql_range_settle:
  assumes "in_sql_range r" "unat now < 2 ^ 63"
  shows "in_sql_range (settle_after_transition p d now (r\<lparr>stored_state := s\<rparr>))"
  using assms
  by (auto simp add: in_sql_range_def settle_after_transition_tracking_start unat_max_less
      split: option.splits)

lemma record_candidate_step:
  assumes "apply_submission_observation (Some s) obs = Inr (Some t)"
    and "fst (snd (state_columns t d)) = Some h" "wf_state t"
  shows "fst (snd (state_columns s d')) = Some h \<or> obs = UsableCandidateHash h"
proof (cases t)
  case (Confirmed c)
  with assms show ?thesis
    by (cases s; cases c) (auto simp add: apply_defs split: SubmissionObservation.splits option.splits
        if_splits elim!: require_valid_recovery_confirmation.elims)
next
  case (Tracking k)
  with assms candidate_step [OF assms(1)] show ?thesis
    by (cases s) auto
next
  case (Recovering k e)
  with assms candidate_step [OF assms(1)] show ?thesis
    by (cases s) auto
qed (use assms in auto)

lemma hash_owned_row_of: "record_candidate s = Some h \<Longrightarrow> hash_owned h (row_of s)"
  by (simp add: hash_owned_def)

lemma candidate_free_settle:
  assumes rep: "db_rep db rs" and r: "lookup_record rs i = Some r" and id: "wf_identity i"
    and step: "apply_submission_observation (Some (stored_state (reload r)))
      (effective_observation db i obs) = Inr (Some s)" and wf: "wf_state s"
  shows "candidate_free (settle_after_transition p d now (reload r\<lparr>stored_state := s\<rparr>)) rs"
proof -
  let ?r' = "settle_after_transition p d now (reload r\<lparr>stored_state := s\<rparr>)"
  have i: "stored_identity r = i" "r \<in> set rs" and free: "candidate_free r rs"
    using wf_lookup [OF rep r] rep by (auto simp add: db_rep_def wf_records_def)
  have "record_candidate t \<noteq> Some h"
    if h: "record_candidate ?r' = Some h" and t: "t \<in> set rs" "stored_identity t \<noteq> i" for h t
  proof
    assume owned: "record_candidate t = Some h"
    have "record_candidate r = Some h \<or> effective_observation db i obs = UsableCandidateHash h"
      using record_candidate_step [OF step, of "stored_diagnostic ?r'" h "stored_diagnostic (reload r)"] h wf
      by (cases "stored_state r") (auto simp add: record_candidate_def)
    then show False
    proof
      assume "record_candidate r = Some h"
      with free owned t i show False
        by (simp add: candidate_free_def)
    next
      assume "effective_observation db i obs = UsableCandidateHash h"
      then have "\<not> owned_elsewhere db i h"
        by (auto simp add: effective_observation_def split: SubmissionObservation.splits if_splits)
      moreover have "submission_identity_key (stored_identity t) \<noteq> submission_identity_key i"
        using rep t id by (auto simp add: db_rep_def wf_records_def wf_record_def
            submission_identity_key_eq_iff)
      ultimately show False
        using rep t(1) hash_owned_row_of [OF owned]
        by (auto simp add: owned_elsewhere_def db_rep_def list_ex_iff)
    qed
  qed
  with i show ?thesis
    by (cases "record_candidate ?r'") (auto simp add: candidate_free_def)
qed

lemma apply_observation_recorded:
  assumes rep: "db_rep db rs" and id: "wf_identity (gen_identity gen)"
    and r: "lookup_record rs (gen_identity gen) = Some r" and digest: "stored_digest r = gen_digest gen"
    and step: "apply_submission_observation (Some (stored_state (reload r)))
      (effective_observation db (gen_identity gen) obs) = Inr (Some s)"
    and wf: "wf_observation obs" "wf_explicit d" and now: "unat now < 2 ^ 63"
    and kept: "\<not> (is_rejected s \<and> is_combined (target (gen_identity gen)))"
    and faults: "begin_fault faults = None" "commit_fault faults = None"
  defines "r' \<equiv> settle_after_transition (record_durable_state r) d now (reload r\<lparr>stored_state := s\<rparr>)"
  shows "\<exists>db'. apply_observation ops faults gen obs d now db = (Inr r', db')
           \<and> db_rep db' (replace_record r' rs)"
proof -
  have i: "stored_identity r = gen_identity gen"
    and wfr: "wf_record r" "wf_record (reload r)" "in_sql_range (reload r)"
    using wf_lookup [OF rep r] rep by (auto simp add: db_rep_def wf_records_def in_sql_range_def)
  have s: "wf_state s" "s \<noteq> Submitting"
    using apply_state_kept [OF step] wfr wf by (simp_all add: wf_record_def)
  have wf': "wf_record r'"
    unfolding r'_def using wf_settle [OF wfr(2) s wf(2)] .
  have gen': "same_generation r r'"
    using record_step_settle [OF step] unfolding r'_def record_step_def by simp
  have r_i: "lookup_record rs (stored_identity r') = Some r"
    using r i by (simp add: r'_def)
  define db' where "db' = db\<lparr>submissions := map row_of (replace_record r' rs)\<rparr>"
  have range: "in_sql_range r'" and free: "candidate_free r' rs"
    using in_sql_range_settle [OF wfr(3) now] candidate_free_settle [OF rep r id step s(1)]
    by (simp_all add: r'_def)
  have written: "persist_mutable ops db r' = Inr db'"
    using persist_mutable_rep [OF rep r_i gen' wf'] range free db'_def by blast
  have "apply_observation_body ops gen obs d now db = Inr (r', db')"
    using written kept step digest i
    by (auto simp add: apply_observation_body_def load_generation_def load_submission_rep [OF rep id]
        r ensure_generation_def Let_def retires_combined_generation_def r'_def)
  then have "apply_observation ops faults gen obs d now db = (Inr r', db')"
    using faults by (simp add: apply_observation_def transact_def)
  moreover have "db_rep db' (replace_record r' rs)"
    using persist_mutable_db_rep [OF rep r_i gen' wf' written] .
  ultimately show ?thesis
    by blast
qed

section \<open>Properties\<close>

lemma sound_sample_ops [simp]: "sound_domain sample_ops"
  by (auto simp add: sound_domain_def sample_ops_def sample_derived_def imported_candidate_def
      wf_hash_def confirmation_from_hash_def TREE_CAPACITY_def TREE_DEPTH_def)

definition sample_request :: StoreAdvancementRequest where
  "sample_request = request_vote sample_identity"

definition sample_generation :: ChainSubmissionGeneration where
  "sample_generation = \<lparr>gen_identity = sample_identity, gen_digest = replicate 32 0\<rparr>"

definition no_faults :: sql_faults where
  "no_faults = \<lparr>begin_fault = None, commit_fault = None\<rparr>"

text \<open>A vote that is reserved, accepted with a hash, and confirmed by it.\<close>

definition sample_calls :: "unit store_call list" where
  "sample_calls =
     [CallAdmit no_faults sample_request True 1 100,
      CallClassifyPost no_faults sample_generation (UsableCandidateHash (replicate 32 7)) 101,
      CallConfirmCommitted no_faults sample_request sample_generation (replicate 32 7) () True 102]"

lemma wf_sample_calls [simp]: "list_all wf_call sample_calls"
  by (simp add: sample_calls_def sample_request_def sample_generation_def request_vote_def
      request_identity_def)

definition sample_record :: StoredChainSubmission where
  "sample_record = fresh_record sample_generation 1 100"

definition sample_db :: "unit voting_db" where
  "sample_db = \<lparr>submissions = [row_of sample_record], domain = ()\<rparr>"

lemma wf_sample_record: "wf_record sample_record" "in_sql_range sample_record"
  by (simp_all add: sample_record_def fresh_record_def sample_generation_def wf_record_def
      in_sql_range_def)

lemma sample_db_rep: "db_rep sample_db [sample_record]"
  using wf_sample_record
  by (simp add: db_rep_def sample_db_def wf_records_def candidate_free_def)

lemma fresh_row_sample: "fresh_row sample_record = Inr (row_of sample_record)"
  by (simp add: fresh_row_def row_of_def sample_record_def fresh_record_def sample_generation_def
      record_columns Let_def split: prod.splits)

lemma admit_sample:
  "admit sample_ops no_faults sample_request True 1 100 (empty_db ()) =
     (Inr (Ready (sample_derived (DeriveVote sample_identity)) sample_record True), sample_db)"
proof -
  have "derive sample_ops db (DeriveVote sample_identity)
      = Inr (sample_derived (DeriveVote sample_identity))" for db
    by (simp add: derive_def sample_ops_def)
  moreover have "derived_generation (sample_derived (DeriveVote sample_identity)) = sample_generation"
    by (simp add: sample_derived_def sample_generation_def)
  moreover have "fresh_admission_gates sample_ops (empty_db ()) sample_identity = Inr ()"
    by (simp add: fresh_admission_gates_def unresolved_predecessor_def empty_db_def
        sample_identity_def)
  moreover have "insert_fresh sample_ops (empty_db ()) sample_record = Inr sample_db"
    by (simp add: insert_fresh_def fresh_row_sample insert_row_def row_checks_row_of
        wf_sample_record empty_db_def candidate_unique_def confirmed_hash_unique_def sample_ops_def
        sample_db_def)
  moreover have "load_submission sample_ops (empty_db ()) sample_identity = Inr None"
    by (simp add: load_submission_rep [OF empty_db_rep wf_sample_identity] lookup_record_def)
  moreover have "target sample_identity = Vote 3"
    by (simp add: sample_identity_def)
  ultimately show ?thesis
    by (simp add: admit_def admit_body_def sample_request_def request_vote_def request_identity_def
        validate_target_def derive_batch_def is_batch_def is_imported_delegation_def
        reserve_fresh_def verify_batch_roster_def Let_def transact_def no_faults_def
        sample_record_def)
qed

definition sample_tracked :: StoredChainSubmission where
  "sample_tracked = settle_after_transition StateSubmitting None 101
     (sample_record\<lparr>stored_state := Tracking (replicate 32 7)\<rparr>)"

lemma classify_sample:
  "\<exists>db. classify_post sample_ops no_faults sample_generation (UsableCandidateHash (replicate 32 7))
      101 sample_db = (Inr sample_tracked, db) \<and> db_rep db [sample_tracked]"
proof -
  have reload: "reload sample_record = sample_record"
    by (simp add: reload_def sample_record_def fresh_record_def record_columns)
  have "\<exists>db. apply_observation sample_ops no_faults sample_generation
      (UsableCandidateHash (replicate 32 7)) None 101 sample_db
      = (Inr (settle_after_transition (record_durable_state sample_record) None 101
            (reload sample_record\<lparr>stored_state := Tracking (replicate 32 7)\<rparr>)), db)
      \<and> db_rep db (replace_record (settle_after_transition (record_durable_state sample_record) None 101
            (reload sample_record\<lparr>stored_state := Tracking (replicate 32 7)\<rparr>)) [sample_record])"
    by (rule apply_observation_recorded [OF sample_db_rep])
       (simp_all add: reload sample_generation_def sample_record_def fresh_record_def no_faults_def
         lookup_record_def effective_observation_def owned_elsewhere_def sample_db_def apply_defs
         wf_explicit_def)
  then show ?thesis
    by (simp add: classify_post_def reload sample_tracked_def replace_record_def)
       (simp add: sample_record_def fresh_record_def)
qed

definition sample_confirmed :: StoredChainSubmission where
  "sample_confirmed = sample_tracked\<lparr>stored_state := Confirmed (ValidatedHash
     \<lparr>conf_source = SourceHash, conf_transaction_hash = Some (replicate 32 7),
      final_van_position = 4, vote_commitment_positions = [5]\<rparr>)\<rparr>"

definition confirmed_db :: "unit voting_db" where
  "confirmed_db = \<lparr>submissions = [row_of sample_confirmed], domain = ()\<rparr>"

lemma sample_tracked_fields:
  "sample_tracked = \<lparr>stored_identity = sample_identity, stored_digest = replicate 32 0,
     stored_state = Tracking (replicate 32 7), committed_post_reservations = 1,
     tracking_started_at = Some 101, stored_diagnostic = None, created_at = 100, updated_at = 101\<rparr>"
  by (simp add: sample_tracked_def settle_after_transition_def sample_record_def fresh_record_def
      sample_generation_def Let_def max_def)

lemma confirmed_db_rep: "db_rep confirmed_db [sample_confirmed]"
  by (simp add: db_rep_def confirmed_db_def wf_records_def candidate_free_def wf_record_def
      in_sql_range_def sample_confirmed_def sample_tracked_fields wf_hash_def TREE_CAPACITY_def
      TREE_DEPTH_def)

text \<open>
  C6.  The SQLite store refines the table of records: after any sequence of calls, with any
  transaction faults among them, the database still represents a well-formed list of records, and
  that list is reached from the first one by reservations gated on the bundle, lifecycle
  transitions of one record at a time, and removals of records that were never dispatched or are
  retired by a combined rejection.
\<close>

theorem store_refines_table:
  assumes "db_rep db rs" "sound_domain ops" "list_all wf_call calls"
  shows "\<exists>rs'. db_rep (run_calls ops calls db) rs' \<and> table_step\<^sup>*\<^sup>* rs rs'"
  using reached.calls_hold [OF assms(1) _ assms(2,3)] by blast

theorem store_refines_table_witness:
  "\<exists>rs'. db_rep (run_calls sample_ops sample_calls (empty_db ())) rs' \<and> table_step\<^sup>*\<^sup>* [] rs'"
  using store_refines_table [OF empty_db_rep sound_sample_ops wf_sample_calls] .

text \<open>
  C7.  A terminal submission is durable: once a row is read as confirmed, rejected or submitted
  without a hash, every later sequence of calls leaves the same state of the same generation to
  be read.
\<close>

theorem terminal_submissions_durable:
  assumes "db_rep db rs" "sound_domain ops" "list_all wf_call calls" "wf_identity i"
    and "load_submission ops db i = Inr (Some r)" "is_terminal (stored_state r)"
  shows "\<exists>r'. load_submission ops (run_calls ops calls db) i = Inr (Some r')
           \<and> stored_digest r' = stored_digest r \<and> stored_state r' = stored_state r"
proof -
  obtain q where q: "lookup_record rs i = Some q" "r = reload q"
    using assms(5) by (auto simp add: load_submission_rep [OF assms(1,4)])
  then have "terminal_at i (stored_digest q) (stored_state q) rs"
    using assms(6) by (simp add: terminal_at_def)
  from terminal_records.calls_hold [OF assms(1) this assms(2,3)] obtain rs' q'
    where "db_rep (run_calls ops calls db) rs'" "lookup_record rs' i = Some q'"
      "stored_digest q' = stored_digest q" "stored_state q' = stored_state q"
    by (auto simp add: terminal_at_def)
  with q(2) assms(4) show ?thesis
    by (simp add: load_submission_rep)
qed

theorem terminal_submissions_durable_witness:
  "\<exists>r'. load_submission sample_ops (run_calls sample_ops sample_calls confirmed_db) sample_identity
        = Inr (Some r')
      \<and> stored_state r' = stored_state sample_confirmed \<and> is_terminal (stored_state sample_confirmed)"
proof -
  have "load_submission sample_ops confirmed_db sample_identity = Inr (Some (reload sample_confirmed))"
    by (simp add: load_submission_rep [OF confirmed_db_rep wf_sample_identity] lookup_record_def)
       (simp add: sample_confirmed_def sample_tracked_fields)
  from terminal_submissions_durable [OF confirmed_db_rep sound_sample_ops wf_sample_calls
      wf_sample_identity this] show ?thesis
    by (auto simp add: sample_confirmed_def)
qed

text \<open>
  C8.  In every database reached from an empty one, a bundle has at most one unresolved
  submission: two rows of the same wallet, network, round and bundle that are submitting,
  tracking, recovering or submitted without a hash are the same row.
\<close>

theorem one_unresolved_submission_per_bundle:
  assumes "sound_domain ops" "list_all wf_call calls"
    and "a \<in> set (submissions (run_calls ops calls (empty_db d)))"
    and "b \<in> set (submissions (run_calls ops calls (empty_db d)))"
    and "row_wallet_id a = row_wallet_id b" "row_network a = row_network b"
    and "row_round_id a = row_round_id b" "row_bundle_index a = row_bundle_index b"
    and "row_state a \<in> {''submitting'', ''tracking'', ''recovering'', ''submitted_without_hash''}"
    and "row_state b \<in> {''submitting'', ''tracking'', ''recovering'', ''submitted_without_hash''}"
  shows "a = b"
proof -
  have "one_unresolved []"
    by (simp add: one_unresolved_def)
  from unresolved_records.calls_hold [OF empty_db_rep this assms(1,2)] obtain rs
    where rep: "db_rep (run_calls ops calls (empty_db d)) rs" and one: "one_unresolved rs"
    by blast
  then obtain r s where r: "r \<in> set rs" "a = row_of r" and s: "s \<in> set rs" "b = row_of s"
    using assms(3,4) by (auto simp add: db_rep_def)
  have "bundle_of (stored_identity r) = bundle_of (stored_identity s)"
    using assms(5-8) by (simp add: r(2) s(2) bundle_of_def word_uint_eq_iff)
  moreover have "unresolved (stored_state r)" "unresolved (stored_state s)"
    using assms(9,10) unresolved_state_name by (simp_all add: r(2) s(2))
  ultimately have "stored_identity r = stored_identity s"
    using one r(1) s(1) by (simp add: one_unresolved_def)
  moreover have "wf_records rs"
    using rep by (simp add: db_rep_def)
  ultimately have "r = s"
    using r(1) s(1) by (intro wf_records_inject [of rs])
  with r s show ?thesis
    by simp
qed

theorem one_unresolved_submission_per_bundle_witness:
  "submissions (run_calls sample_ops [CallAdmit no_faults sample_request True 1 100] (empty_db ()))
     = [row_of sample_record] \<and> row_state (row_of sample_record) = ''submitting''"
proof -
  have state: "row_state (row_of sample_record) = ''submitting''"
    by (simp add: state_name_def sample_record_def fresh_record_def)
  then show ?thesis
    using one_unresolved_submission_per_bundle [OF sound_sample_ops,
        of "[CallAdmit no_faults sample_request True 1 100]" "row_of sample_record" "()"
           "row_of sample_record"]
    by (simp add: admit_sample sample_db_def)
qed

text \<open>
  C9.  A transaction hash belongs to one submission: in every reached database two rows that
  hold the same hash, as their candidate or as their confirmed transaction, are the same row.
\<close>

theorem candidate_hash_owned_once:
  assumes "sound_domain ops" "list_all wf_call calls"
    and "a \<in> set (submissions (run_calls ops calls (empty_db d)))" "hash_owned h a"
    and "b \<in> set (submissions (run_calls ops calls (empty_db d)))" "hash_owned h b"
  shows "a = b"
proof -
  from reached.calls_hold [OF empty_db_rep _ assms(1,2)] obtain rs
    where rep: "db_rep (run_calls ops calls (empty_db d)) rs"
    by blast
  then obtain r s where r: "r \<in> set rs" "a = row_of r" and s: "s \<in> set rs" "b = row_of s"
    using assms(3,5) by (auto simp add: db_rep_def)
  have wf: "wf_records rs"
    using rep by (simp add: db_rep_def)
  have "record_candidate r = Some h" "record_candidate s = Some h"
    using assms(4,6) wf r s row_confirmed_hash_candidate
    by (auto simp add: hash_owned_def wf_records_def)
  then have "r = s"
    using wf r(1) s(1) by (intro wf_records_candidate_inject [of rs r s h])
  with r(2) s(2) show ?thesis
    by simp
qed

theorem candidate_hash_owned_once_witness:
  "\<exists>a. submissions (run_calls sample_ops (take 2 sample_calls) (empty_db ())) = [a]
       \<and> hash_owned (replicate 32 7) a"
proof -
  obtain db where db: "classify_post sample_ops no_faults sample_generation
      (UsableCandidateHash (replicate 32 7)) 101 sample_db = (Inr sample_tracked, db)"
    "db_rep db [sample_tracked]"
    using classify_sample by blast
  have run: "run_calls sample_ops (take 2 sample_calls) (empty_db ()) = db"
    by (simp add: sample_calls_def numeral_2_eq_2 admit_sample db(1))
  have "list_all wf_call (take 2 sample_calls)"
    using wf_sample_calls by (simp add: sample_calls_def)
  moreover have owned: "submissions db = [row_of sample_tracked]"
      "hash_owned (replicate 32 7) (row_of sample_tracked)"
    using db(2) by (simp_all add: db_rep_def hash_owned_def record_columns sample_tracked_fields)
  ultimately show ?thesis
    using candidate_hash_owned_once [OF sound_sample_ops, of "take 2 sample_calls"
        "row_of sample_tracked" "()" "replicate 32 7" "row_of sample_tracked"]
    by (simp add: run)
qed

text \<open>
  C12.  Every row of a reached database can be read: loading any valid identity returns a
  well-formed record or reports that there is none, and never a decoding error.
\<close>

theorem reached_rows_load:
  assumes "sound_domain ops" "list_all wf_call calls" "wf_identity i"
  shows "\<exists>loaded. load_submission ops (run_calls ops calls (empty_db d)) i = Inr loaded
           \<and> (case loaded of None \<Rightarrow> True | Some r \<Rightarrow> wf_record r \<and> stored_identity r = i)"
proof -
  from reached.calls_hold [OF empty_db_rep _ assms(1,2)] obtain rs
    where rep: "db_rep (run_calls ops calls (empty_db d)) rs"
    by blast
  then show ?thesis
    using wf_lookup [OF rep, of i]
    by (cases "lookup_record rs i") (simp_all add: load_submission_rep [OF rep assms(3)])
qed

theorem reached_rows_load_witness:
  "\<exists>loaded. load_submission sample_ops (run_calls sample_ops sample_calls (empty_db ())) sample_identity
     = Inr loaded"
  using reached_rows_load [OF sound_sample_ops wf_sample_calls wf_sample_identity] by blast





end
