(* ===== verification/Pass_Monad.thy ===== *)
theory Pass_Monad
  imports Voting_Prelude
begin

text \<open>
  Fallible computations over a state, for the asynchronous passes of the lifecycle: a pass reads
  and changes a world, and ends with a value, a failure, or a panic (an index out of range, an
  \<open>expect\<close> or an \<open>unreachable!\<close> of the source).
\<close>

section \<open>Passes\<close>

datatype 'e pass_error = Failed 'e | Panicked

type_synonym ('w, 'e, 'a) pass = "'w \<Rightarrow> ('e pass_error + 'a) \<times> 'w"

definition pass_return :: "'a \<Rightarrow> ('w, 'e, 'a) pass" where
  "pass_return a = (\<lambda>w. (Inr a, w))"

definition pass_fail :: "'e \<Rightarrow> ('w, 'e, 'a) pass" where
  "pass_fail e = (\<lambda>w. (Inl (Failed e), w))"

definition pass_panic :: "('w, 'e, 'a) pass" where
  "pass_panic = (\<lambda>w. (Inl Panicked, w))"

definition pass_bind :: "('w, 'e, 'a) pass \<Rightarrow> ('a \<Rightarrow> ('w, 'e, 'b) pass) \<Rightarrow> ('w, 'e, 'b) pass" where
  "pass_bind m f = (\<lambda>w. case m w of (Inl e, w') \<Rightarrow> (Inl e, w') | (Inr a, w') \<Rightarrow> f a w')"

definition pass_result :: "'e + 'a \<Rightarrow> ('w, 'e, 'a) pass" where
  "pass_result r = (case r of Inl e \<Rightarrow> pass_fail e | Inr a \<Rightarrow> pass_return a)"

fun map_pass_error :: "('e \<Rightarrow> 'e) \<Rightarrow> 'e pass_error \<Rightarrow> 'e pass_error" where
  "map_pass_error g (Failed e) = Failed (g e)"
| "map_pass_error g Panicked = Panicked"

text \<open>\<open>map_err\<close> on the result of a pass.\<close>

definition pass_map_err :: "('e \<Rightarrow> 'e) \<Rightarrow> ('w, 'e, 'a) pass \<Rightarrow> ('w, 'e, 'a) pass" where
  "pass_map_err g m = (\<lambda>w. case m w of (r, w') \<Rightarrow> (map_err (map_pass_error g) r, w'))"

text \<open>Indexing a vector: out of range is a panic.\<close>

definition pass_index :: "'a list \<Rightarrow> nat \<Rightarrow> ('w, 'e, 'a) pass" where
  "pass_index xs i = (if i < length xs then pass_return (xs ! i) else pass_panic)"

section \<open>Laws and bounds\<close>

lemma pass_bind_assoc: "pass_bind (pass_bind m f) g = pass_bind m (\<lambda>x. pass_bind (f x) g)"
  by (auto simp add: pass_bind_def fun_eq_iff split: prod.splits sum.splits)

text \<open>A measure of the world grows by at most a bound, however the pass ends.\<close>

definition grows :: "('w \<Rightarrow> nat) \<Rightarrow> nat \<Rightarrow> ('w, 'e, 'a) pass \<Rightarrow> bool" where
  "grows weight k m \<longleftrightarrow> (\<forall>w. weight (snd (m w)) \<le> weight w + k)"

lemma grows_basic [simp, intro]:
  "grows weight k (pass_return a)" "grows weight k (pass_fail e)" "grows weight k pass_panic"
  "grows weight k (pass_result r)" "grows weight k (pass_index xs i)"
  by (simp_all add: grows_def pass_return_def pass_fail_def pass_panic_def pass_result_def
      pass_index_def split: sum.splits)

lemma grows_bind:
  assumes "grows weight j m" "\<And>a. grows weight k (f a)"
  shows "grows weight (j + k) (pass_bind m f)"
  unfolding grows_def
proof
  fix w
  obtain r w' where m: "m w = (r, w')"
    by (cases "m w")
  then have "weight w' \<le> weight w + j"
    using assms(1) by (auto simp add: grows_def dest: spec [of _ w])
  then have "weight (snd (f a w')) \<le> weight w + (j + k)" for a
    using assms(2) [of a, unfolded grows_def, rule_format, of w'] by simp
  with \<open>weight w' \<le> weight w + j\<close> show "weight (snd (pass_bind m f w)) \<le> weight w + (j + k)"
    using m by (cases r) (simp_all add: pass_bind_def)
qed

lemma grows_mono: "\<lbrakk>grows weight j m; j \<le> k\<rbrakk> \<Longrightarrow> grows weight k m"
  unfolding grows_def by (meson add_left_mono order_trans)

text \<open>The bind for a first part that does not grow.\<close>

lemma grows_after: "\<lbrakk>grows weight 0 m; \<And>a. grows weight k (f a)\<rbrakk> \<Longrightarrow> grows weight k (pass_bind m f)"
  using grows_bind [of weight 0 m k f] by simp

lemma grows_map_err: "grows weight k m \<Longrightarrow> grows weight k (pass_map_err g m)"
  by (simp add: grows_def pass_map_err_def case_prod_unfold)

lemma grows_if: "\<lbrakk>b \<Longrightarrow> grows weight k m; \<not> b \<Longrightarrow> grows weight k n\<rbrakk> \<Longrightarrow> grows weight k (if b then m else n)"
  by simp

end
