(* ===== verification/Submission_Coordinator.thy ===== *)
theory Submission_Coordinator
  imports Submission_Store_Safety Pass_Monad
begin

text \<open>
  One bounded advancement pass of the chain-submission coordinator
  (\<open>chain_submission/coordinator.rs\<close>): admission under the operation lease, the POST loop, status
  lookups, exact-tree recovery and its authorized retry.  Everything the pass only calls (the
  transport, the clock, the host's cancellation and epoch, timers, SQLite faults) is a function
  of the environment \<open>pass_env\<close>, indexed by the number of samples taken so far, so that a theorem
  over all environments covers every interleaving of their answers with the pass.

  The recursion of the source is bounded by its attempt budget; here it is a recursion on the
  attempts that remain.
\<close>

section \<open>Policy\<close>

text \<open>Durations are in nanoseconds.\<close>

definition from_secs :: "nat \<Rightarrow> nat" where
  "from_secs s = s * 10 ^ 9"

definition MAX_POST_ATTEMPTS_PER_PASS :: nat where
  "MAX_POST_ATTEMPTS_PER_PASS = 8"

definition MAX_RETRY_BACKOFF :: nat where
  "MAX_RETRY_BACKOFF = from_secs (10 * 60)"

record CoordinatorPolicy =
  tracking_window_seconds :: u64
  maximum_post_attempts :: nat
  retry_backoffs :: "nat list"

definition policy_new ::
  "nat \<Rightarrow> nat \<Rightarrow> nat list \<Rightarrow> ChainSubmissionFailure + CoordinatorPolicy" where
  "policy_new tracking_window maximum backoffs =
     (let seconds = tracking_window div 10 ^ 9 in
      if seconds = 0 \<or> tracking_window \<noteq> from_secs seconds
         \<or> maximum = 0 \<or> maximum > MAX_POST_ATTEMPTS_PER_PASS
         \<or> length backoffs + 1 \<noteq> maximum
         \<or> list_ex (\<lambda>delay. delay = 0 \<or> delay > MAX_RETRY_BACKOFF) backoffs
      then Inl (without_state InvalidInput
        (lit ''chain coordinator requires a nonzero whole-second tracking window, one to eight attempts, and one bounded nonzero backoff between attempts''))
      else Inr \<lparr>tracking_window_seconds = of_nat seconds, maximum_post_attempts = maximum,
                retry_backoffs = backoffs\<rparr>)"

section \<open>What a pass observes\<close>

datatype ChainRecoveryMode = StatusOnly | ExactTree

datatype Interruption = Cancelled | StaleEpoch

fun after_dispatch_message :: "Interruption \<Rightarrow> unicode" where
  "after_dispatch_message Cancelled =
     lit ''submission was cancelled after dispatch could not be excluded''"
| "after_dispatch_message StaleEpoch =
     lit ''host operation epoch changed after dispatch could not be excluded''"

datatype ChainRejectionKind = NullifierSpentRejection | OtherRejection

text \<open>
  A transport error is its redacted message; the certainty it carries is already part of the
  outcome it is wrapped in.
\<close>

datatype PostAttemptOutcome =
    PostAccepted CandidateTransactionHash
  | PostRejected ChainRejectionKind ChainSubmissionDiagnostic
  | PostLocalFailure ChainSubmissionDiagnostic
  | PostDefinitelyUnsent unicode
  | PostNotDispatchedByServer
  | PostPossiblyDispatched ChainSubmissionDiagnostic

text \<open>The race of one POST against interruption, with the dispatch marker read on interruption.\<close>

datatype PostRace =
    PostInterrupted Interruption bool
  | PostReturned PostAttemptOutcome

datatype 'ev TransactionStatusObservation =
    StatusPending
  | CommittedSuccess 'ev
  | CommittedFailure

datatype LookupFailure =
    LookupTransport unicode
  | LookupProtocol ChainSubmissionDiagnostic

datatype 'ev LookupProgress =
    LookupInterrupted
  | LookupObserved "'ev TransactionStatusObservation"
  | LookupFailed LookupFailure

datatype RecoveryScanFailure =
    ScanTransport unicode
  | ScanInvalid ChainSubmissionDiagnostic
  | ScanAmbiguousLayout ChainSubmissionDiagnostic
  | ScanFailureInterrupted

datatype RecoveryScanOutcome =
    ScanOutcomeMatch u64 "u64 list"
  | ScanOutcomeNoMatch RecoveryRetryAuthorization

datatype RecoveryScan =
    ScanMatch u64 "u64 list"
  | ScanNoMatch RecoveryRetryAuthorization
  | ScanInterrupted

datatype AmbiguousRetryReservation =
    RetryReserved StoredChainSubmission
  | RetryInterrupted StoredChainSubmission

record ('d, 'ev) pass_env =
  env_ops :: "('d, 'ev) domain_ops"
  env_policy :: CoordinatorPolicy
  env_endpoint_count :: nat
  env_cancelled :: "nat \<Rightarrow> bool"
  env_epoch :: "nat \<Rightarrow> u64"
  env_clock :: "nat \<Rightarrow> ChainSubmissionFailure + u64"
  env_faults :: "nat \<Rightarrow> sql_faults"
  env_acquire :: "nat \<Rightarrow> ChainSubmissionFailure option"
  env_register :: "nat \<Rightarrow> ChainSubmissionFailure option"
  env_post :: "nat \<Rightarrow> nat \<Rightarrow> ChainSubmissionRequest \<Rightarrow> PostRace"
  env_lookup :: "nat \<Rightarrow> CandidateTransactionHash \<Rightarrow> 'ev LookupProgress"
  env_scan :: "nat \<Rightarrow> ChainSubmissionIdentity \<Rightarrow> DerivedChainSubmission
     \<Rightarrow> CandidateTransactionHash option \<Rightarrow> RecoveryScanFailure + RecoveryScanOutcome"
  env_backoff :: "nat \<Rightarrow> nat \<Rightarrow> Interruption option"

text \<open>
  The world of a pass: the database, the number of samples taken, and the POSTs handed to the
  transport so far, each with its generation, endpoint, outcome and the database at that moment.
\<close>

record 'd post_entry =
  post_generation :: ChainSubmissionGeneration
  post_endpoint :: nat
  post_race :: PostRace
  post_db :: "'d voting_db"

record 'd world =
  world_db :: "'d voting_db"
  tick :: nat
  posts :: "'d post_entry list"

type_synonym ('d, 'a) submission_pass = "('d world, ChainSubmissionFailure, 'a) pass"

definition sample :: "(nat \<Rightarrow> 'a) \<Rightarrow> ('d, 'a) submission_pass" where
  "sample f = (\<lambda>w. (Inr (f (tick w)), w\<lparr>tick := Suc (tick w)\<rparr>))"

definition store_op ::
  "('d, 'ev) pass_env
   \<Rightarrow> (sql_faults \<Rightarrow> 'd voting_db \<Rightarrow> (ChainSubmissionFailure + 'a) \<times> 'd voting_db)
   \<Rightarrow> ('d, 'a) submission_pass" where
  "store_op env operation =
     (\<lambda>w. case operation (env_faults env (tick w)) (world_db w) of
        (r, db) \<Rightarrow> (map_err Failed r, w\<lparr>world_db := db, tick := Suc (tick w)\<rparr>))"

definition now_seconds :: "('d, 'ev) pass_env \<Rightarrow> ('d, u64) submission_pass" where
  "now_seconds env = pass_bind (sample (env_clock env)) pass_result"

definition interruption :: "u64 \<Rightarrow> bool \<Rightarrow> u64 \<Rightarrow> Interruption option" where
  "interruption captured cancelled epoch =
     (if cancelled then Some Cancelled else if epoch \<noteq> captured then Some StaleEpoch else None)"

definition check_interruption ::
  "('d, 'ev) pass_env \<Rightarrow> u64 \<Rightarrow> ('d, Interruption option) submission_pass" where
  "check_interruption env captured =
     sample (\<lambda>t. interruption captured (env_cancelled env t) (env_epoch env t))"

definition interrupted_without_state :: "Interruption \<Rightarrow> ('d, ChainSubmissionResult) submission_pass" where
  "interrupted_without_state reason =
     (case reason of
        Cancelled \<Rightarrow> pass_return ResultCancelled
      | StaleEpoch \<Rightarrow> pass_fail (without_state InvalidInput
          (lit ''host operation epoch changed before request dispatch'')))"

definition attach_state :: "ChainSubmissionState \<Rightarrow> ChainSubmissionFailure \<Rightarrow> ChainSubmissionFailure" where
  "attach_state state error =
     (if strongest_state error \<noteq> None then error
      else with_durable_state (failure_kind error) state (lit (failure_message error)))"

definition replace_state :: "ChainSubmissionState \<Rightarrow> ChainSubmissionFailure \<Rightarrow> ChainSubmissionFailure" where
  "replace_state state error =
     with_durable_state (failure_kind error) state (lit (failure_message error))"

definition report :: "StoredChainSubmission \<Rightarrow> ('d, ChainSubmissionResult) submission_pass" where
  "report record = pass_result (public_result record)"

fun returned_candidate_is_unusable :: "SubmissionRecordState \<Rightarrow> bool" where
  "returned_candidate_is_unusable (Recovering None _) = True"
| "returned_candidate_is_unusable _ = False"

fun lookup_diagnostic :: "LookupFailure \<Rightarrow> ChainSubmissionDiagnostic" where
  "lookup_diagnostic (LookupProtocol diagnostic) = diagnostic"
| "lookup_diagnostic (LookupTransport message) = from_redacted_message ReconciliationPending message"

fun lookup_failure :: "LookupFailure \<Rightarrow> ChainSubmissionState \<Rightarrow> ChainSubmissionFailure" where
  "lookup_failure (LookupProtocol diagnostic) state =
     with_durable_state Protocol state (lit (diag_message diagnostic))"
| "lookup_failure (LookupTransport message) state = with_durable_state Transport state message"

section \<open>Steps on the store\<close>

definition reserve_ambiguous_retry_after_backoff ::
  "('d, 'ev) pass_env \<Rightarrow> nat \<Rightarrow> ChainSubmissionGeneration \<Rightarrow> StoredChainSubmission
   \<Rightarrow> ('d, AmbiguousRetryReservation) submission_pass" where
  "reserve_ambiguous_retry_after_backoff env backoff gen reserved =
     pass_bind (sample (\<lambda>t. env_backoff env t backoff)) (\<lambda>interrupted.
     if interrupted \<noteq> None then pass_return (RetryInterrupted reserved)
     else
       pass_bind (pass_map_err (attach_state (record_durable_state reserved)) (now_seconds env)) (\<lambda>now.
       pass_bind (pass_map_err (attach_state (record_durable_state reserved))
                   (store_op env (\<lambda>f. reserve_ambiguous_retry (env_ops env) f gen now))) (\<lambda>record.
       pass_return (RetryReserved record))))"

definition classify_dispatched_post ::
  "('d, 'ev) pass_env \<Rightarrow> ChainSubmissionGeneration \<Rightarrow> SubmissionObservation
   \<Rightarrow> ('d, StoredChainSubmission) submission_pass" where
  "classify_dispatched_post env gen observation =
     pass_bind (pass_map_err possible_dispatch_error (now_seconds env)) (\<lambda>now.
     pass_map_err possible_dispatch_error
       (store_op env (\<lambda>f. classify_post (env_ops env) f gen observation now)))"

definition remove_fresh ::
  "('d, 'ev) pass_env \<Rightarrow> ChainSubmissionGeneration \<Rightarrow> ('d, unit) submission_pass" where
  "remove_fresh env gen =
     pass_bind (pass_map_err (replace_state StateSubmitting) (now_seconds env)) (\<lambda>now.
     pass_map_err (attach_state StateSubmitting)
       (store_op env (\<lambda>f. remove_fresh_reservation (env_ops env) f gen)))"

definition reconcile_with_durable_state ::
  "('d, 'ev) pass_env \<Rightarrow> ChainSubmissionGeneration \<Rightarrow> SubmissionObservation
   \<Rightarrow> ChainSubmissionDiagnostic option \<Rightarrow> ChainSubmissionState
   \<Rightarrow> ('d, StoredChainSubmission) submission_pass" where
  "reconcile_with_durable_state env gen observation diagnostic state =
     pass_bind (pass_map_err (attach_state state) (now_seconds env)) (\<lambda>now.
     pass_map_err (attach_state state)
       (store_op env (\<lambda>f. reconcile (env_ops env) f gen observation diagnostic now)))"

definition committed_result :: "ConfirmationCommit \<Rightarrow> ('d, ChainSubmissionResult) submission_pass" where
  "committed_result commit =
     (case commit of CommitInterrupted record \<Rightarrow> report record | CommitConfirmed record \<Rightarrow> report record)"

definition coordinator_confirm_tree ::
  "('d, 'ev) pass_env \<Rightarrow> u64 \<Rightarrow> StoreAdvancementRequest \<Rightarrow> DerivedChainSubmission \<Rightarrow> u64 \<Rightarrow> u64 list
   \<Rightarrow> ('d, ChainSubmissionResult) submission_pass" where
  "coordinator_confirm_tree env epoch request derived van vcs =
     pass_bind (pass_map_err (replace_state StateRecovering) (now_seconds env)) (\<lambda>now.
     pass_bind (check_interruption env epoch) (\<lambda>interrupted.
     pass_bind (pass_map_err (attach_state StateRecovering)
         (store_op env (\<lambda>f. confirm_tree (env_ops env) f request (derived_generation derived) van vcs
             (interrupted = None) now)))
       committed_result))"

definition coordinator_confirm ::
  "('d, 'ev) pass_env \<Rightarrow> u64 \<Rightarrow> StoreAdvancementRequest \<Rightarrow> DerivedChainSubmission
   \<Rightarrow> CandidateTransactionHash \<Rightarrow> 'ev \<Rightarrow> ChainSubmissionState
   \<Rightarrow> ('d, ChainSubmissionResult) submission_pass" where
  "coordinator_confirm env epoch request derived candidate committed state =
     pass_bind (pass_map_err (replace_state state) (now_seconds env)) (\<lambda>now.
     pass_bind (check_interruption env epoch) (\<lambda>interrupted.
     pass_bind (pass_map_err (attach_state state)
         (store_op env (\<lambda>f. confirm_committed (env_ops env) f request (derived_generation derived)
             candidate committed (interrupted = None) now)))
       committed_result))"

definition tracking_expired_at ::
  "CoordinatorPolicy \<Rightarrow> StoredChainSubmission \<Rightarrow> u64 \<Rightarrow> ChainSubmissionFailure + bool" where
  "tracking_expired_at policy record now =
     and_then (ok_or (with_durable_state InvariantViolation (record_durable_state record)
                 (lit ''Tracking record has no immutable tracking-start timestamp''))
               (tracking_started_at record)) (\<lambda>started.
       Inr (now < started \<or> now - started \<ge> tracking_window_seconds policy))"

definition tracking_expired ::
  "('d, 'ev) pass_env \<Rightarrow> StoredChainSubmission \<Rightarrow> ('d, bool) submission_pass" where
  "tracking_expired env record =
     pass_bind (pass_map_err (replace_state (record_durable_state record)) (now_seconds env)) (\<lambda>now.
     pass_result (tracking_expired_at (env_policy env) record now))"

definition expired_diagnostic :: ChainSubmissionDiagnostic where
  "expired_diagnostic = from_redacted_message TrackingWindowExpired
     (lit ''finite candidate tracking window expired without a definitive result'')"

definition finish_inconclusive_tracking ::
  "('d, 'ev) pass_env \<Rightarrow> DerivedChainSubmission \<Rightarrow> StoredChainSubmission
   \<Rightarrow> ChainSubmissionDiagnostic option \<Rightarrow> ('d, StoredChainSubmission) submission_pass" where
  "finish_inconclusive_tracking env derived record diagnostic =
     pass_bind (pass_map_err (replace_state (record_durable_state record)) (now_seconds env)) (\<lambda>now.
     pass_bind (pass_result (tracking_expired_at (env_policy env) record now)) (\<lambda>expired.
     if expired
     then reconcile_with_durable_state env (derived_generation derived)
            (ObservedTrackingWindowExpired expired_diagnostic) (Some expired_diagnostic)
            (record_durable_state record)
     else reconcile_with_durable_state env (derived_generation derived)
            CandidatePending diagnostic (record_durable_state record)))"

section \<open>Tree passes\<close>

text \<open>
  \<open>scan_tree\<close>: a scan that cannot complete continues recovery on the row and surfaces an error.
\<close>

definition scan_tree ::
  "('d, 'ev) pass_env \<Rightarrow> ChainSubmissionIdentity \<Rightarrow> DerivedChainSubmission
   \<Rightarrow> CandidateTransactionHash option \<Rightarrow> ('d, RecoveryScan) submission_pass" where
  "scan_tree env operation_identity derived candidate =
     pass_bind (sample (\<lambda>t. env_scan env t operation_identity derived candidate)) (\<lambda>scanned.
     case scanned of
       Inr (ScanOutcomeMatch van vcs) \<Rightarrow> pass_return (ScanMatch van vcs)
     | Inr (ScanOutcomeNoMatch authorization) \<Rightarrow> pass_return (ScanNoMatch authorization)
     | Inl ScanFailureInterrupted \<Rightarrow> pass_return ScanInterrupted
     | Inl (ScanInvalid diagnostic) \<Rightarrow>
         pass_bind (reconcile_with_durable_state env (derived_generation derived) ContinueRecovery
                     (Some diagnostic) StateRecovering) (\<lambda>_.
         pass_fail (with_durable_state Protocol StateRecovering (lit (diag_message diagnostic))))
     | Inl (ScanAmbiguousLayout diagnostic) \<Rightarrow>
         pass_bind (reconcile_with_durable_state env (derived_generation derived) ContinueRecovery
                     (Some diagnostic) StateRecovering) (\<lambda>_.
         pass_fail (with_durable_state Protocol StateRecovering (lit (diag_message diagnostic))))
     | Inl (ScanTransport message) \<Rightarrow>
         pass_bind (reconcile_with_durable_state env (derived_generation derived) ContinueRecovery
                     (Some (from_redacted_message ReconciliationPending message))
                     StateRecovering) (\<lambda>_.
         pass_fail (with_durable_state Transport StateRecovering message)))"

definition spent_diagnostic :: ChainSubmissionDiagnostic where
  "spent_diagnostic = from_redacted_message NullifierAlreadySpent
     (lit ''vote chain reported nullifier already spent after ambiguous dispatch'')"

definition end_hashless ::
  "('d, 'ev) pass_env \<Rightarrow> DerivedChainSubmission \<Rightarrow> ('d, ChainSubmissionResult) submission_pass" where
  "end_hashless env derived =
     pass_bind (classify_dispatched_post env (derived_generation derived)
                 (ObservedSubmittedWithoutHash spent_diagnostic)) report"

definition settle_nullifier_spent_after_dispatch ::
  "('d, 'ev) pass_env \<Rightarrow> u64 \<Rightarrow> StoreAdvancementRequest \<Rightarrow> DerivedChainSubmission
   \<Rightarrow> StoredChainSubmission \<Rightarrow> ChainRecoveryMode \<Rightarrow> ('d, ChainSubmissionResult) submission_pass" where
  "settle_nullifier_spent_after_dispatch env epoch request derived current recovery =
     (if recovery = StatusOnly then end_hashless env derived
      else
        pass_bind (scan_tree env (request_identity request) derived None) (\<lambda>scanned.
        case scanned of
          ScanMatch van vcs \<Rightarrow> coordinator_confirm_tree env epoch request derived van vcs
        | ScanNoMatch _ \<Rightarrow> end_hashless env derived
        | ScanInterrupted \<Rightarrow> report current))"

section \<open>Dispatching\<close>

definition imported_dispatch_diagnostic :: ChainSubmissionDiagnostic where
  "imported_dispatch_diagnostic = from_redacted_message InvalidProtocolResponse
     (lit ''a capability-imported delegation cannot be dispatched by the voter'')"

text \<open>
  The arms of \<open>submit_to_endpoint\<close> that cannot be reached for a bound request: a batch request
  whose identity has no batch digest.
\<close>

fun dispatchable :: "ChainSubmissionRequest \<Rightarrow> ChainSubmissionTarget \<Rightarrow> bool" where
  "dispatchable (DelegateAndVoteBatchRequest _ _ _) t = (batch_digest t \<noteq> None)"
| "dispatchable (VoteBatchRequest _ _) (VoteBatch _) = True"
| "dispatchable (VoteBatchRequest _ _) _ = False"
| "dispatchable _ _ = True"

text \<open>
  \<open>submit_to_endpoint\<close> raced against interruption.  A capability-imported delegation never
  reaches the transport, so its dispatch marker stays clear.
\<close>

definition submit_to_endpoint ::
  "('d, 'ev) pass_env \<Rightarrow> nat \<Rightarrow> DerivedChainSubmission \<Rightarrow> ('d, PostRace) submission_pass" where
  "submit_to_endpoint env endpoint_index derived =
     (if imported_candidate derived \<noteq> None then
        sample (\<lambda>t. case env_post env t endpoint_index (wire_request derived) of
            PostInterrupted reason _ \<Rightarrow> PostInterrupted reason False
          | PostReturned _ \<Rightarrow> PostReturned (PostLocalFailure imported_dispatch_diagnostic))
      else if \<not> dispatchable (wire_request derived) (target (gen_identity (derived_generation derived)))
      then pass_panic
      else (\<lambda>w. let race = env_post env (tick w) endpoint_index (wire_request derived) in
        (Inr race, w\<lparr>tick := Suc (tick w),
           posts := posts w @ [\<lparr>post_generation = derived_generation derived,
             post_endpoint = endpoint_index, post_race = race, post_db = world_db w\<rparr>]\<rparr>)))"

text \<open>The endpoint rotates with the durable reservation ordinal; no endpoint is a panic.\<close>

definition endpoint_for ::
  "('d, 'ev) pass_env \<Rightarrow> StoredChainSubmission \<Rightarrow> ('d, nat) submission_pass" where
  "endpoint_for env reserved =
     (if env_endpoint_count env = 0 then pass_panic
      else pass_return ((unat (committed_post_reservations reserved) - 1) mod env_endpoint_count env))"

definition unsent_message :: "PostAttemptOutcome \<Rightarrow> unicode" where
  "unsent_message outcome =
     (case outcome of
        PostDefinitelyUnsent message \<Rightarrow> message
      | _ \<Rightarrow> lit ''vote-chain request body timed out before server broadcast'')"

definition ambiguous_interruption :: "Interruption \<Rightarrow> PostAttemptOutcome" where
  "ambiguous_interruption reason =
     PostPossiblyDispatched (from_redacted_message AmbiguousDispatch (after_dispatch_message reason))"

section \<open>Reconciliation\<close>

text \<open>
  \<open>remaining\<close> is \<open>maximum_post_attempts\<close> minus the attempts this invocation has used; \<open>retry\<close> is
  \<open>submit_recovery_retry\<close> with that budget.
\<close>

definition recover_if_enabled ::
  "('d, 'ev) pass_env \<Rightarrow> u64 \<Rightarrow> StoreAdvancementRequest \<Rightarrow> ChainRecoveryMode \<Rightarrow> nat
   \<Rightarrow> (DerivedChainSubmission \<Rightarrow> StoredChainSubmission \<Rightarrow> ('d, ChainSubmissionResult) submission_pass)
   \<Rightarrow> DerivedChainSubmission \<Rightarrow> StoredChainSubmission
   \<Rightarrow> ('d, ChainSubmissionResult) submission_pass" where
  "recover_if_enabled env epoch request recovery remaining retry derived record =
     (case stored_state record of
        Recovering candidate _ \<Rightarrow>
          if recovery = StatusOnly \<or> is_imported_delegation request then report record
          else
            pass_bind (check_interruption env epoch) (\<lambda>interrupted.
            if interrupted \<noteq> None then report record
            else
              pass_bind (scan_tree env (request_identity request) derived candidate) (\<lambda>scanned.
              case scanned of
                ScanMatch van vcs \<Rightarrow> coordinator_confirm_tree env epoch request derived van vcs
              | ScanInterrupted \<Rightarrow> report record
              | ScanNoMatch authorization \<Rightarrow>
                  if remaining = 0 then report record
                  else
                    pass_bind (check_interruption env epoch) (\<lambda>interrupted.
                    if interrupted \<noteq> None then report record
                    else
                      let used = maximum_post_attempts (env_policy env) - remaining in
                      pass_bind (if used > 0
                                 then pass_bind (pass_index (retry_backoffs (env_policy env)) (used - 1))
                                        (\<lambda>backoff. sample (\<lambda>t. env_backoff env t backoff))
                                 else pass_return None) (\<lambda>interrupted.
                      if interrupted \<noteq> None then report record
                      else
                        pass_bind (check_interruption env epoch) (\<lambda>interrupted.
                        if interrupted \<noteq> None then report record
                        else
                          pass_bind (pass_map_err (replace_state StateRecovering) (now_seconds env)) (\<lambda>now.
                          pass_bind (pass_map_err (attach_state (record_durable_state record))
                              (store_op env (\<lambda>f. reserve_recovery_retry (env_ops env) f request
                                  authorization now)))
                            (retry derived)))))))
      | _ \<Rightarrow> report record)"

definition is_terminal_candidate ::
  "StoreAdvancementRequest \<Rightarrow> DerivedChainSubmission \<Rightarrow> bool" where
  "is_terminal_candidate request derived \<longleftrightarrow>
     is_imported_delegation request \<or> is_combined (target (gen_identity (derived_generation derived)))"

definition tracked_failure_diagnostic :: ChainSubmissionDiagnostic where
  "tracked_failure_diagnostic = from_redacted_message ChainRejected
     (lit ''tracked vote-chain transaction committed unsuccessfully'')"

definition recovered_failure_diagnostic :: "StoreAdvancementRequest \<Rightarrow> ChainSubmissionDiagnostic" where
  "recovered_failure_diagnostic request = from_redacted_message ChainRejected
     (if is_imported_delegation request
      then lit ''imported vote-chain transaction committed unsuccessfully''
      else lit ''combined vote-chain transaction committed unsuccessfully'')"

definition recovery_candidate_failure_diagnostic :: ChainSubmissionDiagnostic where
  "recovery_candidate_failure_diagnostic = from_redacted_message ChainRejected
     (lit ''recovery candidate committed unsuccessfully'')"

text \<open>The \<open>Tracking\<close> arm of \<open>reconcile_existing\<close>; \<open>recover\<close> is \<open>recover_if_enabled\<close>.\<close>

definition reconcile_tracking ::
  "('d, 'ev) pass_env \<Rightarrow> u64 \<Rightarrow> StoreAdvancementRequest
   \<Rightarrow> (StoredChainSubmission \<Rightarrow> ('d, ChainSubmissionResult) submission_pass)
   \<Rightarrow> DerivedChainSubmission \<Rightarrow> StoredChainSubmission \<Rightarrow> CandidateTransactionHash
   \<Rightarrow> ('d, ChainSubmissionResult) submission_pass" where
  "reconcile_tracking env epoch request recover derived record candidate =
     pass_bind (check_interruption env epoch) (\<lambda>interrupted.
     if interrupted \<noteq> None then report record
     else
       pass_bind (sample (\<lambda>t. env_lookup env t candidate)) (\<lambda>progress.
       case progress of
         LookupInterrupted \<Rightarrow> report record
       | LookupObserved StatusPending \<Rightarrow>
           pass_bind (finish_inconclusive_tracking env derived record None) recover
       | LookupFailed failure \<Rightarrow>
           pass_bind (tracking_expired env record) (\<lambda>expired.
           if expired
           then pass_bind (finish_inconclusive_tracking env derived record
                            (Some (lookup_diagnostic failure))) recover
           else pass_bind (reconcile_with_durable_state env (derived_generation derived)
                             CandidatePending (Some (lookup_diagnostic failure)) StateTracking) (\<lambda>_.
                  pass_fail (lookup_failure failure StateTracking)))
       | LookupObserved CommittedFailure \<Rightarrow>
           pass_bind (reconcile_with_durable_state env (derived_generation derived)
               (if is_terminal_candidate request derived
                then TerminalCandidateFailure tracked_failure_diagnostic
                else CandidateCommittedFailure tracked_failure_diagnostic)
               (Some tracked_failure_diagnostic) StateTracking) report
       | LookupObserved (CommittedSuccess committed) \<Rightarrow>
           coordinator_confirm env epoch request derived candidate committed StateTracking))"

text \<open>The arm of \<open>reconcile_existing\<close> for a recovering row that still has its candidate.\<close>

definition reconcile_recovering ::
  "('d, 'ev) pass_env \<Rightarrow> u64 \<Rightarrow> StoreAdvancementRequest
   \<Rightarrow> (StoredChainSubmission \<Rightarrow> ('d, ChainSubmissionResult) submission_pass)
   \<Rightarrow> DerivedChainSubmission \<Rightarrow> StoredChainSubmission \<Rightarrow> CandidateTransactionHash
   \<Rightarrow> ('d, ChainSubmissionResult) submission_pass" where
  "reconcile_recovering env epoch request recover derived record candidate =
     pass_bind (check_interruption env epoch) (\<lambda>interrupted.
     if interrupted \<noteq> None then report record
     else
       pass_bind (sample (\<lambda>t. env_lookup env t candidate)) (\<lambda>progress.
       case progress of
         LookupInterrupted \<Rightarrow> report record
       | LookupObserved (CommittedSuccess committed) \<Rightarrow>
           coordinator_confirm env epoch request derived candidate committed StateRecovering
       | LookupObserved CommittedFailure \<Rightarrow>
           if is_terminal_candidate request derived
           then pass_bind (reconcile_with_durable_state env (derived_generation derived)
                  (TerminalCandidateFailure (recovered_failure_diagnostic request))
                  (Some (recovered_failure_diagnostic request)) StateRecovering) report
           else pass_bind (reconcile_with_durable_state env (derived_generation derived)
                  (CandidateCommittedFailure recovery_candidate_failure_diagnostic) None
                  StateRecovering) recover
       | LookupObserved StatusPending \<Rightarrow>
           pass_bind (reconcile_with_durable_state env (derived_generation derived)
               CandidatePending None StateRecovering) recover
       | LookupFailed failure \<Rightarrow>
           pass_bind (reconcile_with_durable_state env (derived_generation derived)
               ContinueRecovery (Some (lookup_diagnostic failure)) StateRecovering) recover))"

definition reconcile_existing ::
  "('d, 'ev) pass_env \<Rightarrow> u64 \<Rightarrow> StoreAdvancementRequest \<Rightarrow> ChainRecoveryMode \<Rightarrow> nat
   \<Rightarrow> (DerivedChainSubmission \<Rightarrow> StoredChainSubmission \<Rightarrow> ('d, ChainSubmissionResult) submission_pass)
   \<Rightarrow> DerivedChainSubmission \<Rightarrow> StoredChainSubmission
   \<Rightarrow> ('d, ChainSubmissionResult) submission_pass" where
  "reconcile_existing env epoch request recovery remaining retry derived record =
     (let recover = recover_if_enabled env epoch request recovery remaining retry derived in
      case stored_state record of
        Tracking candidate \<Rightarrow> reconcile_tracking env epoch request recover derived record candidate
      | Recovering None _ \<Rightarrow> recover record
      | Recovering (Some candidate) _ \<Rightarrow>
          reconcile_recovering env epoch request recover derived record candidate
      | _ \<Rightarrow> report record)"

section \<open>The POST loop\<close>

text \<open>Whether an attempt ended the pass or leaves a row to attempt again.\<close>

datatype 'a flow = Done ChainSubmissionResult | Continue 'a

definition finish :: "('d, ChainSubmissionResult) submission_pass \<Rightarrow> ('d, 'a flow) submission_pass" where
  "finish m = pass_bind m (\<lambda>result. pass_return (Done result))"

text \<open>
  The match on the outcome of one POST of \<open>submit_reserved_attempts\<close>; \<open>reconcile\<close> is
  \<open>reconcile_existing\<close> with the attempts left, and a \<open>Continue\<close> carries the loop's \<open>reserved\<close> and
  \<open>ambiguity_seen\<close>.
\<close>

definition attempt_outcome ::
  "('d, 'ev) pass_env \<Rightarrow> u64 \<Rightarrow> StoreAdvancementRequest \<Rightarrow> ChainRecoveryMode \<Rightarrow> bool
   \<Rightarrow> (StoredChainSubmission \<Rightarrow> ('d, ChainSubmissionResult) submission_pass)
   \<Rightarrow> DerivedChainSubmission \<Rightarrow> StoredChainSubmission \<Rightarrow> bool \<Rightarrow> PostAttemptOutcome
   \<Rightarrow> ('d, (StoredChainSubmission \<times> bool) flow) submission_pass" where
  "attempt_outcome env epoch request recovery final_attempt continue_with derived reserved
       ambiguity_seen outcome =
     (let gen = derived_generation derived in
      case outcome of
        PostAccepted candidate \<Rightarrow>
          pass_bind (classify_dispatched_post env gen (UsableCandidateHash candidate)) (\<lambda>record.
          if returned_candidate_is_unusable (stored_state record)
          then pass_return (Continue (record, True))
          else finish (continue_with record))
      | PostRejected kind diagnostic \<Rightarrow>
          if ambiguity_seen \<and> kind = NullifierSpentRejection
          then finish (settle_nullifier_spent_after_dispatch env epoch request derived reserved recovery)
          else
            pass_bind (classify_dispatched_post env gen
                (if \<not> ambiguity_seen \<and> is_combined (target (gen_identity gen))
                    \<and> kind \<noteq> NullifierSpentRejection
                 then TerminalRejection diagnostic else DefiniteRejection diagnostic)) (\<lambda>record.
            if ambiguity_seen
            then pass_fail (with_durable_state Protocol (record_durable_state record)
                   (lit (diag_message diagnostic)))
            else finish (report record))
      | PostPossiblyDispatched diagnostic \<Rightarrow>
          pass_bind (classify_dispatched_post env gen (PossiblyDispatched diagnostic)) (\<lambda>record.
          pass_bind (check_interruption env epoch) (\<lambda>interrupted.
          if interrupted \<noteq> None then finish (report record)
          else pass_return (Continue (record, True))))
      | PostLocalFailure diagnostic \<Rightarrow>
          if \<not> ambiguity_seen
          then pass_bind (remove_fresh env gen) (\<lambda>_.
                 pass_fail (without_state Protocol (lit (diag_message diagnostic))))
          else pass_fail (with_durable_state Protocol StateRecovering (lit (diag_message diagnostic)))
      | _ \<Rightarrow>
          let message = unsent_message outcome in
          pass_bind (if ambiguity_seen
                     then reconcile_with_durable_state env gen DefinitelyNotDispatched
                            (Some (from_redacted_message ReconciliationPending message))
                            StateRecovering
                     else pass_bind (remove_fresh env gen) (\<lambda>_. pass_return reserved)) (\<lambda>record.
          if final_attempt
          then pass_fail (if ambiguity_seen then with_durable_state Transport StateRecovering message
                          else without_state Transport message)
          else pass_return (Continue (record, ambiguity_seen))))"

text \<open>
  The end of one iteration: the backoff and the reservation of the next attempt, either of the
  ambiguous row or, after an unsent first attempt, by admitting the same generation again.
\<close>

definition next_attempt ::
  "('d, 'ev) pass_env \<Rightarrow> StoreAdvancementRequest \<Rightarrow> nat
   \<Rightarrow> DerivedChainSubmission \<Rightarrow> StoredChainSubmission \<Rightarrow> bool
   \<Rightarrow> ('d, (DerivedChainSubmission \<times> StoredChainSubmission) flow) submission_pass" where
  "next_attempt env request attempt_index derived reserved ambiguity_seen =
     pass_bind (pass_index (retry_backoffs (env_policy env)) attempt_index) (\<lambda>backoff.
     if ambiguity_seen then
       pass_bind (reserve_ambiguous_retry_after_backoff env backoff (derived_generation derived) reserved)
         (\<lambda>reservation. case reservation of
            RetryReserved record \<Rightarrow> pass_return (Continue (derived, record))
          | RetryInterrupted record \<Rightarrow> finish (report record))
     else
       pass_bind (sample (\<lambda>t. env_backoff env t backoff)) (\<lambda>interrupted.
       case interrupted of
         Some reason \<Rightarrow> finish (interrupted_without_state reason)
       | None \<Rightarrow>
           pass_bind (now_seconds env) (\<lambda>now.
           pass_bind (store_op env (\<lambda>f. admit (env_ops env) f request True
               (of_nat (attempt_index + 2)) now)) (\<lambda>admission.
           case admission of
             Ready retried record fresh \<Rightarrow>
               if fresh \<and> derived_generation retried = derived_generation derived
               then pass_return (Continue (retried, record))
               else finish (report record)
           | Authoritative record \<Rightarrow> finish (report record)
           | AbandonedReservation record \<Rightarrow> finish (report record)
           | NoAuthoritativeState \<Rightarrow> pass_fail (without_state InvariantViolation
               (lit ''non-dispatched retry did not reserve the same generation''))))))"

text \<open>
  The start of one attempt: interruption, the in-flight registration, and the POST itself raced
  against interruption.  \<open>Inl\<close> ends the pass, \<open>Inr\<close> carries the outcome.
\<close>

definition start_attempt ::
  "('d, 'ev) pass_env \<Rightarrow> u64 \<Rightarrow> DerivedChainSubmission \<Rightarrow> StoredChainSubmission \<Rightarrow> bool
   \<Rightarrow> ('d, PostAttemptOutcome flow) submission_pass" where
  "start_attempt env epoch derived reserved ambiguity_seen =
     (let gen = derived_generation derived;
          leave = (\<lambda>reason.
            if ambiguity_seen then finish (report reserved)
            else pass_bind (remove_fresh env gen) (\<lambda>_. finish (interrupted_without_state reason)))
      in
      pass_bind (check_interruption env epoch) (\<lambda>interrupted.
      case interrupted of
        Some reason \<Rightarrow> leave reason
      | None \<Rightarrow>
          pass_bind (sample (env_register env)) (\<lambda>registered.
          case registered of
            Some error \<Rightarrow>
              pass_bind (if ambiguity_seen then pass_return () else remove_fresh env gen) (\<lambda>_.
              pass_fail error)
          | None \<Rightarrow>
              pass_bind (endpoint_for env reserved) (\<lambda>endpoint_index.
              pass_bind (submit_to_endpoint env endpoint_index derived) (\<lambda>race.
              case race of
                PostReturned outcome \<Rightarrow> pass_return (Continue outcome)
              | PostInterrupted reason possible \<Rightarrow>
                  if \<not> possible then leave reason
                  else pass_return (Continue (ambiguous_interruption reason)))))))"

text \<open>
  The single POST of \<open>submit_recovery_retry\<close> up to the point where it ends the pass or leaves an
  ambiguous row.
\<close>

definition recovery_outcome ::
  "('d, 'ev) pass_env \<Rightarrow> u64 \<Rightarrow> StoreAdvancementRequest \<Rightarrow> ChainRecoveryMode
   \<Rightarrow> DerivedChainSubmission \<Rightarrow> StoredChainSubmission \<Rightarrow> PostAttemptOutcome
   \<Rightarrow> ('d, StoredChainSubmission flow) submission_pass" where
  "recovery_outcome env epoch request recovery derived reserved outcome =
     (let gen = derived_generation derived in
      case outcome of
        PostAccepted candidate \<Rightarrow>
          pass_bind (classify_dispatched_post env gen (UsableCandidateHash candidate)) (\<lambda>record.
          if \<not> returned_candidate_is_unusable (stored_state record) then finish (report record)
          else pass_return (Continue record))
      | PostPossiblyDispatched diagnostic \<Rightarrow>
          pass_bind (classify_dispatched_post env gen (PossiblyDispatched diagnostic)) (\<lambda>record.
          pass_return (Continue record))
      | PostRejected kind diagnostic \<Rightarrow>
          if has_unresolved_dispatch (stored_state reserved) \<and> kind = NullifierSpentRejection
          then finish (settle_nullifier_spent_after_dispatch env epoch request derived reserved recovery)
          else
            pass_bind (classify_dispatched_post env gen (DefiniteRejection diagnostic)) (\<lambda>record.
            pass_fail (with_durable_state Protocol (record_durable_state record)
              (lit (diag_message diagnostic))))
      | PostLocalFailure diagnostic \<Rightarrow>
          pass_bind (reconcile_with_durable_state env gen ContinueRecovery (Some diagnostic)
              StateRecovering) (\<lambda>_.
          pass_fail (with_durable_state Protocol StateRecovering (lit (diag_message diagnostic))))
      | _ \<Rightarrow>
          pass_bind (reconcile_with_durable_state env gen DefinitelyNotDispatched
              (Some (from_redacted_message ReconciliationPending (unsent_message outcome)))
              StateRecovering) (\<lambda>_.
          pass_fail (with_durable_state Transport StateRecovering (unsent_message outcome))))"

definition start_recovery_retry ::
  "('d, 'ev) pass_env \<Rightarrow> u64 \<Rightarrow> DerivedChainSubmission \<Rightarrow> StoredChainSubmission
   \<Rightarrow> ('d, PostAttemptOutcome flow) submission_pass" where
  "start_recovery_retry env epoch derived reserved =
     pass_bind (check_interruption env epoch) (\<lambda>interrupted.
     if interrupted \<noteq> None then finish (report reserved)
     else
       pass_bind (sample (env_register env)) (\<lambda>registered.
       case registered of
         Some error \<Rightarrow> pass_fail (replace_state StateRecovering error)
       | None \<Rightarrow>
           pass_bind (endpoint_for env reserved) (\<lambda>endpoint_index.
           pass_bind (submit_to_endpoint env endpoint_index derived) (\<lambda>race.
           case race of
             PostReturned outcome \<Rightarrow> pass_return (Continue outcome)
           | PostInterrupted reason possible \<Rightarrow>
               if \<not> possible then finish (report reserved)
               else pass_return (Continue (ambiguous_interruption reason))))))"

definition after_flow ::
  "('a \<Rightarrow> ('d, ChainSubmissionResult) submission_pass) \<Rightarrow> 'a flow
   \<Rightarrow> ('d, ChainSubmissionResult) submission_pass" where
  "after_flow continue_with flow =
     (case flow of Done result \<Rightarrow> pass_return result | Continue a \<Rightarrow> continue_with a)"

fun attempt_loop ::
  "('d, 'ev) pass_env \<Rightarrow> u64 \<Rightarrow> StoreAdvancementRequest \<Rightarrow> ChainRecoveryMode \<Rightarrow> nat
   \<Rightarrow> DerivedChainSubmission \<Rightarrow> StoredChainSubmission \<Rightarrow> bool
   \<Rightarrow> ('d, ChainSubmissionResult) submission_pass"
and submit_recovery_retry ::
  "('d, 'ev) pass_env \<Rightarrow> u64 \<Rightarrow> StoreAdvancementRequest \<Rightarrow> ChainRecoveryMode \<Rightarrow> nat
   \<Rightarrow> DerivedChainSubmission \<Rightarrow> StoredChainSubmission
   \<Rightarrow> ('d, ChainSubmissionResult) submission_pass" where
  "attempt_loop env epoch request recovery 0 derived reserved ambiguity_seen = pass_panic"
| "attempt_loop env epoch request recovery (Suc remaining) derived reserved ambiguity_seen =
     pass_bind (start_attempt env epoch derived reserved ambiguity_seen) (after_flow (\<lambda>outcome.
     pass_bind (attempt_outcome env epoch request recovery (remaining = 0)
         (reconcile_existing env epoch request recovery remaining
            (\<lambda>d r. submit_recovery_retry env epoch request recovery remaining d r) derived)
         derived reserved ambiguity_seen outcome) (after_flow (\<lambda>(record, ambiguous).
     if remaining = 0 then report record
     else
       pass_bind (next_attempt env request
           (maximum_post_attempts (env_policy env) - Suc remaining) derived record ambiguous)
         (after_flow (\<lambda>(next_derived, next_record).
            attempt_loop env epoch request recovery remaining next_derived next_record ambiguous))))))"
| "submit_recovery_retry env epoch request recovery 0 derived reserved = pass_panic"
| "submit_recovery_retry env epoch request recovery (Suc remaining) derived reserved =
     pass_bind (start_recovery_retry env epoch derived reserved) (after_flow (\<lambda>outcome.
     pass_bind (recovery_outcome env epoch request recovery derived reserved outcome)
       (after_flow (\<lambda>ambiguous.
     if remaining = 0 then report ambiguous
     else
       pass_bind (check_interruption env epoch) (\<lambda>interrupted.
       if interrupted \<noteq> None then report ambiguous
       else
         pass_bind (pass_index (retry_backoffs (env_policy env))
             (maximum_post_attempts (env_policy env) - Suc remaining)) (\<lambda>backoff.
         pass_bind (reserve_ambiguous_retry_after_backoff env backoff (derived_generation derived)
             ambiguous) (\<lambda>reservation.
         case reservation of
           RetryInterrupted record \<Rightarrow> report record
         | RetryReserved record \<Rightarrow>
             attempt_loop env epoch request recovery remaining derived record
               (permits_ambiguous_retry (stored_state record)))))))))"

definition submit_reserved_attempts ::
  "('d, 'ev) pass_env \<Rightarrow> u64 \<Rightarrow> StoreAdvancementRequest \<Rightarrow> ChainRecoveryMode
   \<Rightarrow> DerivedChainSubmission \<Rightarrow> StoredChainSubmission
   \<Rightarrow> ('d, ChainSubmissionResult) submission_pass" where
  "submit_reserved_attempts env epoch request recovery derived reserved =
     attempt_loop env epoch request recovery (maximum_post_attempts (env_policy env)) derived reserved
       (permits_ambiguous_retry (stored_state reserved))"

section \<open>Advancement\<close>

definition readmit_abandoned ::
  "('d, 'ev) pass_env \<Rightarrow> u64 \<Rightarrow> StoreAdvancementRequest \<Rightarrow> ChainRecoveryMode \<Rightarrow> u64 \<Rightarrow> StoreAdmission
   \<Rightarrow> ('d, StoreAdmission) submission_pass" where
  "readmit_abandoned env epoch request recovery now admission =
     (case admission of
        AbandonedReservation record \<Rightarrow>
          if recovery = ExactTree then
            pass_bind (check_interruption env epoch) (\<lambda>interrupted.
            if interrupted = None
            then pass_map_err (\<lambda>error. preserve_loaded_state error (Some record))
                   (store_op env (\<lambda>f. admit (env_ops env) f request True 1 now))
            else pass_return admission)
          else pass_return admission
      | _ \<Rightarrow> pass_return admission)"

definition advance_ready ::
  "('d, 'ev) pass_env \<Rightarrow> u64 \<Rightarrow> StoreAdvancementRequest \<Rightarrow> ChainRecoveryMode
   \<Rightarrow> DerivedChainSubmission \<Rightarrow> StoredChainSubmission \<Rightarrow> bool
   \<Rightarrow> ('d, ChainSubmissionResult) submission_pass" where
  "advance_ready env epoch request recovery derived record fresh =
     (if fresh then submit_reserved_attempts env epoch request recovery derived record
      else
        pass_bind (if recovery = StatusOnly \<and> permits_ambiguous_retry (stored_state record)
                      \<and> \<not> is_imported_delegation request
                   then pass_bind (check_interruption env epoch) (\<lambda>i. pass_return (i = None))
                   else pass_return False) (\<lambda>redispatch.
        if redispatch then
          pass_bind (pass_map_err (replace_state (record_durable_state record)) (now_seconds env)) (\<lambda>now.
          pass_bind (pass_map_err (attach_state (record_durable_state record))
              (store_op env (\<lambda>f. reserve_ambiguous_retry (env_ops env) f
                  (derived_generation derived) now)))
            (submit_reserved_attempts env epoch request recovery derived))
        else
          reconcile_existing env epoch request recovery (maximum_post_attempts (env_policy env))
            (submit_recovery_retry env epoch request recovery (maximum_post_attempts (env_policy env)))
            derived record))"

definition advance_in_epoch ::
  "('d, 'ev) pass_env \<Rightarrow> StoreAdvancementRequest \<Rightarrow> ChainRecoveryMode \<Rightarrow> u64
   \<Rightarrow> ('d, ChainSubmissionResult) submission_pass" where
  "advance_in_epoch env request recovery epoch =
     pass_bind (sample (env_acquire env)) (\<lambda>acquired.
     case acquired of
       Some error \<Rightarrow> pass_fail error
     | None \<Rightarrow>
         pass_bind (check_interruption env epoch) (\<lambda>interrupted.
         pass_bind (now_seconds env) (\<lambda>now.
         pass_bind (store_op env (\<lambda>f. admit (env_ops env) f request (interrupted = None) 1 now))
           (\<lambda>admitted.
         pass_bind (readmit_abandoned env epoch request recovery now admitted) (\<lambda>admission.
         case admission of
           NoAuthoritativeState \<Rightarrow>
             pass_bind (check_interruption env epoch) (\<lambda>interrupted.
             case interrupted of
               Some Cancelled \<Rightarrow> pass_return ResultCancelled
             | Some StaleEpoch \<Rightarrow> pass_fail (without_state InvalidInput
                 (lit ''host operation epoch changed before chain submission''))
             | None \<Rightarrow> pass_fail (without_state InvariantViolation
                 (lit ''admission returned no state for an active operation'')))
         | Authoritative record \<Rightarrow> report record
         | AbandonedReservation record \<Rightarrow> report record
         | Ready derived record fresh \<Rightarrow>
             advance_ready env epoch request recovery derived record fresh)))))"

text \<open>The epoch of an independent pass is sampled when it starts.\<close>

definition advance_with_recovery ::
  "('d, 'ev) pass_env \<Rightarrow> StoreAdvancementRequest \<Rightarrow> ChainRecoveryMode
   \<Rightarrow> ('d, ChainSubmissionResult) submission_pass" where
  "advance_with_recovery env request recovery =
     pass_bind (sample (env_epoch env)) (advance_in_epoch env request recovery)"

end
