(* ===== verification/Submission_Rows.thy ===== *)
theory Submission_Rows
  imports Submission_Coordinator
begin

text \<open>
  What each operation of the SQLite store leaves behind for one submission: the row a pass works
  on is compared with the record the operation returned, up to the text of diagnostics, which a
  reload may escape again.  The proofs about the coordinator rest on these facts and not on the
  database.
\<close>

section \<open>The row of a pass\<close>

text \<open>A state without the text of its diagnostic, which a reload may escape again.\<close>

fun skeleton :: "SubmissionRecordState \<Rightarrow> SubmissionRecordState" where
  "skeleton (Recovering h d) = Recovering h (d\<lparr>diag_message := []\<rparr>)"
| "skeleton (SubmittedWithoutHash d) = SubmittedWithoutHash (d\<lparr>diag_message := []\<rparr>)"
| "skeleton (Rejected d) = Rejected (d\<lparr>diag_message := []\<rparr>)"
| "skeleton s = s"

definition agrees :: "StoredChainSubmission \<Rightarrow> StoredChainSubmission \<Rightarrow> bool" where
  "agrees r q \<longleftrightarrow>
     stored_identity r = stored_identity q \<and> stored_digest r = stored_digest q
     \<and> skeleton (stored_state r) = skeleton (stored_state q)
     \<and> committed_post_reservations r = committed_post_reservations q"

definition row_in :: "'d voting_db \<Rightarrow> ChainSubmissionIdentity \<Rightarrow> StoredChainSubmission \<Rightarrow> bool" where
  "row_in db i r \<longleftrightarrow> (\<exists>rs q. db_rep db rs \<and> lookup_record rs i = Some q \<and> agrees r q)"

definition no_row :: "'d voting_db \<Rightarrow> ChainSubmissionIdentity \<Rightarrow> bool" where
  "no_row db i \<longleftrightarrow> (\<exists>rs. db_rep db rs \<and> lookup_record rs i = None)"

lemma skeleton_reload [simp]: "skeleton (reload_state s) = skeleton s"
  by (cases s) (simp_all add: reload_diagnostic_def from_redacted_message_def)

lemma agrees_refl [simp]: "agrees r r"
  by (simp add: agrees_def)

lemma agrees_reload [simp]: "agrees (reload q) q"
  by (simp add: agrees_def)

lemma skeleton_eq:
  assumes "skeleton s = skeleton t"
  shows "durable_state s = durable_state t" "permits_ambiguous_retry s = permits_ambiguous_retry t"
    "(s = Submitting) = (t = Submitting)" "returned_candidate_is_unusable s = returned_candidate_is_unusable t"
    "candidate_of (Some s) = candidate_of (Some t)" "is_terminal s = is_terminal t"
    "is_rejected s = is_rejected t"
proof -
  have kinds: "d\<lparr>diag_message := []\<rparr> = e\<lparr>diag_message := []\<rparr> \<Longrightarrow> diag_kind d = diag_kind e"
    for d e :: ChainSubmissionDiagnostic
    by (metis ChainSubmissionDiagnostic.select_convs(1) ChainSubmissionDiagnostic.surjective
        ChainSubmissionDiagnostic.update_convs(2))
  show "durable_state s = durable_state t" "(s = Submitting) = (t = Submitting)"
    "returned_candidate_is_unusable s = returned_candidate_is_unusable t"
    "candidate_of (Some s) = candidate_of (Some t)" "is_terminal s = is_terminal t"
    "is_rejected s = is_rejected t"
    using assms by (cases s; cases t; auto elim: returned_candidate_is_unusable.elims)+
  show "permits_ambiguous_retry s = permits_ambiguous_retry t"
  proof (cases s)
    case (Recovering h d)
    then show ?thesis
      using assms by (cases t; cases h) (auto dest: kinds)
  qed (use assms in \<open>cases t; simp\<close>)+
qed

lemma row_in_rep: "row_in db i r \<Longrightarrow> \<exists>rs. db_rep db rs"
  by (auto simp add: row_in_def)

lemma no_row_rep: "no_row db i \<Longrightarrow> \<exists>rs. db_rep db rs"
  by (auto simp add: no_row_def)

lemma row_in_load:
  assumes "row_in db i r" "wf_identity i"
  shows "\<exists>q. load_submission ops db i = Inr (Some q) \<and> agrees q r"
proof -
  obtain rs q where rep: "db_rep db rs" and q: "lookup_record rs i = Some q" "agrees r q"
    using assms(1) by (auto simp add: row_in_def)
  then have "load_submission ops db i = Inr (Some (reload q))"
    by (simp add: load_submission_rep [OF rep assms(2)])
  with q(2) show ?thesis
    by (auto simp add: agrees_def)
qed

lemma no_row_load:
  "\<lbrakk>no_row db i; wf_identity i\<rbrakk> \<Longrightarrow> load_submission ops db i = Inr None"
  by (auto simp add: no_row_def load_submission_rep)

lemma row_in_replace:
  "\<lbrakk>db_rep db (replace_record r rs); lookup_record rs (stored_identity r) \<noteq> None\<rbrakk> \<Longrightarrow>
   row_in db (stored_identity r) r"
  by (auto simp add: row_in_def lookup_replace_record intro!: exI [of _ r]
      exI [of _ "replace_record r rs"])

section \<open>What the store operations leave behind\<close>

lemma persist_result:
  assumes "db_rep db rs" "lookup_record rs i = Some q" "persist_mutable ops db r' = Inr db'"
    and "wf_record r'" "record_step (reload q) r'"
  shows "db_rep db' (replace_record r' rs)" "row_in db' i r'" "stored_identity r' = i"
    "stored_digest r' = stored_digest q"
proof -
  have kept: "same_generation q r'"
    using assms(5) by (simp add: record_step_def)
  then show id: "stored_identity r' = i" and "stored_digest r' = stored_digest q"
    using wf_lookup [OF assms(1,2)] by (simp_all add: same_generation_def)
  then show "db_rep db' (replace_record r' rs)"
    using assms kept by (intro persist_mutable_db_rep [of db rs r' q ops]) simp_all
  with id assms(2) show "row_in db' i r'"
    using row_in_replace [of db' r' rs] by simp
qed

lemma transact_result:
  assumes "transact ops faults db operation = (Inr result, db')"
  shows "operation db = Inr (result, db')"
  using assms by (auto simp add: transact_def split: option.splits sum.splits prod.splits)

lemma ensure_generation_eq_Inr [simp]:
  "ensure_generation r gen = Inr u \<longleftrightarrow>
     stored_identity r = gen_identity gen \<and> stored_digest r = gen_digest gen"
  by (simp add: ensure_generation_def)

text \<open>
  A classified observation: the row carries the state the lifecycle gives it, or a combined
  generation was retired by its rejection.
\<close>

lemma apply_observation_row:
  assumes row: "row_in db (gen_identity gen) r" and id: "wf_identity (gen_identity gen)"
    and wf: "wf_observation obs" "wf_explicit d"
    and ok: "apply_observation ops faults gen obs d now db = (Inr r', db')"
  shows "stored_digest r' = gen_digest gen \<and> stored_digest r = gen_digest gen
    \<and> (\<exists>s. skeleton s = skeleton (stored_state r)
          \<and> apply_submission_observation (Some s) (effective_observation db (gen_identity gen) obs)
              = Inr (Some (stored_state r')))
    \<and> (row_in db' (gen_identity gen) r'
       \<or> is_combined (target (gen_identity gen)) \<and> is_rejected (stored_state r')
          \<and> no_row db' (gen_identity gen))"
proof -
  obtain rs q where rep: "db_rep db rs" and q: "lookup_record rs (gen_identity gen) = Some q"
    and agree: "agrees r q"
    using row by (auto simp add: row_in_def)
  have body: "apply_observation_body ops gen obs d now db = Inr (r', db')"
    using transact_result [OF ok [unfolded apply_observation_def]] .
  obtain s where gen: "stored_digest q = gen_digest gen"
    and step: "apply_submission_observation (Some (stored_state (reload q)))
         (effective_observation db (gen_identity gen) obs) = Inr (Some s)"
    and r': "r' = settle_after_transition (record_durable_state (reload q)) d now
         (reload q\<lparr>stored_state := s\<rparr>)"
    and written: "retires_combined_generation r' (record_durable_state (reload q))
          \<and> (\<exists>domain'. db' = delete_row (db\<lparr>domain := domain'\<rparr>)
                 (submission_identity_key (gen_identity gen)))
        \<or> persist_mutable ops db r' = Inr db'"
    using body
    by (auto simp add: apply_observation_body_def load_generation_rep [OF rep id] q Let_def
        split: if_splits)
  have wfq: "wf_record (reload q)" "stored_identity q = gen_identity gen"
    using wf_lookup [OF rep q] by auto
  have "wf_state s \<and> s \<noteq> Submitting"
    using apply_state_kept [OF step] wfq wf by (simp add: wf_record_def)
  then have wf': "wf_record r'"
    unfolding r' using wf_settle [OF wfq(1) _ _ wf(2)] by blast
  have state: "stored_state r' = s" "stored_digest r' = stored_digest q"
      "stored_identity r' = gen_identity gen"
    using wfq(2) by (simp_all add: r')
  from written have "row_in db' (gen_identity gen) r'
       \<or> is_combined (target (gen_identity gen)) \<and> is_rejected s \<and> no_row db' (gen_identity gen)"
  proof
    assume "persist_mutable ops db r' = Inr db'"
    moreover have "record_step (reload q) r'"
      unfolding r' by (rule record_step_settle [OF step])
    ultimately show ?thesis
      using persist_result(2) [OF rep q _ wf'] by blast
  next
    assume retired: "retires_combined_generation r' (record_durable_state (reload q))
      \<and> (\<exists>domain'. db' = delete_row (db\<lparr>domain := domain'\<rparr>)
           (submission_identity_key (gen_identity gen)))"
    then obtain domain' where "db' = delete_row (db\<lparr>domain := domain'\<rparr>)
        (submission_identity_key (gen_identity gen))"
      by blast
    then have "db_rep db' (remove_record (gen_identity gen) rs)"
      using delete_row_rep [of "db\<lparr>domain := domain'\<rparr>" rs] rep id by simp
    then have "no_row db' (gen_identity gen)"
      by (auto simp add: no_row_def lookup_remove_record)
    with retired state show ?thesis
      by (auto simp add: retires_combined_generation_def)
  qed
  moreover have "skeleton (stored_state (reload q)) = skeleton (stored_state r)"
    using agree by (simp add: agrees_def)
  ultimately show ?thesis
    using gen step state agree unfolding agrees_def by metis
qed

lemma remove_fresh_row:
  assumes row: "row_in db (gen_identity gen) r" and id: "wf_identity (gen_identity gen)"
    and ok: "remove_fresh_reservation ops faults gen db = (Inr u, db')"
  shows "no_row db' (gen_identity gen) \<and> stored_state r = Submitting"
proof -
  obtain rs q where rep: "db_rep db rs" and q: "lookup_record rs (gen_identity gen) = Some q"
    and agree: "agrees r q"
    using row by (auto simp add: row_in_def)
  have "stored_state (reload q) = Submitting"
    and db': "db' = delete_row db (submission_identity_key (gen_identity gen))"
    using transact_result [OF ok [unfolded remove_fresh_reservation_def]]
    by (auto simp add: load_generation_rep [OF rep id] q)
  then have "skeleton (stored_state r) = skeleton Submitting"
    using agree by (simp add: agrees_def)
  then have "stored_state r = Submitting"
    using skeleton_eq(3) by blast
  moreover have "db_rep db' (remove_record (gen_identity gen) rs)"
    unfolding db' using rep id by (rule delete_row_rep)
  ultimately show ?thesis
    by (auto simp add: no_row_def lookup_remove_record)
qed

lemma reserve_ambiguous_retry_row:
  assumes row: "row_in db (gen_identity gen) r" and id: "wf_identity (gen_identity gen)"
    and ok: "reserve_ambiguous_retry ops faults gen now db = (Inr r', db')"
  shows "row_in db' (gen_identity gen) r' \<and> stored_digest r' = gen_digest gen
    \<and> permits_ambiguous_retry (stored_state r')
    \<and> unat (committed_post_reservations r') = unat (committed_post_reservations r) + 1"
proof -
  obtain rs q where rep: "db_rep db rs" and q: "lookup_record rs (gen_identity gen) = Some q"
    and agree: "agrees r q"
    using row by (auto simp add: row_in_def)
  obtain n where gen: "stored_digest q = gen_digest gen"
    and permits: "permits_ambiguous_retry (stored_state (reload q))"
    and n: "next_reservation (committed_post_reservations q) = Some n"
    and r': "r' = reload q\<lparr>committed_post_reservations := n, updated_at := max now (updated_at q)\<rparr>"
    and written: "persist_mutable ops db r' = Inr db'"
    using transact_result [OF ok [unfolded reserve_ambiguous_retry_def]]
    by (auto simp add: reserve_ambiguous_retry_body_def load_generation_rep [OF rep id] q Let_def)
  have "wf_record r'"
    using wf_lookup [OF rep q] by (auto simp add: r' wf_record_def le_max_iff_disj)
  moreover have "record_step (reload q) r'"
    using next_reservation_le [OF n] permits_recovering [OF permits]
    by (auto simp add: r' record_step_def same_generation_def reload_state_Recovering)
  ultimately have "row_in db' (gen_identity gen) r'"
    using persist_result(2) [OF rep q written] by blast
  then show ?thesis
    using gen permits next_reservation_le [OF n] agree by (simp add: r' agrees_def)
qed

lemma reserve_recovery_retry_row:
  assumes row: "row_in db (auth_identity authorization) r" and id: "wf_identity (auth_identity authorization)"
    and ok: "reserve_recovery_retry ops faults request authorization now db = (Inr r', db')"
  shows "row_in db' (auth_identity authorization) r'
    \<and> stored_digest r' = auth_digest authorization \<and> (\<exists>d. stored_state r' = Recovering None d)"
proof -
  obtain rs q where rep: "db_rep db rs" and q: "lookup_record rs (auth_identity authorization) = Some q"
    using row by (auto simp add: row_in_def)
  obtain n d where gen: "stored_digest q = auth_digest authorization"
    and state: "stored_state (reload q) = Recovering (auth_candidate authorization) d"
    and n: "next_reservation (committed_post_reservations q) = Some n"
    and r': "r' = reload q\<lparr>committed_post_reservations := n,
        stored_state := without_candidate (stored_state (reload q)),
        updated_at := max now (updated_at q)\<rparr>"
    and written: "persist_mutable ops db r' = Inr db'"
    using transact_result [OF ok [unfolded reserve_recovery_retry_def]]
    by (auto simp add: reserve_recovery_retry_body_def load_generation_rep [OF rep id] q Let_def
        recovering_with_eq)
  have "wf_record r'"
    using wf_lookup [OF rep q] state by (auto simp add: r' wf_record_def le_max_iff_disj wf_hash_def)
  moreover have "record_step (reload q) r'"
    using next_reservation_le [OF n] state by (auto simp add: r' record_step_def same_generation_def)
  ultimately have "row_in db' (auth_identity authorization) r'"
    using persist_result(2) [OF rep q written] by blast
  then show ?thesis
    using gen state by (simp add: r')
qed

lemma commit_confirmation_row:
  assumes rep: "db_rep db rs" and q: "lookup_record rs i = Some q"
    and wf: "wf_confirmation validated"
      "length (vote_commitment_positions (confirmation validated)) < 2 ^ 32"
    and commit: "commit_confirmation ops db (reload q) derived validated now = Inr (result, db')"
  shows "\<exists>r'. result = CommitConfirmed r' \<and> row_in db' i r'"
proof -
  obtain applied domain' where
    step: "apply_submission_observation (Some (stored_state (reload q))) (ObservedConfirmed validated)
       = Inr applied"
    and written: "persist_mutable ops (db\<lparr>domain := domain'\<rparr>) (reload q\<lparr>stored_state := the applied,
       stored_diagnostic := None, updated_at := max now (updated_at q)\<rparr>) = Inr db'"
    and result: "result = CommitConfirmed (reload q\<lparr>stored_state := the applied,
       stored_diagnostic := None, updated_at := max now (updated_at q)\<rparr>)"
    using commit by (auto simp add: commit_confirmation_def Let_def)
  have applied: "applied = Some (Confirmed validated)"
    using step by (rule confirmed_not_removed)
  have rep': "db_rep (db\<lparr>domain := domain'\<rparr>) rs"
    using rep by simp
  have "wf_state (Confirmed validated)"
    using confirmed_state_wf [OF step _ wf] wf_lookup [OF rep q] by (simp add: wf_record_def)
  then have "wf_record (reload q\<lparr>stored_state := the applied, stored_diagnostic := None,
        updated_at := max now (updated_at q)\<rparr>)"
    using wf_lookup [OF rep q] by (auto simp add: wf_record_def le_max_iff_disj applied)
  moreover have "record_step (reload q) (reload q\<lparr>stored_state := the applied,
      stored_diagnostic := None, updated_at := max now (updated_at q)\<rparr>)"
    using apply_edge [OF step] apply_terminal_kept [OF _ step [unfolded applied]]
    by (auto simp add: record_step_def same_generation_def applied)
  ultimately show ?thesis
    using persist_result(2) [OF rep' q written] result by blast
qed

definition commit_record :: "ConfirmationCommit \<Rightarrow> StoredChainSubmission" where
  "commit_record commit = (case commit of CommitInterrupted r \<Rightarrow> r | CommitConfirmed r \<Rightarrow> r)"

lemma confirm_committed_row:
  assumes row: "row_in db (gen_identity gen) r" and id: "wf_identity (gen_identity gen)"
    and sound: "sound_domain ops"
    and ok: "confirm_committed ops faults request gen h events allowed now db = (Inr commit, db')"
  shows "row_in db' (gen_identity gen) (commit_record commit)"
proof -
  obtain rs q where rep: "db_rep db rs" and q: "lookup_record rs (gen_identity gen) = Some q"
    using row by (auto simp add: row_in_def)
  obtain derived where
    "commit = CommitInterrupted (reload q) \<and> db' = db
     \<or> (\<exists>v. ops_validate_confirmation ops (is_imported_delegation request) derived h events
           = Inr v \<and> commit_confirmation ops db (reload q) derived v now = Inr (commit, db'))"
    using transact_result [OF ok [unfolded confirm_committed_def]]
    by (auto simp add: confirm_committed_body_def load_generation_rep [OF rep id] q split: if_splits)
  moreover have "wf_confirmation v \<and> length (vote_commitment_positions (confirmation v)) < 2 ^ 32"
    if "ops_validate_confirmation ops (is_imported_delegation request) derived h events = Inr v" for v
    using that sound unfolding sound_domain_def by blast
  ultimately show ?thesis
    using rep q commit_confirmation_row [OF rep q]
    by (fastforce simp add: commit_record_def row_in_def)
qed

lemma confirm_tree_row:
  assumes row: "row_in db (gen_identity gen) r" and id: "wf_identity (gen_identity gen)"
    and vcs: "length vcs < 2 ^ 32"
    and ok: "confirm_tree ops faults request gen van vcs allowed now db = (Inr commit, db')"
  shows "row_in db' (gen_identity gen) (commit_record commit)"
proof -
  obtain rs q where rep: "db_rep db rs" and q: "lookup_record rs (gen_identity gen) = Some q"
    using row by (auto simp add: row_in_def)
  obtain derived where
    "commit = CommitInterrupted (reload q) \<and> db' = db
     \<or> (\<exists>v. confirmation_from_tree van vcs = Inr v
           \<and> commit_confirmation ops db (reload q) derived v now = Inr (commit, db'))"
    using transact_result [OF ok [unfolded confirm_tree_def]]
    by (auto simp add: confirm_tree_body_def load_generation_rep [OF rep id] q split: if_splits)
  moreover have "wf_confirmation v \<and> length (vote_commitment_positions (confirmation v)) < 2 ^ 32"
    if "confirmation_from_tree van vcs = Inr v" for v
    using that vcs confirmation_from_wf(2) [OF that] by (auto simp add: confirmation_from_tree_def)
  ultimately show ?thesis
    using rep q commit_confirmation_row [OF rep q]
    by (fastforce simp add: commit_record_def row_in_def)
qed

subsection \<open>Admission\<close>

text \<open>What an admission says of the row and of the derivation it returns.\<close>

definition admitted ::
  "('d, 'ev) domain_ops \<Rightarrow> StoreAdvancementRequest \<Rightarrow> 'd voting_db \<Rightarrow> StoreAdmission \<Rightarrow> 'd voting_db
   \<Rightarrow> bool" where
  "admitted ops request db admission db' \<longleftrightarrow>
     (let i = request_identity request in
      case admission of
        NoAuthoritativeState \<Rightarrow> no_row db' i
      | Authoritative r \<Rightarrow> row_in db' i r
      | AbandonedReservation r \<Rightarrow> row_in db' i r
      | Ready derived r fresh \<Rightarrow>
          row_in db' i r \<and> derive ops db (derivation request) = Inr derived
          \<and> stored_digest r = gen_digest (derived_generation derived)
          \<and> (if fresh then stored_state r = Submitting else stored_state r \<noteq> Submitting))"

lemma row_in_insert:
  assumes "db_rep db rs" "wf_record r" "in_sql_range r" "insert_row ops db (row_of r) = Inr db'"
  shows "row_in db' (stored_identity r) r"
  using insert_row_rep(1,2) [OF assms]
  by (auto simp add: row_in_def lookup_record_append intro!: exI [of _ "rs @ [r]"])

lemma adopt_imported_row:
  assumes rep: "db_rep db rs" and id: "wf_identity (request_identity request)"
    and sound: "sound_domain ops" and target: "target (request_identity request) = Delegation"
    and ok: "adopt_imported ops db request now = Inr (admission, db')"
  shows "admitted ops request db admission db'"
proof -
  obtain derived h where derived: "derive ops db (derivation request) = Inr derived"
    and h: "imported_candidate derived = Some h"
    and written: "insert_imported_delegation ops db
       (adopted_imported_delegation (derived_generation derived) h now) h = Inr db'"
    and admission: "admission = Ready derived
       (adopted_imported_delegation (derived_generation derived) h now) False"
    using ok by (auto simp add: adopt_imported_def Let_def)
  let ?r = "adopted_imported_delegation (derived_generation derived) h now"
  have gen: "gen_identity (derived_generation derived) = request_identity request"
    "length (gen_digest (derived_generation derived)) = 32" "length h = 32"
    using derive_sound [OF sound derived] h by (simp_all add: request_identity_def wf_hash_def)
  have row: "insert_row ops db (row_of ?r) = Inr db'" "in_sql_range ?r"
    using written imported_row_row_of [of "derived_generation derived" h now] target gen(1)
    by (auto simp add: insert_imported_delegation_def)
  have "wf_record ?r"
    using id gen by (simp add: wf_record_def adopted_imported_delegation_def)
  from row_in_insert [OF rep this row(2,1)] show ?thesis
    using gen(1) derived by (simp add: admitted_def admission Let_def adopted_imported_delegation_def)
qed

lemma reserve_fresh_row:
  assumes rep: "db_rep db rs" and id: "wf_identity (request_identity request)"
    and sound: "sound_domain ops"
    and batch: "case batch_derived of None \<Rightarrow> True
       | Some derived \<Rightarrow> derive ops db (derivation request) = Inr derived"
    and ok: "reserve_fresh ops db request batch_derived ordinal now = Inr (admission, db')"
  shows "admitted ops request db admission db'"
proof -
  obtain derived where derived: "derive ops db (derivation request) = Inr derived"
    and written: "insert_fresh ops db (fresh_record (derived_generation derived) ordinal now) = Inr db'"
    and admission: "admission = Ready derived (fresh_record (derived_generation derived) ordinal now) True"
    using ok batch by (auto simp add: reserve_fresh_def Let_def split: option.splits)
  let ?r = "fresh_record (derived_generation derived) ordinal now"
  have gen: "gen_identity (derived_generation derived) = request_identity request"
    "length (gen_digest (derived_generation derived)) = 32"
    using derive_sound [OF sound derived] by (simp_all add: request_identity_def)
  have row: "insert_row ops db (row_of ?r) = Inr db'" "in_sql_range ?r"
    using written fresh_row_row_of [of ?r] by (auto simp add: insert_fresh_def fresh_record_def)
  have "wf_record ?r"
    using id gen by (simp add: wf_record_def fresh_record_def)
  from row_in_insert [OF rep this row(2,1)] show ?thesis
    using gen(1) derived by (simp add: admitted_def admission Let_def fresh_record_def)
qed

lemma normalize_abandoned_row:
  assumes rep: "db_rep db rs" and q: "lookup_record rs i = Some q"
    and ok: "normalize_abandoned ops db (reload q) now = Inr (r', db')"
  shows "row_in db' i r'"
proof -
  obtain s where
    step: "apply_submission_observation (Some (stored_state (reload q)))
             (AbandonedSubmitting abandoned_diagnostic) = Inr (Some s)"
    and r': "r' = reload q\<lparr>stored_state := s,
       stored_diagnostic := (case s of Recovering _ d \<Rightarrow> Some d | _ \<Rightarrow> None),
       updated_at := max now (updated_at q)\<rparr>"
    and written: "persist_mutable ops db r' = Inr db'"
    using ok by (auto simp add: normalize_abandoned_def Let_def)
  have s: "stored_state (reload q) = Submitting" "s = Recovering None abandoned_diagnostic"
    using step by (auto simp add: apply_defs split: SubmissionRecordState.splits option.splits)
  have "wf_record r'"
    using wf_lookup [OF rep q] by (auto simp add: r' wf_record_def le_max_iff_disj s(2) wf_hash_def)
  moreover have "record_step (reload q) r'"
    using s(1) by (auto simp add: r' record_step_def same_generation_def s(2))
  ultimately show ?thesis
    using persist_result(2) [OF rep q written] by blast
qed

lemma admit_existing_row:
  assumes rep: "db_rep db rs" and q: "lookup_record rs (request_identity request) = Some q"
    and batch: "case batch_derived of None \<Rightarrow> True
       | Some derived \<Rightarrow> derive ops db (derivation request) = Inr derived"
    and state: "stored_state (reload q) \<noteq> Submitting"
    and ok: "admit_existing ops db request batch_derived (reload q) = Inr (admission, db')"
  shows "admitted ops request db admission db'"
proof -
  have row: "row_in db (request_identity request) (reload q)"
    using rep q by (auto simp add: row_in_def)
  obtain derived where "derive ops db (derivation request) = Inr derived"
    "stored_digest q = gen_digest (derived_generation derived)" "db' = db"
    "admission = (if is_terminal (stored_state (reload q)) then Authoritative (reload q)
       else Ready derived (reload q) False)"
    using ok batch by (auto simp add: admit_existing_def split: option.splits)
  with row state show ?thesis
    by (simp add: admitted_def Let_def)
qed

lemma admit_body_row:
  assumes rep: "db_rep db rs" and id: "wf_identity (request_identity request)"
    and sound: "sound_domain ops" and valid: "validate_target request = Inr ()"
    and body: "snd (admit_body ops request allowed ordinal now db) = Inr (admission, db')"
  shows "admitted ops request db admission db'"
proof (cases "lookup_record rs (request_identity request)")
  case None
  then have loaded: "load_submission ops db (request_identity request) = Inr None"
    and absent: "no_row db (request_identity request)"
    using rep by (auto simp add: load_submission_rep [OF rep id] no_row_def)
  from loaded body consider "admission = NoAuthoritativeState" "db' = db"
    | batch_derived where "derive_batch ops db request None = Inr batch_derived"
      "(if is_imported_delegation request then adopt_imported ops db request now
        else reserve_fresh ops db request batch_derived ordinal now) = Inr (admission, db')"
    by (auto simp add: admit_body_def split: if_splits)
  then show ?thesis
  proof cases
    case 1
    then show ?thesis
      using absent by (simp add: admitted_def Let_def)
  next
    case 2
    show ?thesis
    proof (cases "is_imported_delegation request")
      case True
      with 2(2) show ?thesis
        using adopt_imported_row [OF rep id sound imported_target [OF valid True]] by simp
    next
      case False
      with 2(2) show ?thesis
        using reserve_fresh_row [OF rep id sound derive_batch_derived [OF 2(1)]] by simp
    qed
  qed
next
  case (Some q)
  then have loaded: "load_submission ops db (request_identity request) = Inr (Some (reload q))"
    by (simp add: load_submission_rep [OF rep id])
  have row: "row_in db (request_identity request) (reload q)"
    using rep Some by (auto simp add: row_in_def)
  from loaded body consider
      "admission = Authoritative (reload q)" "db' = db"
    | updated where "normalize_abandoned ops db (reload q) now = Inr (updated, db')"
        "admission = Authoritative updated \<or> admission = AbandonedReservation updated"
    | batch_derived where "stored_state (reload q) \<noteq> Submitting"
        "derive_batch ops db request (Some (reload q)) = Inr batch_derived"
        "admit_existing ops db request batch_derived (reload q) = Inr (admission, db')"
    by (auto simp add: admit_body_def split: if_splits)
  then show ?thesis
  proof cases
    case 1
    then show ?thesis
      using row by (simp add: admitted_def Let_def)
  next
    case 2
    then show ?thesis
      using normalize_abandoned_row [OF rep Some] by (auto simp add: admitted_def Let_def)
  next
    case 3
    then show ?thesis
      using admit_existing_row [OF rep Some derive_batch_derived] by blast
  qed
qed

lemma admit_row:
  assumes rep: "db_rep db rs" and id: "wf_identity (request_identity request)"
    and sound: "sound_domain ops"
    and ok: "admit ops faults request allowed ordinal now db = (Inr admission, db')"
  shows "admitted ops request db admission db'"
proof (cases "validate_target request")
  case (Inl e)
  with ok show ?thesis
    by (simp add: admit_def)
next
  case (Inr u)
  then have "transact ops faults db (\<lambda>db. snd (admit_body ops request allowed ordinal now db))
      = (Inr admission, db')"
    using ok by (auto simp add: admit_def Let_def map_err_def split: sum.splits prod.splits)
  from transact_result [OF this] Inr show ?thesis
    using admit_body_row [OF rep id sound] by simp
qed

end
