(* ===== verification/Submission_Pass.thy ===== *)
theory Submission_Pass
  imports Submission_Rows
begin

text \<open>
  Specifications of the coordinator's functions below the POST loop.  Assertions are about the
  database and the POSTs handed to the transport so far, so a specification holds for every
  answer the environment gives; the specifications follow the functions of the source.
\<close>

section \<open>Specifications of passes\<close>

type_synonym 'd assertion = "'d voting_db \<Rightarrow> 'd post_entry list \<Rightarrow> bool"

text \<open>A database reached from another by well-formed calls on the store.\<close>

definition calls_only :: "('d, 'ev) domain_ops \<Rightarrow> 'd voting_db \<Rightarrow> 'd voting_db \<Rightarrow> bool" where
  "calls_only ops db db' \<longleftrightarrow> (\<exists>calls. list_all wf_call calls \<and> db' = run_calls ops calls db)"

lemma calls_only_refl [simp]: "calls_only ops db db"
  unfolding calls_only_def by (rule exI [of _ "[]"]) simp

lemma calls_only_trans: "\<lbrakk>calls_only ops a b; calls_only ops b c\<rbrakk> \<Longrightarrow> calls_only ops a c"
proof -
  assume "calls_only ops a b" "calls_only ops b c"
  then obtain xs ys where "list_all wf_call xs" "b = run_calls ops xs a"
    "list_all wf_call ys" "c = run_calls ops ys b"
    by (auto simp add: calls_only_def)
  then show ?thesis
    unfolding calls_only_def by (intro exI [of _ "xs @ ys"]) simp
qed

text \<open>
  A specification: from \<open>A\<close> the pass ends with \<open>Q\<close> of its result or fails with \<open>F\<close>, it does not
  panic, and all it does to the database are well-formed calls on the store.
\<close>

definition pass_spec ::
  "('d, 'ev) domain_ops \<Rightarrow> 'd assertion \<Rightarrow> ('d, 'a) submission_pass \<Rightarrow> ('a \<Rightarrow> 'd assertion)
   \<Rightarrow> 'd assertion \<Rightarrow> bool" where
  "pass_spec ops A m Q F \<longleftrightarrow>
     (\<forall>w. A (world_db w) (posts w) \<longrightarrow>
        (case m w of (r, w') \<Rightarrow>
           calls_only ops (world_db w) (world_db w')
           \<and> (case r of
                Inr x \<Rightarrow> Q x (world_db w') (posts w')
              | Inl e \<Rightarrow> e \<noteq> Panicked \<and> F (world_db w') (posts w'))))"

lemma specI:
  assumes "\<And>w r w'. \<lbrakk>A (world_db w) (posts w); m w = (r, w')\<rbrakk> \<Longrightarrow>
    calls_only ops (world_db w) (world_db w')
    \<and> (case r of Inr x \<Rightarrow> Q x (world_db w') (posts w') | Inl e \<Rightarrow> e \<noteq> Panicked \<and> F (world_db w') (posts w'))"
  shows "pass_spec ops A m Q F"
  unfolding pass_spec_def using assms by blast

lemma specD:
  assumes "pass_spec ops A m Q F" "A (world_db w) (posts w)" "m w = (r, w')"
  shows "calls_only ops (world_db w) (world_db w')"
    and "r = Inr x \<Longrightarrow> Q x (world_db w') (posts w')"
    and "r = Inl e \<Longrightarrow> e \<noteq> Panicked \<and> F (world_db w') (posts w')"
  using assms unfolding pass_spec_def by force+

lemma spec_return: "(\<And>db ps. A db ps \<Longrightarrow> Q x db ps) \<Longrightarrow> pass_spec ops A (pass_return x) Q F"
  by (rule specI) (auto simp add: pass_return_def)

lemma spec_fail: "(\<And>db ps. A db ps \<Longrightarrow> F db ps) \<Longrightarrow> pass_spec ops A (pass_fail e) Q F"
  by (rule specI) (auto simp add: pass_fail_def)

lemma spec_result:
  "\<lbrakk>\<And>y db ps. \<lbrakk>x = Inr y; A db ps\<rbrakk> \<Longrightarrow> Q y db ps; \<And>e db ps. \<lbrakk>x = Inl e; A db ps\<rbrakk> \<Longrightarrow> F db ps\<rbrakk>
   \<Longrightarrow> pass_spec ops A (pass_result x) Q F"
  by (cases x) (auto simp add: pass_result_def intro: spec_return spec_fail)

lemma spec_bind:
  assumes m: "pass_spec ops A m R F" and f: "\<And>x. pass_spec ops (R x) (f x) Q F"
  shows "pass_spec ops A (pass_bind m f) Q F"
proof (rule specI)
  fix w r w'
  assume A: "A (world_db w) (posts w)" and run: "pass_bind m f w = (r, w')"
  obtain x v where x: "m w = (x, v)"
    by (cases "m w")
  show "calls_only ops (world_db w) (world_db w')
    \<and> (case r of Inr x \<Rightarrow> Q x (world_db w') (posts w') | Inl e \<Rightarrow> e \<noteq> Panicked \<and> F (world_db w') (posts w'))"
  proof (cases x)
    case (Inl e)
    then show ?thesis
      using run x specD(1) [OF m A x] specD(3) [OF m A x Inl] by (auto simp add: pass_bind_def)
  next
    case (Inr y)
    with run x have rest: "f y v = (r, w')"
      by (simp add: pass_bind_def)
    note y = specD(2) [OF m A x Inr]
    show ?thesis
      using specD(1) [OF m A x] specD [OF f y rest] calls_only_trans by (cases r) auto
  qed
qed

lemma spec_map_err: "pass_spec ops A m Q F \<Longrightarrow> pass_spec ops A (pass_map_err g m) Q F"
proof -
  have "map_pass_error g e \<noteq> Panicked \<longleftrightarrow> e \<noteq> Panicked" for e :: "ChainSubmissionFailure pass_error"
    by (cases e) simp_all
  then show "pass_spec ops A m Q F \<Longrightarrow> pass_spec ops A (pass_map_err g m) Q F"
    unfolding pass_spec_def pass_map_err_def
    by (auto simp add: map_err_def split: prod.splits sum.splits)
qed

lemma spec_conseq:
  assumes m: "pass_spec ops A' m Q' F'" and A: "\<And>db ps. A db ps \<Longrightarrow> A' db ps"
    and Q: "\<And>x db ps. Q' x db ps \<Longrightarrow> Q x db ps" and F: "\<And>db ps. F' db ps \<Longrightarrow> F db ps"
  shows "pass_spec ops A m Q F"
proof (rule specI)
  fix w r w'
  assume start: "A (world_db w) (posts w)" and run: "m w = (r, w')"
  from A [OF start] have "A' (world_db w) (posts w)" .
  from specD [OF m this run] show "calls_only ops (world_db w) (world_db w')
    \<and> (case r of Inr x \<Rightarrow> Q x (world_db w') (posts w') | Inl e \<Rightarrow> e \<noteq> Panicked \<and> F (world_db w') (posts w'))"
    by (cases r) (auto intro: Q F)
qed

lemma spec_pre:
  "\<lbrakk>pass_spec ops A' m Q F; \<And>db ps. A db ps \<Longrightarrow> A' db ps\<rbrakk> \<Longrightarrow> pass_spec ops A m Q F"
  by (rule spec_conseq)

lemma spec_pure: "(P \<Longrightarrow> pass_spec ops A m Q F) \<Longrightarrow> pass_spec ops (\<lambda>db ps. P \<and> A db ps) m Q F"
  by (auto simp add: pass_spec_def)

text \<open>Samples leave the database and the POSTs alone, so they may return anything.\<close>

lemma spec_sampled: "(\<And>t db ps. A db ps \<Longrightarrow> Q (g t) db ps) \<Longrightarrow> pass_spec ops A (sample g) Q F"
  by (rule specI) (auto simp add: sample_def)

lemma spec_sample:
  assumes "\<And>t. pass_spec ops A (f (g t)) Q F"
  shows "pass_spec ops A (pass_bind (sample g) f) Q F"
proof (rule spec_bind [OF spec_sampled [where Q = "\<lambda>x db ps. (\<exists>t. x = g t) \<and> A db ps"]])
  show "pass_spec ops (\<lambda>db ps. (\<exists>t. x = g t) \<and> A db ps) (f x) Q F" for x
    using assms by (blast intro: spec_pure)
qed blast

lemma spec_now: "(\<And>db ps. A db ps \<Longrightarrow> F db ps) \<Longrightarrow> pass_spec ops A (now_seconds env) (\<lambda>_. A) F"
  unfolding now_seconds_def by (intro spec_sample spec_result)

lemma spec_check: "pass_spec ops A (check_interruption env epoch) (\<lambda>_. A) F"
  unfolding check_interruption_def by (rule spec_sampled)

definition is_call ::
  "('d, 'ev) domain_ops
   \<Rightarrow> (sql_faults \<Rightarrow> 'd voting_db \<Rightarrow> (ChainSubmissionFailure + 'a) \<times> 'd voting_db) \<Rightarrow> bool" where
  "is_call ops operation \<longleftrightarrow>
     (\<forall>faults. \<exists>call. wf_call call \<and> (\<forall>db. run_call ops call db = snd (operation faults db)))"

lemma is_call_run:
  "\<lbrakk>is_call ops operation; operation faults db = (r, db')\<rbrakk> \<Longrightarrow> calls_only ops db db'"
proof -
  assume "is_call ops operation" and run: "operation faults db = (r, db')"
  then obtain call where "wf_call call" "run_call ops call db = snd (operation faults db)"
    unfolding is_call_def by blast
  then show ?thesis
    unfolding calls_only_def by (intro exI [of _ "[call]"]) (simp add: run)
qed

lemma is_callI:
  "\<lbrakk>\<And>faults. wf_call (call faults); \<And>faults db. run_call ops (call faults) db = snd (operation faults db)\<rbrakk>
   \<Longrightarrow> is_call ops operation"
  unfolding is_call_def by blast

lemma is_call_admit:
  "wf_identity (request_identity request)
   \<Longrightarrow> is_call ops (\<lambda>f. admit ops f request allowed ordinal now)"
  by (rule is_callI [of "\<lambda>f. CallAdmit f request allowed ordinal now"]) simp_all

lemma is_call_remove_fresh:
  "wf_identity (gen_identity gen) \<Longrightarrow> is_call ops (\<lambda>f. remove_fresh_reservation ops f gen)"
  by (rule is_callI [of "\<lambda>f. CallRemoveFresh f gen"]) simp_all

lemma is_call_classify_post:
  "\<lbrakk>wf_identity (gen_identity gen); wf_observation obs\<rbrakk>
   \<Longrightarrow> is_call ops (\<lambda>f. classify_post ops f gen obs now)"
  by (rule is_callI [of "\<lambda>f. CallClassifyPost f gen obs now"]) simp_all

lemma is_call_reconcile:
  "\<lbrakk>wf_identity (gen_identity gen); wf_observation obs; wf_explicit d\<rbrakk>
   \<Longrightarrow> is_call ops (\<lambda>f. reconcile ops f gen obs d now)"
  by (rule is_callI [of "\<lambda>f. CallReconcile f gen obs d now"]) simp_all

lemma is_call_reserve_ambiguous_retry:
  "wf_identity (gen_identity gen) \<Longrightarrow> is_call ops (\<lambda>f. reserve_ambiguous_retry ops f gen now)"
  by (rule is_callI [of "\<lambda>f. CallReserveAmbiguousRetry f gen now"]) simp_all

lemma is_call_confirm_committed:
  "wf_identity (gen_identity gen)
   \<Longrightarrow> is_call ops (\<lambda>f. confirm_committed ops f request gen h events allowed now)"
  by (rule is_callI [of "\<lambda>f. CallConfirmCommitted f request gen h events allowed now"]) simp_all

lemma is_call_confirm_tree:
  "\<lbrakk>wf_identity (gen_identity gen); length vcs < 2 ^ 32\<rbrakk>
   \<Longrightarrow> is_call ops (\<lambda>f. confirm_tree ops f request gen van vcs allowed now)"
  by (rule is_callI [of "\<lambda>f. CallConfirmTree f request gen van vcs allowed now"]) simp_all

lemma is_call_reserve_recovery_retry:
  "wf_identity (auth_identity authorization)
   \<Longrightarrow> is_call ops (\<lambda>f. reserve_recovery_retry ops f request authorization now)"
  by (rule is_callI [of "\<lambda>f. CallReserveRecoveryRetry f request authorization now"]) simp_all

lemmas is_call_rules = is_call_admit is_call_remove_fresh is_call_classify_post is_call_reconcile
  is_call_reserve_ambiguous_retry is_call_confirm_committed is_call_confirm_tree
  is_call_reserve_recovery_retry

lemma spec_store:
  assumes "is_call ops operation"
    and "\<And>faults db ps x db'. \<lbrakk>A db ps; operation faults db = (Inr x, db')\<rbrakk> \<Longrightarrow> Q x db' ps"
    and "\<And>faults db ps e db'. \<lbrakk>A db ps; operation faults db = (Inl e, db')\<rbrakk> \<Longrightarrow> F db' ps"
  shows "pass_spec ops A (store_op env operation) Q F"
proof (rule specI)
  fix w r w'
  assume A: "A (world_db w) (posts w)" and run: "store_op env operation w = (r, w')"
  obtain x db' where x: "operation (env_faults env (tick w)) (world_db w) = (x, db')"
    by (cases "operation (env_faults env (tick w)) (world_db w)")
  then have "r = map_err Failed x" "world_db w' = db'" "posts w' = posts w"
    using run by (auto simp add: store_op_def)
  then show "calls_only ops (world_db w) (world_db w')
    \<and> (case r of Inr x \<Rightarrow> Q x (world_db w') (posts w') | Inl e \<Rightarrow> e \<noteq> Panicked \<and> F (world_db w') (posts w'))"
    using A assms(2,3) x is_call_run [OF assms(1) x] by (cases x) auto
qed

lemma spec_if:
  "\<lbrakk>b \<Longrightarrow> pass_spec ops A m Q F; \<not> b \<Longrightarrow> pass_spec ops A n Q F\<rbrakk>
   \<Longrightarrow> pass_spec ops A (if b then m else n) Q F"
  by simp

lemma spec_option:
  "\<lbrakk>x = None \<Longrightarrow> pass_spec ops A m Q F; \<And>y. x = Some y \<Longrightarrow> pass_spec ops A (f y) Q F\<rbrakk>
   \<Longrightarrow> pass_spec ops A (case x of None \<Rightarrow> m | Some y \<Rightarrow> f y) Q F"
  by (cases x) simp_all

lemma spec_index:
  "\<lbrakk>i < length xs; \<And>db ps. A db ps \<Longrightarrow> Q (xs ! i) db ps\<rbrakk> \<Longrightarrow> pass_spec ops A (pass_index xs i) Q F"
  by (simp add: pass_index_def spec_return)

text \<open>The usual prefix of a step: the clock, then one operation of the store.\<close>

lemma spec_timed_store:
  assumes call: "\<And>now. is_call ops (operation now)"
    and fin: "\<And>db ps. A db ps \<Longrightarrow> F db ps"
    and ok: "\<And>now faults db ps x db'. \<lbrakk>A db ps; operation now faults db = (Inr x, db')\<rbrakk> \<Longrightarrow> Q x db' ps"
    and failed: "\<And>now faults db e db'. operation now faults db = (Inl e, db') \<Longrightarrow> db' = db"
  shows "pass_spec ops A (pass_bind (pass_map_err g (now_seconds env)) (\<lambda>now.
           pass_map_err h (store_op env (operation now)))) Q F"
proof (rule spec_bind [where R = "\<lambda>_. A"])
  show "pass_spec ops A (pass_map_err g (now_seconds env)) (\<lambda>_. A) F"
    by (intro spec_map_err spec_now fin)
  show "pass_spec ops A (pass_map_err h (store_op env (operation now))) Q F" for now
    using fin ok failed by (intro spec_map_err spec_store [OF call]) blast+
qed

section \<open>Environments\<close>

text \<open>
  What the pass relies on from outside: sound derivation and confirmation, a validated policy, at
  least one endpoint, and answers whose hashes, diagnostics and positions respect the types of
  the source.  Nothing restricts when the environment cancels, fails or answers.
\<close>

fun wf_outcome :: "PostAttemptOutcome \<Rightarrow> bool" where
  "wf_outcome (PostAccepted h) = (length h = 32)"
| "wf_outcome (PostRejected _ d) = wf_diagnostic d"
| "wf_outcome (PostLocalFailure d) = wf_diagnostic d"
| "wf_outcome (PostPossiblyDispatched d) = wf_diagnostic d"
| "wf_outcome _ = True"

fun wf_race :: "PostRace \<Rightarrow> bool" where
  "wf_race (PostReturned outcome) = wf_outcome outcome"
| "wf_race _ = True"

fun wf_progress :: "'ev LookupProgress \<Rightarrow> bool" where
  "wf_progress (LookupFailed (LookupProtocol d)) = wf_diagnostic d"
| "wf_progress _ = True"

fun wf_scan ::
  "ChainSubmissionGeneration \<Rightarrow> RecoveryScanFailure + RecoveryScanOutcome \<Rightarrow> bool" where
  "wf_scan gen (Inr (ScanOutcomeMatch _ vcs)) = (length vcs < 2 ^ 32)"
| "wf_scan gen (Inr (ScanOutcomeNoMatch authorization)) =
     (auth_identity authorization = gen_identity gen \<and> auth_digest authorization = gen_digest gen)"
| "wf_scan gen (Inl (ScanInvalid d)) = wf_diagnostic d"
| "wf_scan gen (Inl (ScanAmbiguousLayout d)) = wf_diagnostic d"
| "wf_scan gen (Inl _) = True"

definition wf_policy :: "CoordinatorPolicy \<Rightarrow> bool" where
  "wf_policy policy \<longleftrightarrow> maximum_post_attempts policy = length (retry_backoffs policy) + 1"

definition wf_env :: "('d, 'ev) pass_env \<Rightarrow> bool" where
  "wf_env env \<longleftrightarrow>
     sound_domain (env_ops env) \<and> wf_policy (env_policy env) \<and> 0 < env_endpoint_count env
     \<and> (\<forall>db request derived. derive (env_ops env) db request = Inr derived
          \<longrightarrow> dispatchable (wire_request derived) (target (gen_identity (derived_generation derived))))
     \<and> (\<forall>t endpoint request. wf_race (env_post env t endpoint request))
     \<and> (\<forall>t h. wf_progress (env_lookup env t h))
     \<and> (\<forall>t derived candidate. wf_scan (derived_generation derived)
          (env_scan env t (gen_identity (derived_generation derived)) derived candidate))"

section \<open>Assertions\<close>

text \<open>
  A POST that may have reached the chain: it was accepted, its fate is unknown, or it was
  interrupted after the dispatch marker was set.
\<close>

fun landed_race :: "PostRace \<Rightarrow> bool" where
  "landed_race (PostReturned (PostAccepted _)) = True"
| "landed_race (PostReturned (PostPossiblyDispatched _)) = True"
| "landed_race (PostInterrupted _ possible) = possible"
| "landed_race _ = False"

definition landed :: "'d post_entry list \<Rightarrow> bool" where
  "landed ps \<longleftrightarrow> list_ex (\<lambda>p. landed_race (post_race p)) ps"

definition hashless :: "SubmissionRecordState \<Rightarrow> bool" where
  "hashless s \<longleftrightarrow> (\<exists>d. s = Recovering None d)"

lemma permits_hashless: "permits_ambiguous_retry s \<Longrightarrow> hashless s"
  by (cases s rule: permits_ambiguous_retry.cases) (simp_all add: hashless_def)

text \<open>
  A POST that was reserved first: at the moment of the POST the row of its generation was
  durable, in a state that admits a POST, and its reservation count chose the endpoint.
\<close>

definition reserved_post :: "nat \<Rightarrow> 'd post_entry \<Rightarrow> bool" where
  "reserved_post endpoints p \<longleftrightarrow>
     wf_identity (gen_identity (post_generation p))
     \<and> (\<exists>r. row_in (post_db p) (gen_identity (post_generation p)) r
        \<and> stored_digest r = gen_digest (post_generation p)
        \<and> (stored_state r = Submitting \<or> hashless (stored_state r))
        \<and> post_endpoint p = (unat (committed_post_reservations r) - 1) mod endpoints)"

definition reserved_posts :: "nat \<Rightarrow> 'd post_entry list \<Rightarrow> bool" where
  "reserved_posts endpoints ps \<longleftrightarrow> list_all (reserved_post endpoints) ps"

definition row_at :: "nat \<Rightarrow> ChainSubmissionGeneration \<Rightarrow> StoredChainSubmission \<Rightarrow> 'd assertion" where
  "row_at n gen r db ps \<longleftrightarrow>
     reserved_posts n ps \<and> row_in db (gen_identity gen) r \<and> stored_digest r = gen_digest gen"

text \<open>The record an operation returned: the row, or a combined generation retired by rejection.\<close>

definition returned :: "nat \<Rightarrow> ChainSubmissionIdentity \<Rightarrow> StoredChainSubmission \<Rightarrow> 'd assertion" where
  "returned n i r db ps \<longleftrightarrow>
     reserved_posts n ps
     \<and> (row_in db i r
        \<or> is_combined (target i) \<and> is_rejected (stored_state r) \<and> no_row db i)"

text \<open>However a pass ends, a POST that may have landed has its row, unless it was retired.\<close>

definition settled :: "nat \<Rightarrow> ChainSubmissionIdentity \<Rightarrow> 'd assertion" where
  "settled n i db ps \<longleftrightarrow>
     reserved_posts n ps
     \<and> ((\<exists>r. row_in db i r) \<or> no_row db i \<and> (is_combined (target i) \<or> \<not> landed ps))"

definition gone :: "nat \<Rightarrow> ChainSubmissionIdentity \<Rightarrow> 'd assertion" where
  "gone n i db ps \<longleftrightarrow> reserved_posts n ps \<and> no_row db i \<and> \<not> landed ps"

text \<open>A result reports what is durable.\<close>

definition truthful ::
  "ChainSubmissionIdentity \<Rightarrow> ChainSubmissionResult \<Rightarrow> 'd voting_db \<Rightarrow> bool" where
  "truthful i result db \<longleftrightarrow>
     (case result_durable_state result of
        None \<Rightarrow> no_row db i
      | Some s \<Rightarrow> (\<exists>r. row_in db i r \<and> durable_state (stored_state r) = s)
          \<or> is_combined (target i) \<and> s = StateRejected \<and> no_row db i)"

definition reported ::
  "nat \<Rightarrow> ChainSubmissionIdentity \<Rightarrow> ChainSubmissionResult \<Rightarrow> 'd assertion" where
  "reported n i result db ps \<longleftrightarrow> settled n i db ps \<and> truthful i result db"

text \<open>A row a POST may be made for: fresh and unsent, or ambiguous.\<close>

definition attemptable ::
  "nat \<Rightarrow> ChainSubmissionGeneration \<Rightarrow> bool \<Rightarrow> StoredChainSubmission \<Rightarrow> 'd assertion" where
  "attemptable n gen ambiguous r db ps \<longleftrightarrow>
     row_at n gen r db ps
     \<and> (if ambiguous then hashless (stored_state r)
        else stored_state r = Submitting \<and> \<not> landed ps)"

lemma row_at_settled: "row_at n gen r db ps \<Longrightarrow> settled n (gen_identity gen) db ps"
  by (auto simp add: row_at_def settled_def)

lemma returned_settled: "returned n i r db ps \<Longrightarrow> settled n i db ps"
  by (auto simp add: returned_def settled_def)

lemma gone_settled: "gone n i db ps \<Longrightarrow> settled n i db ps"
  by (auto simp add: gone_def settled_def)

lemma reported_settled: "reported n i result db ps \<Longrightarrow> settled n i db ps"
  by (simp add: reported_def)

lemma attemptable_row: "attemptable n gen ambiguous r db ps \<Longrightarrow> row_at n gen r db ps"
  by (simp add: attemptable_def)

lemma attemptable_settled:
  "attemptable n gen ambiguous r db ps \<Longrightarrow> settled n (gen_identity gen) db ps"
  by (rule row_at_settled [OF attemptable_row])

lemmas settles = row_at_settled returned_settled gone_settled reported_settled attemptable_settled

lemma row_at_returned: "row_at n gen r db ps \<Longrightarrow> returned n (gen_identity gen) r db ps"
  by (simp add: row_at_def returned_def)

section \<open>Steps on the store\<close>

lemma report_spec: "pass_spec ops (returned n i r) (report r) (reported n i) (settled n i)"
proof -
  have "truthful i x db" if "public_result r = Inr x" "returned n i r db ps" for x and db :: "'d voting_db" and ps
    using that by (cases "stored_state r")
      (auto simp add: public_result_def returned_def truthful_def intro!: exI [of _ r])
  then show ?thesis
    unfolding report_def by (intro spec_result) (auto simp add: reported_def settles)
qed

lemma report_row: "pass_spec ops (row_at n gen r) (report r) (reported n (gen_identity gen)) (settled n (gen_identity gen))"
  by (rule spec_pre [OF report_spec row_at_returned])

lemma finish_spec:
  "pass_spec ops A m (reported n i) F
   \<Longrightarrow> pass_spec ops A (finish m) (\<lambda>flow. case flow of Done result \<Rightarrow> reported n i result | Continue a \<Rightarrow> C a) F"
  unfolding finish_def by (erule spec_bind) (rule spec_return, simp)

text \<open>The record after a classified observation, with the transition that produced it.\<close>

definition observed ::
  "nat \<Rightarrow> ChainSubmissionGeneration \<Rightarrow> StoredChainSubmission \<Rightarrow> SubmissionObservation
   \<Rightarrow> StoredChainSubmission \<Rightarrow> 'd assertion" where
  "observed n gen r obs r' db ps \<longleftrightarrow>
     returned n (gen_identity gen) r' db ps \<and> stored_digest r' = gen_digest gen
     \<and> (\<exists>s db0. skeleton s = skeleton (stored_state r)
          \<and> apply_submission_observation (Some s)
              (effective_observation (db0 :: 'd voting_db) (gen_identity gen) obs)
            = Inr (Some (stored_state r')))"

lemma observed_returned: "observed n gen r obs r' db ps \<Longrightarrow> returned n (gen_identity gen) r' db ps"
  by (simp add: observed_def)

lemma apply_observation_spec:
  assumes "row_at n gen r db ps" "wf_identity (gen_identity gen)" "wf_observation obs" "wf_explicit d"
    "apply_observation ops faults gen obs d now db = (Inr r', db')"
  shows "observed n gen r obs r' db' ps"
  using apply_observation_row [of db gen r, OF _ assms(2-5)] assms(1)
  by (auto simp add: row_at_def observed_def returned_def)

lemma transact_undone: "transact ops faults db operation = (Inl e, db') \<Longrightarrow> db' = db"
  using transact_failure [of ops faults db operation e] by simp

lemma apply_observation_failure:
  "apply_observation ops faults gen obs d now db = (Inl e, db') \<Longrightarrow> db' = db"
  unfolding apply_observation_def by (rule transact_undone)

lemma classify_dispatched_post_spec:
  assumes "wf_identity (gen_identity gen)" "wf_observation obs"
  shows "pass_spec (env_ops env) (row_at n gen r) (classify_dispatched_post env gen obs)
    (observed n gen r obs) (settled n (gen_identity gen))"
  unfolding classify_dispatched_post_def
proof (intro spec_timed_store is_call_rules row_at_settled assms)
qed (auto simp add: classify_post_def dest: apply_observation_failure
    intro!: apply_observation_spec [OF _ assms, of n r _ _ None] simp: wf_explicit_def)

lemma reconcile_with_durable_state_spec:
  assumes "wf_identity (gen_identity gen)" "wf_observation obs" "wf_explicit d"
  shows "pass_spec (env_ops env) (row_at n gen r) (reconcile_with_durable_state env gen obs d state)
    (observed n gen r obs) (settled n (gen_identity gen))"
  unfolding reconcile_with_durable_state_def
proof (intro spec_timed_store is_call_rules row_at_settled assms)
qed (auto simp add: reconcile_def dest: apply_observation_failure
    intro: apply_observation_spec [OF _ assms])

lemma remove_fresh_spec:
  assumes "wf_identity (gen_identity gen)"
  shows "pass_spec (env_ops env) (attemptable n gen False r) (remove_fresh env gen)
    (\<lambda>_. gone n (gen_identity gen)) (settled n (gen_identity gen))"
  unfolding remove_fresh_def
proof (intro spec_timed_store is_call_rules assms attemptable_settled)
  fix faults db ps u db'
  assume A: "attemptable n gen False r db ps"
    and ok: "remove_fresh_reservation (env_ops env) faults gen db = (Inr u, db')"
  then have "row_in db (gen_identity gen) r"
    by (simp add: attemptable_def row_at_def)
  from remove_fresh_row [OF this assms ok] A show "gone n (gen_identity gen) db' ps"
    by (simp add: attemptable_def row_at_def gone_def)
qed (auto simp add: remove_fresh_reservation_def dest: transact_undone)

definition retry_reserved ::
  "nat \<Rightarrow> ChainSubmissionGeneration \<Rightarrow> AmbiguousRetryReservation \<Rightarrow> 'd assertion" where
  "retry_reserved n gen reservation =
     (case reservation of
        RetryReserved r \<Rightarrow> (\<lambda>db ps. permits_ambiguous_retry (stored_state r) \<and> attemptable n gen True r db ps)
      | RetryInterrupted r \<Rightarrow> row_at n gen r)"

lemma reserve_ambiguous_retry_spec:
  assumes "wf_identity (gen_identity gen)"
    and "row_at n gen r db ps" "reserve_ambiguous_retry ops faults gen now db = (Inr r', db')"
  shows "permits_ambiguous_retry (stored_state r') \<and> attemptable n gen True r' db' ps"
  using reserve_ambiguous_retry_row [OF _ assms(1,3)] assms(2)
  by (auto simp add: attemptable_def row_at_def permits_hashless)

lemma reserve_ambiguous_retry_failure:
  "reserve_ambiguous_retry ops faults gen now db = (Inl e, db') \<Longrightarrow> db' = db"
  unfolding reserve_ambiguous_retry_def by (rule transact_undone)

lemma reserve_ambiguous_retry_after_backoff_spec:
  assumes "wf_identity (gen_identity gen)"
  shows "pass_spec (env_ops env) (row_at n gen r) (reserve_ambiguous_retry_after_backoff env backoff gen r)
    (retry_reserved n gen) (settled n (gen_identity gen))"
  unfolding reserve_ambiguous_retry_after_backoff_def
proof (intro spec_sample spec_if)
  show "pass_spec (env_ops env) (row_at n gen r) (pass_return (RetryInterrupted r)) (retry_reserved n gen)
      (settled n (gen_identity gen))"
    by (rule spec_return) (simp add: retry_reserved_def)
  show "pass_spec (env_ops env) (row_at n gen r)
      (pass_bind (pass_map_err (attach_state (record_durable_state r)) (now_seconds env)) (\<lambda>now.
       pass_bind (pass_map_err (attach_state (record_durable_state r))
                   (store_op env (\<lambda>f. reserve_ambiguous_retry (env_ops env) f gen now))) (\<lambda>record.
       pass_return (RetryReserved record)))) (retry_reserved n gen) (settled n (gen_identity gen))"
  proof (rule spec_bind [OF spec_map_err [OF spec_now [OF row_at_settled]]], assumption)
    show "pass_spec (env_ops env) (row_at n gen r)
        (pass_bind (pass_map_err (attach_state (record_durable_state r))
             (store_op env (\<lambda>f. reserve_ambiguous_retry (env_ops env) f gen now))) (\<lambda>record.
         pass_return (RetryReserved record))) (retry_reserved n gen) (settled n (gen_identity gen))" for now
      by (rule spec_bind [where R = "\<lambda>x. retry_reserved n gen (RetryReserved x)"], intro spec_map_err spec_store is_call_rules assms)
        (auto simp add: retry_reserved_def intro: spec_return row_at_settled
          dest: reserve_ambiguous_retry_spec [OF assms] reserve_ambiguous_retry_failure)
  qed
qed

lemma committed_result_spec:
  "pass_spec ops (\<lambda>db ps. reserved_posts n ps \<and> row_in db i (commit_record commit)) (committed_result commit)
     (reported n i) (settled n i)"
  by (cases commit)
    (auto simp add: committed_result_def commit_record_def returned_def intro!: spec_pre [OF report_spec])

lemma coordinator_confirm_tree_spec:
  fixes env :: "('d, 'ev) pass_env"
  assumes gen: "gen = derived_generation derived" and id: "wf_identity (gen_identity gen)"
    and vcs: "length vcs < 2 ^ 32"
  shows "pass_spec (env_ops env) (row_at n gen r) (coordinator_confirm_tree env epoch request derived van vcs)
    (reported n (gen_identity gen)) (settled n (gen_identity gen))"
  unfolding coordinator_confirm_tree_def
proof (rule spec_bind [OF spec_map_err [OF spec_now [OF row_at_settled]]], assumption,
    rule spec_bind [OF spec_check], rule spec_bind [OF _ committed_result_spec],
    intro spec_map_err spec_store is_call_rules id [unfolded gen] vcs)
  fix now interrupted faults ps x and db db' :: "'d voting_db"
  assume A: "row_at n gen r db ps"
  then have row: "row_in db (gen_identity gen) r"
    by (simp add: row_at_def)
  show "reserved_posts n ps \<and> row_in db' (gen_identity gen) (commit_record x)"
    if "confirm_tree (env_ops env) faults request (derived_generation derived) van vcs
      (interrupted = None) now db = (Inr x, db')"
    using confirm_tree_row [OF row id vcs that [folded gen]] A by (simp add: row_at_def)
  show "settled n (gen_identity gen) db' ps"
    if "confirm_tree (env_ops env) faults request (derived_generation derived) van vcs
      (interrupted = None) now db = (Inl e, db')" for e
    using transact_undone [OF that [unfolded confirm_tree_def]] row_at_settled [OF A] by simp
qed

lemma coordinator_confirm_spec:
  fixes env :: "('d, 'ev) pass_env"
  assumes gen: "gen = derived_generation derived" and id: "wf_identity (gen_identity gen)"
    and sound: "sound_domain (env_ops env)"
  shows "pass_spec (env_ops env) (row_at n gen r)
    (coordinator_confirm env epoch request derived candidate committed state)
    (reported n (gen_identity gen)) (settled n (gen_identity gen))"
  unfolding coordinator_confirm_def
proof (rule spec_bind [OF spec_map_err [OF spec_now [OF row_at_settled]]], assumption,
    rule spec_bind [OF spec_check], rule spec_bind [OF _ committed_result_spec],
    intro spec_map_err spec_store is_call_rules id [unfolded gen])
  fix now interrupted faults ps x and db db' :: "'d voting_db"
  assume A: "row_at n gen r db ps"
  then have row: "row_in db (gen_identity gen) r"
    by (simp add: row_at_def)
  show "reserved_posts n ps \<and> row_in db' (gen_identity gen) (commit_record x)"
    if "confirm_committed (env_ops env) faults request (derived_generation derived) candidate
      committed (interrupted = None) now db = (Inr x, db')"
    using confirm_committed_row [OF row id sound that [folded gen]] A by (simp add: row_at_def)
  show "settled n (gen_identity gen) db' ps"
    if "confirm_committed (env_ops env) faults request (derived_generation derived) candidate
      committed (interrupted = None) now db = (Inl e, db')" for e
    using transact_undone [OF that [unfolded confirm_committed_def]] row_at_settled [OF A] by simp
qed

lemma tracking_expired_spec:
  "pass_spec (env_ops env) (row_at n gen r) (tracking_expired env r) (\<lambda>_. row_at n gen r) (settled n (gen_identity gen))"
  unfolding tracking_expired_def
  by (rule spec_bind [OF spec_map_err [OF spec_now [OF row_at_settled]]], assumption)
    (intro spec_result, auto intro: row_at_settled)

lemma wf_redacted [simp]: "wf_diagnostic (from_redacted_message kind message)"
  by (simp add: wf_diagnostic_def from_redacted_message_def length_bounded_redacted_text)

lemma finish_inconclusive_tracking_spec:
  assumes gen: "gen = derived_generation derived" and id: "wf_identity (gen_identity gen)"
    and d: "wf_explicit d"
  shows "pass_spec (env_ops env) (row_at n gen r) (finish_inconclusive_tracking env derived r d)
    (\<lambda>r' db ps. \<exists>obs. observed n gen r obs r' db ps
       \<and> (obs = ObservedTrackingWindowExpired expired_diagnostic \<or> obs = CandidatePending))
    (settled n (gen_identity gen))"
  unfolding finish_inconclusive_tracking_def gen [symmetric]
proof (rule spec_bind [OF spec_map_err [OF spec_now [OF row_at_settled]]], assumption,
    rule spec_bind [where R = "\<lambda>_. row_at n gen r"])
  show "pass_spec (env_ops env) (row_at n gen r) (pass_result (tracking_expired_at (env_policy env) r now))
      (\<lambda>_. row_at n gen r) (settled n (gen_identity gen))" for now
    by (intro spec_result) (auto intro: row_at_settled)
qed (intro spec_if; rule spec_conseq [OF reconcile_with_durable_state_spec [OF id]];
    auto simp add: wf_explicit_def expired_diagnostic_def d [unfolded wf_explicit_def])

section \<open>Tree passes\<close>

text \<open>A record of the pass's generation that an operation returned.\<close>

definition held :: "nat \<Rightarrow> ChainSubmissionGeneration \<Rightarrow> StoredChainSubmission \<Rightarrow> 'd assertion" where
  "held n gen r db ps \<longleftrightarrow> returned n (gen_identity gen) r db ps \<and> stored_digest r = gen_digest gen"

lemma held_row: "\<lbrakk>held n gen r db ps; \<not> is_rejected (stored_state r)\<rbrakk> \<Longrightarrow> row_at n gen r db ps"
  by (auto simp add: held_def returned_def row_at_def)

lemma observed_held: "observed n gen r obs r' db ps \<Longrightarrow> held n gen r' db ps"
  by (simp add: observed_def held_def)

lemma row_at_held: "row_at n gen r db ps \<Longrightarrow> held n gen r db ps"
  by (simp add: held_def row_at_returned) (simp add: row_at_def)

lemma held_settled: "held n gen r db ps \<Longrightarrow> settled n (gen_identity gen) db ps"
  unfolding held_def by (blast intro: returned_settled)

lemma report_held: "pass_spec ops (held n gen r) (report r) (reported n (gen_identity gen)) (settled n (gen_identity gen))"
  by (rule spec_pre [OF report_spec]) (simp add: held_def)

lemma observed_ambiguous:
  assumes "observed n gen r obs r' db ps"
    and "obs = PossiblyDispatched d \<and> (stored_state r = Submitting \<or> hashless (stored_state r))
       \<or> obs = DefinitelyNotDispatched \<and> hashless (stored_state r)"
  shows "attemptable n gen True r' db ps"
proof -
  obtain s db0 where s: "skeleton s = skeleton (stored_state r)"
    "apply_submission_observation (Some s) (effective_observation (db0 :: 'a voting_db) (gen_identity gen) obs)
      = Inr (Some (stored_state r'))"
    using assms(1) by (auto simp add: observed_def)
  have "s = Submitting \<or> hashless s"
    using assms(2) s(1) by (cases s; cases "stored_state r") (auto simp add: hashless_def)
  moreover have "effective_observation db0 (gen_identity gen) obs = obs"
    using assms(2) by (auto simp add: effective_observation_def)
  ultimately have "hashless (stored_state r')"
    using s(2) assms(2) by (auto simp add: hashless_def apply_defs dest: sym split: option.splits)
  then show ?thesis
    using held_row [OF observed_held [OF assms(1)]]
    by (auto simp add: attemptable_def hashless_def)
qed

definition scanned :: "nat \<Rightarrow> ChainSubmissionGeneration \<Rightarrow> StoredChainSubmission \<Rightarrow> RecoveryScan \<Rightarrow> 'd assertion" where
  "scanned n gen r scan db ps \<longleftrightarrow>
     (case scan of
        ScanMatch van vcs \<Rightarrow> length vcs < 2 ^ 32
      | ScanNoMatch authorization \<Rightarrow>
          auth_identity authorization = gen_identity gen \<and> auth_digest authorization = gen_digest gen
      | ScanInterrupted \<Rightarrow> True)
     \<and> row_at n gen r db ps"

lemma reconcile_and_fail_spec:
  assumes "wf_identity (gen_identity gen)" "wf_observation obs" "wf_explicit d"
  shows "pass_spec (env_ops env) (row_at n gen r)
    (pass_bind (reconcile_with_durable_state env gen obs d state) (\<lambda>x. pass_fail (failure x)))
    Q (settled n (gen_identity gen))"
  by (rule spec_bind [OF reconcile_with_durable_state_spec [OF assms]], rule spec_fail)
    (auto dest: observed_held held_settled)

lemma scan_tree_spec:
  assumes gen: "gen = derived_generation derived" and id: "wf_identity (gen_identity gen)"
    and env: "wf_env env"
  shows "pass_spec (env_ops env) (row_at n gen r) (scan_tree env (gen_identity gen) derived candidate)
    (scanned n gen r) (settled n (gen_identity gen))"
  unfolding scan_tree_def gen [symmetric]
proof (rule spec_sample)
  fix t
  define scan where "scan = env_scan env t (gen_identity gen) derived candidate"
  have wf: "wf_scan gen scan"
    using env by (simp add: wf_env_def scan_def gen)
  show "pass_spec (env_ops env) (row_at n gen r)
     (case env_scan env t (gen_identity gen) derived candidate of
       Inr (ScanOutcomeMatch van vcs) \<Rightarrow> pass_return (ScanMatch van vcs)
     | Inr (ScanOutcomeNoMatch authorization) \<Rightarrow> pass_return (ScanNoMatch authorization)
     | Inl ScanFailureInterrupted \<Rightarrow> pass_return ScanInterrupted
     | Inl (ScanInvalid diagnostic) \<Rightarrow>
         pass_bind (reconcile_with_durable_state env gen ContinueRecovery
                     (Some diagnostic) StateRecovering) (\<lambda>_.
         pass_fail (with_durable_state Protocol StateRecovering (lit (diag_message diagnostic))))
     | Inl (ScanAmbiguousLayout diagnostic) \<Rightarrow>
         pass_bind (reconcile_with_durable_state env gen ContinueRecovery
                     (Some diagnostic) StateRecovering) (\<lambda>_.
         pass_fail (with_durable_state Protocol StateRecovering (lit (diag_message diagnostic))))
     | Inl (ScanTransport message) \<Rightarrow>
         pass_bind (reconcile_with_durable_state env gen ContinueRecovery
                     (Some (from_redacted_message ReconciliationPending message))
                     StateRecovering) (\<lambda>_.
         pass_fail (with_durable_state Transport StateRecovering message)))
     (scanned n gen r) (settled n (gen_identity gen))"
    using wf unfolding scan_def [symmetric]
    by (auto simp add: scanned_def wf_explicit_def id
        intro!: spec_return reconcile_and_fail_spec
        split: sum.split RecoveryScanFailure.split RecoveryScanOutcome.split)
qed

lemma end_hashless_spec:
  assumes gen: "gen = derived_generation derived" and id: "wf_identity (gen_identity gen)"
  shows "pass_spec (env_ops env) (row_at n gen r) (end_hashless env derived)
    (reported n (gen_identity gen)) (settled n (gen_identity gen))"
  unfolding end_hashless_def gen [symmetric]
  by (rule spec_bind [OF classify_dispatched_post_spec [OF id]])
    (auto simp add: spent_diagnostic_def intro: spec_pre [OF report_held] observed_held)

lemma settle_nullifier_spent_spec:
  assumes gen: "gen = derived_generation derived" and id: "wf_identity (gen_identity gen)"
    and env: "wf_env env" and request: "request_identity request = gen_identity gen"
  shows "pass_spec (env_ops env) (row_at n gen r)
    (settle_nullifier_spent_after_dispatch env epoch request derived r recovery)
    (reported n (gen_identity gen)) (settled n (gen_identity gen))"
  unfolding settle_nullifier_spent_after_dispatch_def request
proof (intro spec_if end_hashless_spec [OF gen id] spec_bind [OF scan_tree_spec [OF gen id env]])
  fix scan
  show "pass_spec (env_ops env) (scanned n gen r scan)
     (case scan of
        ScanMatch van vcs \<Rightarrow> coordinator_confirm_tree env epoch request derived van vcs
      | ScanNoMatch _ \<Rightarrow> end_hashless env derived
      | ScanInterrupted \<Rightarrow> report r) (reported n (gen_identity gen)) (settled n (gen_identity gen))"
    unfolding scanned_def
    by (rule spec_pure)
      (auto split: RecoveryScan.splits
        intro: coordinator_confirm_tree_spec [OF gen id] end_hashless_spec [OF gen id] report_row)
qed

section \<open>Reconciliation\<close>

text \<open>What admission hands to the rest of the pass: a derivation for the request's identity.\<close>

definition derived_for :: "('d, 'ev) pass_env \<Rightarrow> StoreAdvancementRequest \<Rightarrow> DerivedChainSubmission \<Rightarrow> bool" where
  "derived_for env request derived \<longleftrightarrow>
     wf_env env \<and> wf_identity (request_identity request)
     \<and> gen_identity (derived_generation derived) = request_identity request
     \<and> dispatchable (wire_request derived) (target (request_identity request))"

abbreviation retries ::
  "('d, 'ev) pass_env \<Rightarrow> DerivedChainSubmission
   \<Rightarrow> (DerivedChainSubmission \<Rightarrow> StoredChainSubmission \<Rightarrow> ('d, ChainSubmissionResult) submission_pass)
   \<Rightarrow> bool" where
  "retries env derived retry \<equiv>
     (\<forall>r. pass_spec (env_ops env) (attemptable (env_endpoint_count env) (derived_generation derived) True r) (retry derived r)
        (reported (env_endpoint_count env) (gen_identity (derived_generation derived)))
        (settled (env_endpoint_count env) (gen_identity (derived_generation derived))))"

lemma reserve_recovery_retry_spec:
  assumes auth: "auth_identity authorization = gen_identity gen" "auth_digest authorization = gen_digest gen"
    and id: "wf_identity (gen_identity gen)"
  shows "pass_spec (env_ops env) (row_at n gen r)
    (pass_bind (pass_map_err g (now_seconds env)) (\<lambda>now. pass_map_err h
       (store_op env (\<lambda>f. reserve_recovery_retry (env_ops env) f request authorization now))))
    (attemptable n gen True) (settled n (gen_identity gen))"
proof (intro spec_timed_store is_call_rules row_at_settled)
  fix now faults ps r' and db db' :: "'a voting_db"
  assume A: "row_at n gen r db ps"
    and ok: "reserve_recovery_retry (env_ops env) faults request authorization now db = (Inr r', db')"
  from A have "row_in db (auth_identity authorization) r"
    by (simp add: row_at_def auth)
  from reserve_recovery_retry_row [OF this _ ok] A id auth show "attemptable n gen True r' db' ps"
    by (simp add: attemptable_def row_at_def hashless_def)
qed (auto simp add: reserve_recovery_retry_def auth id dest: transact_undone)

lemma retry_backoff_spec:
  assumes "wf_policy policy" "0 < remaining" "remaining \<le> maximum_post_attempts policy"
  shows "pass_spec ops A
    (let used = maximum_post_attempts policy - remaining in
     if used > 0
     then pass_bind (pass_index (retry_backoffs policy) (used - 1)) (\<lambda>backoff. sample (\<lambda>t. f t backoff))
     else pass_return None) (\<lambda>_. A) F"
  unfolding Let_def
proof (intro spec_if spec_return)
  assume "0 < maximum_post_attempts policy - remaining"
  then show "pass_spec ops A (pass_bind (pass_index (retry_backoffs policy)
      (maximum_post_attempts policy - remaining - 1)) (\<lambda>backoff. sample (\<lambda>t. f t backoff))) (\<lambda>_. A) F"
    using assms by (intro spec_bind [where R = "\<lambda>_. A"] spec_index)
      (auto simp add: wf_policy_def intro: spec_sampled)
qed

lemma recover_if_enabled_spec:
  assumes bound: "derived_for env request derived"
    and remaining: "remaining \<le> maximum_post_attempts (env_policy env)"
    and retry: "0 < remaining \<Longrightarrow> retries env derived retry"
    and gen: "gen = derived_generation derived" and n: "n = env_endpoint_count env"
  shows "pass_spec (env_ops env) (held n gen r)
    (recover_if_enabled env epoch request recovery remaining retry derived r)
    (reported n (gen_identity gen)) (settled n (gen_identity gen))"
proof (cases "\<exists>candidate d. stored_state r = Recovering candidate d")
  case False
  then have "recover_if_enabled env epoch request recovery remaining retry derived r = report r"
    by (cases "stored_state r") (simp_all add: recover_if_enabled_def)
  then show ?thesis
    using report_held by simp
next
  case True
  then obtain candidate d where state: "stored_state r = Recovering candidate d"
    by blast
  have env: "wf_env env" and id: "wf_identity (gen_identity gen)"
    and request: "request_identity request = gen_identity gen"
    using bound by (simp_all add: derived_for_def gen)
  then have policy: "wf_policy (env_policy env)"
    by (simp add: wf_env_def)
  have reserve: "pass_spec (env_ops env) (row_at n gen r)
     (let used = maximum_post_attempts (env_policy env) - remaining in
      pass_bind (if used > 0
                 then pass_bind (pass_index (retry_backoffs (env_policy env)) (used - 1))
                        (\<lambda>backoff. sample (\<lambda>t. env_backoff env t backoff))
                 else pass_return None) (\<lambda>interrupted.
      if interrupted \<noteq> None then report r
      else
        pass_bind (check_interruption env epoch) (\<lambda>interrupted.
        if interrupted \<noteq> None then report r
        else
          pass_bind (pass_map_err (replace_state StateRecovering) (now_seconds env)) (\<lambda>now.
          pass_bind (pass_map_err (attach_state (record_durable_state r))
              (store_op env (\<lambda>f. reserve_recovery_retry (env_ops env) f request authorization now)))
            (retry derived)))))
     (reported n (gen_identity gen)) (settled n (gen_identity gen))"
    if "0 < remaining" "auth_identity authorization = gen_identity gen"
      "auth_digest authorization = gen_digest gen" for authorization
    using retry [OF that(1)] that(2,3) id
    unfolding Let_def pass_bind_assoc [symmetric] gen [symmetric] n [symmetric]
    by (intro spec_bind [OF retry_backoff_spec [OF policy that(1) remaining, unfolded Let_def]]
        spec_if report_row spec_bind [OF spec_check]
        spec_bind [OF reserve_recovery_retry_spec]) auto
  have "pass_spec (env_ops env) (row_at n gen r)
      (recover_if_enabled env epoch request recovery remaining retry derived r)
      (reported n (gen_identity gen)) (settled n (gen_identity gen))"
    unfolding recover_if_enabled_def state SubmissionRecordState.case request
  proof (intro spec_if report_row spec_bind [OF spec_check] spec_bind [OF scan_tree_spec [OF gen id env]],
      goal_cases)
    case (1 interrupted scan)
    show ?case
      unfolding scanned_def
    proof (rule spec_pure, cases scan, goal_cases)
      case (2 authorization)
      then show ?case
        unfolding 2(2) RecoveryScan.case
        by (intro spec_if report_row spec_bind [OF spec_check] reserve [unfolded state]) simp_all
    qed (auto intro: coordinator_confirm_tree_spec [OF gen id] report_row)
  qed
  then show ?thesis
    by (rule spec_pre) (auto intro: held_row simp add: state)
qed

text \<open>A continuation that takes any record of the generation to a reported result.\<close>

definition continues ::
  "('d, 'ev) domain_ops \<Rightarrow> nat \<Rightarrow> ChainSubmissionGeneration
   \<Rightarrow> (StoredChainSubmission \<Rightarrow> ('d, ChainSubmissionResult) submission_pass) \<Rightarrow> bool" where
  "continues ops n gen k \<longleftrightarrow>
     (\<forall>r. pass_spec ops (held n gen r) (k r) (reported n (gen_identity gen)) (settled n (gen_identity gen)))"

lemma reconcile_then_spec:
  assumes "wf_identity (gen_identity gen)" "wf_observation obs" "wf_explicit d" "continues (env_ops env) n gen k"
  shows "pass_spec (env_ops env) (row_at n gen r) (pass_bind (reconcile_with_durable_state env gen obs d state) k)
    (reported n (gen_identity gen)) (settled n (gen_identity gen))"
proof (rule spec_bind [OF reconcile_with_durable_state_spec [OF assms(1-3)]])
  show "pass_spec (env_ops env) (observed n gen r obs x) (k x) (reported n (gen_identity gen))
      (settled n (gen_identity gen))" for x
    using assms(4) by (blast intro: spec_pre observed_held continues_def [THEN iffD1, rule_format])
qed

lemma finish_tracking_then_spec:
  assumes "gen = derived_generation derived" "wf_identity (gen_identity gen)" "wf_explicit d"
    "continues (env_ops env) n gen k"
  shows "pass_spec (env_ops env) (row_at n gen r) (pass_bind (finish_inconclusive_tracking env derived r d) k)
    (reported n (gen_identity gen)) (settled n (gen_identity gen))"
proof (rule spec_bind [OF finish_inconclusive_tracking_spec [OF assms(1-3)]])
  show "pass_spec (env_ops env) (\<lambda>db ps. \<exists>obs. observed n gen r obs x db ps
       \<and> (obs = ObservedTrackingWindowExpired expired_diagnostic \<or> obs = CandidatePending))
      (k x) (reported n (gen_identity gen)) (settled n (gen_identity gen))" for x
    by (rule spec_pre [OF assms(4) [unfolded continues_def, rule_format]]) (blast dest: observed_held)
qed

lemma continues_report: "continues ops n gen report"
  by (simp add: continues_def report_held)

lemma wf_lookup_diagnostic:
  "wf_progress (LookupFailed failure) \<Longrightarrow> wf_explicit (Some (lookup_diagnostic failure))"
  by (cases failure) (simp_all add: wf_explicit_def)

lemma reconcile_tracking_spec:
  assumes env: "wf_env env" and gen: "gen = derived_generation derived"
    and id: "wf_identity (gen_identity gen)" and recover: "continues (env_ops env) n gen recover"
  shows "pass_spec (env_ops env) (row_at n gen r) (reconcile_tracking env epoch request recover derived r candidate)
    (reported n (gen_identity gen)) (settled n (gen_identity gen))"
  unfolding reconcile_tracking_def gen [symmetric]
proof (intro spec_bind [OF spec_check] spec_if report_row spec_sample)
  fix interrupted t
  have wf: "wf_progress (env_lookup env t candidate)" and sound: "sound_domain (env_ops env)"
    using env by (simp_all add: wf_env_def)
  then show "pass_spec (env_ops env) (row_at n gen r)
     (case env_lookup env t candidate of
         LookupInterrupted \<Rightarrow> report r
       | LookupObserved StatusPending \<Rightarrow>
           pass_bind (finish_inconclusive_tracking env derived r None) recover
       | LookupFailed failure \<Rightarrow>
           pass_bind (tracking_expired env r) (\<lambda>expired.
           if expired
           then pass_bind (finish_inconclusive_tracking env derived r
                            (Some (lookup_diagnostic failure))) recover
           else pass_bind (reconcile_with_durable_state env gen
                             CandidatePending (Some (lookup_diagnostic failure)) StateTracking) (\<lambda>_.
                  pass_fail (lookup_failure failure StateTracking)))
       | LookupObserved CommittedFailure \<Rightarrow>
           pass_bind (reconcile_with_durable_state env gen
               (if is_terminal_candidate request derived
                then TerminalCandidateFailure tracked_failure_diagnostic
                else CandidateCommittedFailure tracked_failure_diagnostic)
               (Some tracked_failure_diagnostic) StateTracking) report
       | LookupObserved (CommittedSuccess committed) \<Rightarrow>
           coordinator_confirm env epoch request derived candidate committed StateTracking)
     (reported n (gen_identity gen)) (settled n (gen_identity gen))"
    using wf_lookup_diagnostic
    by (auto simp add: wf_explicit_def tracked_failure_diagnostic_def
        intro!: report_row finish_tracking_then_spec [OF gen id _ recover]
          spec_bind [OF tracking_expired_spec] spec_if reconcile_and_fail_spec [OF id]
          reconcile_then_spec [OF id _ _ continues_report] coordinator_confirm_spec [OF gen id sound]
        split: LookupProgress.split TransactionStatusObservation.split)
qed

lemma reconcile_recovering_spec:
  assumes env: "wf_env env" and gen: "gen = derived_generation derived"
    and id: "wf_identity (gen_identity gen)" and recover: "continues (env_ops env) n gen recover"
  shows "pass_spec (env_ops env) (row_at n gen r) (reconcile_recovering env epoch request recover derived r candidate)
    (reported n (gen_identity gen)) (settled n (gen_identity gen))"
  unfolding reconcile_recovering_def gen [symmetric]
proof (intro spec_bind [OF spec_check] spec_if report_row spec_sample)
  fix interrupted t
  have wf: "wf_progress (env_lookup env t candidate)" and sound: "sound_domain (env_ops env)"
    using env by (simp_all add: wf_env_def)
  then show "pass_spec (env_ops env) (row_at n gen r)
     (case env_lookup env t candidate of
         LookupInterrupted \<Rightarrow> report r
       | LookupObserved (CommittedSuccess committed) \<Rightarrow>
           coordinator_confirm env epoch request derived candidate committed StateRecovering
       | LookupObserved CommittedFailure \<Rightarrow>
           if is_terminal_candidate request derived
           then pass_bind (reconcile_with_durable_state env gen
                  (TerminalCandidateFailure (recovered_failure_diagnostic request))
                  (Some (recovered_failure_diagnostic request)) StateRecovering) report
           else pass_bind (reconcile_with_durable_state env gen
                  (CandidateCommittedFailure recovery_candidate_failure_diagnostic) None
                  StateRecovering) recover
       | LookupObserved StatusPending \<Rightarrow>
           pass_bind (reconcile_with_durable_state env gen
               CandidatePending None StateRecovering) recover
       | LookupFailed failure \<Rightarrow>
           pass_bind (reconcile_with_durable_state env gen
               ContinueRecovery (Some (lookup_diagnostic failure)) StateRecovering) recover)
     (reported n (gen_identity gen)) (settled n (gen_identity gen))"
    using wf_lookup_diagnostic
    by (auto simp add: wf_explicit_def recovered_failure_diagnostic_def
          recovery_candidate_failure_diagnostic_def recover continues_report
        intro!: report_row spec_if reconcile_then_spec [OF id]
          coordinator_confirm_spec [OF gen id sound]
        split: LookupProgress.split TransactionStatusObservation.split)
qed

lemma reconcile_existing_spec:
  assumes bound: "derived_for env request derived"
    and remaining: "remaining \<le> maximum_post_attempts (env_policy env)"
    and retry: "0 < remaining \<Longrightarrow> retries env derived retry"
    and gen: "gen = derived_generation derived" and n: "n = env_endpoint_count env"
  shows "continues (env_ops env) n gen (reconcile_existing env epoch request recovery remaining retry derived)"
  unfolding continues_def
proof
  fix r
  have env: "wf_env env" and id: "wf_identity (gen_identity gen)"
    using bound by (simp_all add: derived_for_def gen)
  have recover: "continues (env_ops env) n gen (recover_if_enabled env epoch request recovery remaining retry derived)"
    unfolding continues_def
    using recover_if_enabled_spec [OF bound remaining _ gen n, of retry] retry by blast
  show "pass_spec (env_ops env) (held n gen r) (reconcile_existing env epoch request recovery remaining retry derived r)
      (reported n (gen_identity gen)) (settled n (gen_identity gen))"
    using recover [unfolded continues_def]
    by (auto simp add: reconcile_existing_def Let_def report_held held_row
        intro!: spec_pre [OF reconcile_tracking_spec [OF env gen id recover]]
          spec_pre [OF reconcile_recovering_spec [OF env gen id recover]]
        split: SubmissionRecordState.split option.split)
qed

end
