(* ===== verification/Submission_Post_Budget.thy ===== *)
theory Submission_Post_Budget
  imports Submission_Coordinator
begin

text \<open>
  The POST budget of one advancement pass: whatever the environment answers, the pass hands at
  most \<open>maximum_post_attempts\<close> POSTs to the transport, recovery retries included.
\<close>

section \<open>The POST budget\<close>

text \<open>The number of POSTs grows by at most the attempts that remain.\<close>

abbreviation posts_grow :: "nat \<Rightarrow> ('d, 'a) submission_pass \<Rightarrow> bool" where
  "posts_grow \<equiv> grows (\<lambda>w. length (posts w))"

text \<open>A flow that may use \<open>k\<close> POSTs when it is done and none when it continues.\<close>

definition flow_grows :: "nat \<Rightarrow> ('d, 'a flow) submission_pass \<Rightarrow> bool" where
  "flow_grows k m \<longleftrightarrow>
     (\<forall>w. length (posts (snd (m w))) \<le> length (posts w)
        + (case fst (m w) of Inr (Continue _) \<Rightarrow> 0 | _ \<Rightarrow> k))"

lemma posts_grow_sample [simp, intro]: "posts_grow k (sample f)"
  by (simp add: grows_def sample_def)

lemma posts_grow_store [simp, intro]: "posts_grow k (store_op env operation)"
  by (simp add: grows_def store_op_def case_prod_unfold)

lemmas posts_grow_rules = grows_basic posts_grow_sample posts_grow_store grows_after grows_map_err grows_if

lemma posts_grow_steps [simp, intro]:
  "posts_grow k (now_seconds env)"
  "posts_grow k (check_interruption env epoch)"
  "posts_grow k (report r)"
  "posts_grow k (classify_dispatched_post env gen obs)"
  "posts_grow k (remove_fresh env gen)"
  "posts_grow k (reconcile_with_durable_state env gen obs d state)"
  by (simp_all add: now_seconds_def check_interruption_def report_def classify_dispatched_post_def
      remove_fresh_def reconcile_with_durable_state_def grows_after grows_map_err)

lemma posts_grow_case [intro]:
  "\<lbrakk>posts_grow k m; \<And>x. posts_grow k (f x)\<rbrakk> \<Longrightarrow> posts_grow k (case y of None \<Rightarrow> m | Some x \<Rightarrow> f x)"
  by (cases y) simp_all

lemma posts_grow_parts [simp, intro]:
  "posts_grow k (committed_result commit)"
  "posts_grow k (interrupted_without_state reason)"
  "posts_grow k (finish_inconclusive_tracking env derived r d)"
  "posts_grow k (tracking_expired env r)"
  "posts_grow k (reserve_ambiguous_retry_after_backoff env backoff gen r)"
  by (simp_all add: committed_result_def interrupted_without_state_def finish_inconclusive_tracking_def
      tracking_expired_def reserve_ambiguous_retry_after_backoff_def grows_after grows_map_err grows_if
      split: ConfirmationCommit.split Interruption.split)

lemma posts_grow_tree [simp, intro]:
  "posts_grow k (coordinator_confirm_tree env epoch request derived van vcs)"
  "posts_grow k (coordinator_confirm env epoch request derived candidate committed state)"
  "posts_grow k (scan_tree env i derived hash)"
  "posts_grow k (end_hashless env derived)"
  by (auto simp add: coordinator_confirm_tree_def coordinator_confirm_def scan_tree_def end_hashless_def
      intro!: grows_after grows_map_err
      split: sum.split RecoveryScanFailure.split RecoveryScanOutcome.split)

lemma posts_grow_settle [simp, intro]:
  "posts_grow k (settle_nullifier_spent_after_dispatch env epoch request derived r recovery)"
  by (auto simp add: settle_nullifier_spent_after_dispatch_def intro!: grows_after split: RecoveryScan.split)

lemma posts_grow_recover:
  assumes "\<And>r. posts_grow remaining (retry derived r)"
  shows "posts_grow remaining (recover_if_enabled env epoch request recovery remaining retry derived r)"
  using assms
  by (auto simp add: recover_if_enabled_def Let_def intro!: grows_after grows_map_err
      split: SubmissionRecordState.split RecoveryScan.split)

lemma posts_grow_existing:
  assumes "\<And>r. posts_grow remaining (retry derived r)"
  shows "posts_grow remaining (reconcile_existing env epoch request recovery remaining retry derived r)"
  using posts_grow_recover [where retry = retry, OF assms]
  by (auto simp add: reconcile_existing_def reconcile_tracking_def reconcile_recovering_def Let_def
      intro!: grows_after split: SubmissionRecordState.split option.split LookupProgress.split
        TransactionStatusObservation.split)

lemma after_flow_simps [simp]:
  "after_flow k (Done result) = pass_return result"
  "after_flow k (Continue x) = k x"
  by (simp_all add: after_flow_def)

lemma posts_growD: "\<lbrakk>posts_grow k m; m w = (r, w')\<rbrakk> \<Longrightarrow> length (posts w') \<le> length (posts w) + k"
  unfolding grows_def by (metis snd_conv)

lemma flow_growsI:
  assumes "\<And>w r w'. m w = (r, w') \<Longrightarrow> length (posts w') \<le> length (posts w)
    + (case r of Inr (Continue _) \<Rightarrow> 0 | _ \<Rightarrow> k)"
  shows "flow_grows k m"
  unfolding flow_grows_def using assms by (metis prod.collapse)

lemma flow_growsD:
  "\<lbrakk>flow_grows k m; m w = (r, w')\<rbrakk> \<Longrightarrow> length (posts w') \<le> length (posts w)
    + (case r of Inr (Continue _) \<Rightarrow> 0 | _ \<Rightarrow> k)"
  unfolding flow_grows_def by (metis fst_conv snd_conv)

lemma pass_bind_cases:
  assumes "pass_bind m f w = (r, w')"
  obtains e where "m w = (Inl e, w')" "r = Inl e"
  | x v where "m w = (Inr x, v)" "f x v = (r, w')"
  using assms by (auto simp add: pass_bind_def split: prod.splits sum.splits)

lemma flow_grows_return: "flow_grows k (pass_return x)"
  by (rule flow_growsI) (simp add: pass_return_def)

lemma flow_grows_fail: "flow_grows k (pass_fail e)"
  by (rule flow_growsI) (simp add: pass_fail_def)

lemma flow_grows_finish: "posts_grow k m \<Longrightarrow> flow_grows k (finish m)"
  by (rule flow_growsI)
    (auto simp add: finish_def pass_return_def dest: posts_growD elim!: pass_bind_cases)

lemma flow_grows_after:
  assumes m: "posts_grow 0 m" and f: "\<And>x. flow_grows k (f x)"
  shows "flow_grows k (pass_bind m f)"
proof (rule flow_growsI)
  fix w r w'
  assume "pass_bind m f w = (r, w')"
  then show "length (posts w') \<le> length (posts w) + (case r of Inr (Continue _) \<Rightarrow> 0 | _ \<Rightarrow> k)"
  proof (cases rule: pass_bind_cases)
    case (1 e)
    then show ?thesis
      using posts_growD [OF m 1(1)] by simp
  next
    case (2 x v)
    then show ?thesis
      using posts_growD [OF m 2(1)] flow_growsD [OF f 2(2)] by simp
  qed
qed

lemma flow_grows_if: "\<lbrakk>b \<Longrightarrow> flow_grows k m; \<not> b \<Longrightarrow> flow_grows k n\<rbrakk> \<Longrightarrow> flow_grows k (if b then m else n)"
  by simp

lemma posts_grow_flow:
  assumes m: "flow_grows k m" and f: "\<And>x. posts_grow k (f x)"
  shows "posts_grow k (pass_bind m (after_flow f))"
  unfolding grows_def
proof
  fix w
  obtain r w' where run: "pass_bind m (after_flow f) w = (r, w')"
    by (cases "pass_bind m (after_flow f) w")
  then have "length (posts w') \<le> length (posts w) + k"
  proof (cases rule: pass_bind_cases)
    case (1 e)
    then show ?thesis
      using flow_growsD [OF m 1(1)] by simp
  next
    case (2 x v)
    then show ?thesis
    proof (cases x)
      case (Continue y)
      then show ?thesis
        using 2 flow_growsD [OF m 2(1)] posts_growD [OF f, of y v r w'] by simp
    next
      case (Done result)
      then show ?thesis
        using 2 flow_growsD [OF m 2(1)] by (simp add: pass_return_def)
    qed
  qed
  then show "length (posts (snd (pass_bind m (after_flow f) w))) \<le> length (posts w) + k"
    by (simp add: run)
qed

lemma posts_grow_finish: "posts_grow k m \<Longrightarrow> posts_grow k (finish m)"
  unfolding finish_def using grows_bind [of _ k m 0] by fastforce

lemmas flow_grows_rules = flow_grows_return flow_grows_fail flow_grows_finish flow_grows_after flow_grows_if

lemma attempt_outcome_grows:
  assumes "\<And>r. posts_grow k (continue_with r)"
  shows "flow_grows k (attempt_outcome env epoch request recovery final continue_with derived r ambiguous outcome)"
  using assms
  by (cases outcome) (auto simp add: attempt_outcome_def Let_def intro!: flow_grows_rules grows_after)

lemma recovery_outcome_grows:
  "flow_grows k (recovery_outcome env epoch request recovery derived r outcome)"
  by (cases outcome) (auto simp add: recovery_outcome_def Let_def intro!: flow_grows_rules grows_after)

lemma next_attempt_grows: "posts_grow k (next_attempt env request attempt_index derived r ambiguous)"
  unfolding next_attempt_def
  by (auto intro!: grows_after posts_grow_finish
      split: AmbiguousRetryReservation.split option.split StoreAdmission.split)

lemma submit_to_endpoint_grows: "posts_grow 1 (submit_to_endpoint env i derived)"
  unfolding submit_to_endpoint_def
  by (intro grows_if posts_grow_sample grows_basic) (simp add: grows_def Let_def)

lemma post_grows:
  assumes "\<And>race. posts_grow 0 (f race)"
  shows "posts_grow 1 (pass_bind (endpoint_for env r) (\<lambda>i. pass_bind (submit_to_endpoint env i derived) f))"
proof (rule grows_after)
  show "posts_grow 1 (pass_bind (submit_to_endpoint env i derived) f)" for i
    using grows_bind [OF submit_to_endpoint_grows assms] by simp
qed (simp add: endpoint_for_def)

lemma start_attempt_grows: "posts_grow 1 (start_attempt env epoch derived r ambiguous)"
  unfolding start_attempt_def Let_def
  by (intro grows_after posts_grow_case posts_grow_steps posts_grow_sample post_grows grows_if)
    (auto intro!: grows_after posts_grow_finish split: PostRace.split)

lemma start_recovery_retry_grows: "posts_grow 1 (start_recovery_retry env epoch derived r)"
  unfolding start_recovery_retry_def
  by (intro grows_after posts_grow_case posts_grow_steps posts_grow_sample post_grows grows_if)
    (auto intro!: grows_after posts_grow_finish split: PostRace.split)

lemma posts_grow_after_flow: "(\<And>x. posts_grow k (f x)) \<Longrightarrow> posts_grow k (after_flow f flow)"
  by (cases flow) simp_all

lemma loops_grow:
  "posts_grow remaining (attempt_loop env epoch request recovery remaining derived r ambiguous)"
  "posts_grow remaining (submit_recovery_retry env epoch request recovery remaining derived r)"
proof (induction remaining arbitrary: derived r ambiguous)
  case (Suc remaining)
  {
    case 1
    show ?case
      unfolding attempt_loop.simps
      by (rule grows_bind [where j = 1 and k = remaining, simplified],
          rule start_attempt_grows [unfolded One_nat_def], rule posts_grow_after_flow, rule posts_grow_flow)
        (auto intro!: attempt_outcome_grows posts_grow_existing Suc grows_after next_attempt_grows
          posts_grow_after_flow split: prod.split)
  next
    case 2
    show ?case
      unfolding submit_recovery_retry.simps
      by (rule grows_bind [where j = 1 and k = remaining, simplified],
          rule start_recovery_retry_grows [unfolded One_nat_def], rule posts_grow_after_flow,
          rule posts_grow_flow)
        (auto intro!: recovery_outcome_grows Suc grows_after split: AmbiguousRetryReservation.split)
  }
qed simp_all

text \<open>
  C13.  The POST budget: whatever the transport, the clock, the database and the host answer, one
  advancement pass hands at most \<open>maximum_post_attempts\<close> POSTs to the transport, counting fresh
  attempts, retries of ambiguous dispatches and retries authorized by tree recovery.
\<close>

theorem pass_posts_bounded:
  "length (posts (snd (advance_with_recovery env request recovery w)))
   \<le> length (posts w) + maximum_post_attempts (env_policy env)"
proof -
  have "posts_grow (maximum_post_attempts (env_policy env)) (advance_with_recovery env request recovery)"
    unfolding advance_with_recovery_def advance_in_epoch_def advance_ready_def readmit_abandoned_def
      submit_reserved_attempts_def
    by (auto intro!: grows_after grows_map_err loops_grow posts_grow_existing
        split: option.split StoreAdmission.split Interruption.split)
  then show ?thesis
    by (simp add: grows_def)
qed

end
