(* ===== verification/Submission_Coordinator_Safety.thy ===== *)
theory Submission_Coordinator_Safety
  imports Submission_Pass Submission_Post_Budget
begin

text \<open>
  Safety of one advancement pass of the coordinator over every environment: the specifications
  of the POST loop and of admission, and the properties of whole passes.
\<close>

section \<open>The POST loop\<close>

text \<open>
  After a POST with an outcome: a first attempt that may have landed is still \<open>Submitting\<close> until
  the outcome is classified.
\<close>

definition posted ::
  "nat \<Rightarrow> ChainSubmissionGeneration \<Rightarrow> bool \<Rightarrow> StoredChainSubmission \<Rightarrow> PostAttemptOutcome
   \<Rightarrow> 'd assertion" where
  "posted n gen ambiguous r outcome db ps \<longleftrightarrow>
     row_at n gen r db ps
     \<and> (if ambiguous then hashless (stored_state r)
        else stored_state r = Submitting \<and> (landed_race (PostReturned outcome) \<or> \<not> landed ps))"

lemma posted_row: "posted n gen ambiguous r outcome db ps \<Longrightarrow> row_at n gen r db ps"
  by (simp add: posted_def)

definition raced ::
  "nat \<Rightarrow> ChainSubmissionGeneration \<Rightarrow> bool \<Rightarrow> StoredChainSubmission \<Rightarrow> PostRace \<Rightarrow> 'd assertion" where
  "raced n gen ambiguous r race db ps \<longleftrightarrow>
     wf_race race
     \<and> (case race of
          PostReturned outcome \<Rightarrow> posted n gen ambiguous r outcome db ps
        | PostInterrupted reason possible \<Rightarrow>
            if possible then posted n gen ambiguous r (ambiguous_interruption reason) db ps
            else attemptable n gen ambiguous r db ps)"

lemma landed_append: "landed (ps @ [p]) \<longleftrightarrow> landed ps \<or> landed_race (post_race p)"
  by (simp add: landed_def)

lemma reserved_posts_append:
  "reserved_posts n (ps @ [p]) \<longleftrightarrow> reserved_posts n ps \<and> reserved_post n p"
  by (simp add: reserved_posts_def)

lemma submit_to_endpoint_spec:
  fixes env :: "('d, 'ev) pass_env"
  assumes bound: "derived_for env request derived" and gen: "gen = derived_generation derived"
    and n: "n = env_endpoint_count env"
    and endpoint: "endpoint = (unat (committed_post_reservations r) - 1) mod n"
  shows "pass_spec (env_ops env) (attemptable n gen ambiguous r) (submit_to_endpoint env endpoint derived)
    (raced n gen ambiguous r) F"
proof (cases "imported_candidate derived = None")
  case False
  have "raced n gen ambiguous r
      (case env_post env t endpoint (wire_request derived) of
         PostInterrupted reason _ \<Rightarrow> PostInterrupted reason False
       | PostReturned _ \<Rightarrow> PostReturned (PostLocalFailure imported_dispatch_diagnostic)) db ps"
    if "attemptable n gen ambiguous r db ps" for t and db :: "'d voting_db" and ps
    using that by (auto simp add: raced_def posted_def attemptable_def imported_dispatch_diagnostic_def
        split: PostRace.split)
  with False show ?thesis
    by (auto simp add: submit_to_endpoint_def intro!: spec_sampled)
next
  case True
  have wf: "wf_race (env_post env t endpoint (wire_request derived))" for t
    using bound by (simp add: derived_for_def wf_env_def)
  have "raced n gen ambiguous r race db
      (ps @ [\<lparr>post_generation = gen, post_endpoint = endpoint, post_race = race, post_db = db\<rparr>])"
    if "attemptable n gen ambiguous r db ps" "wf_race race" for race ps and db :: "'d voting_db"
    using that bound by (auto simp add: derived_for_def gen raced_def posted_def attemptable_def row_at_def landed_append
        ambiguous_interruption_def reserved_posts_append reserved_post_def endpoint
        split: PostRace.split if_splits)
  with True wf bound show ?thesis
    by (intro specI) (auto simp add: submit_to_endpoint_def Let_def gen derived_for_def)
qed

lemma endpoint_for_spec:
  "0 < env_endpoint_count env \<Longrightarrow>
   pass_spec (env_ops env) A (endpoint_for env r)
     (\<lambda>i db ps. i = (unat (committed_post_reservations r) - 1) mod env_endpoint_count env \<and> A db ps) F"
  by (simp add: endpoint_for_def spec_return)

lemma post_spec:
  assumes bound: "derived_for env request derived" and gen: "gen = derived_generation derived"
    and n: "n = env_endpoint_count env"
  shows "pass_spec (env_ops env) (attemptable n gen ambiguous r)
    (pass_bind (endpoint_for env r) (\<lambda>i. submit_to_endpoint env i derived))
    (raced n gen ambiguous r) F"
proof (rule spec_bind [OF endpoint_for_spec])
  show "0 < env_endpoint_count env"
    using bound by (simp add: derived_for_def wf_env_def)
qed (rule spec_pure, rule submit_to_endpoint_spec [OF bound gen n], simp add: n)

definition outcome_known ::
  "nat \<Rightarrow> ChainSubmissionGeneration \<Rightarrow> bool \<Rightarrow> StoredChainSubmission \<Rightarrow> PostAttemptOutcome flow
   \<Rightarrow> 'd assertion" where
  "outcome_known n gen ambiguous r flow =
     (case flow of
        Done result \<Rightarrow> reported n (gen_identity gen) result
      | Continue outcome \<Rightarrow> (\<lambda>db ps. wf_outcome outcome \<and> posted n gen ambiguous r outcome db ps))"

lemma finish_known:
  "pass_spec ops A m (reported n (gen_identity gen)) F
   \<Longrightarrow> pass_spec ops A (finish m) (outcome_known n gen ambiguous r) F"
  unfolding outcome_known_def by (rule finish_spec)

lemma interrupted_without_state_spec:
  "pass_spec ops (gone n i) (interrupted_without_state reason) (reported n i) (settled n i)"
  by (auto simp add: interrupted_without_state_def reported_def truthful_def gone_def settled_def
      split: Interruption.split intro!: spec_return spec_fail)

lemma leave_spec:
  assumes id: "wf_identity (gen_identity gen)"
  shows "pass_spec (env_ops env) (attemptable n gen ambiguous r)
    (if ambiguous then finish (report r)
     else pass_bind (remove_fresh env gen) (\<lambda>_. finish (interrupted_without_state reason)))
    (outcome_known n gen ambiguous' r) (settled n (gen_identity gen))"
  by (auto intro!: finish_known spec_pre [OF report_row] attemptable_row spec_bind [OF remove_fresh_spec [OF id]]
      interrupted_without_state_spec)

lemma start_attempt_spec:
  assumes bound: "derived_for env request derived" and gen: "gen = derived_generation derived"
    and n: "n = env_endpoint_count env"
  shows "pass_spec (env_ops env) (attemptable n gen ambiguous r) (start_attempt env epoch derived r ambiguous)
    (outcome_known n gen ambiguous r) (settled n (gen_identity gen))"
proof -
  have id: "wf_identity (gen_identity gen)"
    using bound by (simp add: derived_for_def gen)
  have raced: "pass_spec (env_ops env) (raced n gen ambiguous r race)
      (case race of
         PostReturned outcome \<Rightarrow> pass_return (Continue outcome)
       | PostInterrupted reason possible \<Rightarrow>
           if \<not> possible
           then if ambiguous then finish (report r)
                else pass_bind (remove_fresh env gen) (\<lambda>_. finish (interrupted_without_state reason))
           else pass_return (Continue (ambiguous_interruption reason)))
      (outcome_known n gen ambiguous r) (settled n (gen_identity gen))" for race
    by (cases race) (auto simp add: raced_def outcome_known_def ambiguous_interruption_def
        intro!: spec_return finish_known spec_pre [OF report_row] attemptable_row
          spec_bind [OF spec_pre [OF remove_fresh_spec [OF id]]] interrupted_without_state_spec)
  have failed: "pass_spec (env_ops env) (attemptable n gen ambiguous r)
      (pass_bind (if ambiguous then pass_return () else remove_fresh env gen) (\<lambda>_. pass_fail error))
      (outcome_known n gen ambiguous r) (settled n (gen_identity gen))" for error
    by (rule spec_bind [where R = "\<lambda>_. settled n (gen_identity gen)"])
      (auto intro!: spec_return spec_fail spec_conseq [OF remove_fresh_spec [OF id]]
        dest: attemptable_settled gone_settled)
  show ?thesis
    unfolding start_attempt_def Let_def gen [symmetric] pass_bind_assoc [symmetric]
    by (intro spec_bind [OF spec_check] spec_option leave_spec [OF id] spec_sample failed
        spec_bind [OF post_spec [OF bound gen n] raced])
qed

lemma start_recovery_retry_spec:
  assumes bound: "derived_for env request derived" and gen: "gen = derived_generation derived"
    and n: "n = env_endpoint_count env"
  shows "pass_spec (env_ops env) (attemptable n gen True r) (start_recovery_retry env epoch derived r)
    (outcome_known n gen True r) (settled n (gen_identity gen))"
proof -
  have raced: "pass_spec (env_ops env) (raced n gen True r race)
      (case race of
         PostReturned outcome \<Rightarrow> pass_return (Continue outcome)
       | PostInterrupted reason possible \<Rightarrow>
           if \<not> possible then finish (report r)
           else pass_return (Continue (ambiguous_interruption reason)))
      (outcome_known n gen True r) (settled n (gen_identity gen))" for race
    by (cases race) (auto simp add: raced_def outcome_known_def ambiguous_interruption_def
        intro!: spec_return finish_known spec_pre [OF report_row] attemptable_row)
  show ?thesis
    unfolding start_recovery_retry_def
    by (rule spec_bind [OF spec_check])
      (auto simp add: pass_bind_assoc [symmetric]
        intro!: spec_sample finish_known spec_pre [OF report_row] spec_fail attemptable_row
          attemptable_settled spec_bind [OF post_spec [OF bound gen n] raced]
        split: option.split)
qed

text \<open>What one outcome leaves for the next attempt: an ambiguous row, or nothing sent and no row.\<close>

definition attempt_left ::
  "nat \<Rightarrow> ChainSubmissionGeneration \<Rightarrow> bool \<Rightarrow> (StoredChainSubmission \<times> bool) flow \<Rightarrow> 'd assertion" where
  "attempt_left n gen final flow =
     (case flow of
        Done result \<Rightarrow> reported n (gen_identity gen) result
      | Continue (r, ambiguous) \<Rightarrow> (\<lambda>db ps. \<not> (final \<and> \<not> ambiguous) \<and>
          (if ambiguous then attemptable n gen True r db ps else gone n (gen_identity gen) db ps)))"

lemma unusable_hashless: "returned_candidate_is_unusable s \<longleftrightarrow> hashless s"
  by (cases s rule: returned_candidate_is_unusable.cases) (simp_all add: hashless_def)

lemma held_hashless: "\<lbrakk>held n gen r db ps; hashless (stored_state r)\<rbrakk> \<Longrightarrow> attemptable n gen True r db ps"
  by (auto simp add: attemptable_def hashless_def intro!: held_row)

lemma finish_left:
  "pass_spec ops A m (reported n (gen_identity gen)) F
   \<Longrightarrow> pass_spec ops A (finish m) (attempt_left n gen final) F"
  unfolding attempt_left_def by (rule finish_spec)

lemma classify_then_spec:
  assumes "wf_identity (gen_identity gen)" "wf_observation obs"
    and "\<And>x. pass_spec (env_ops env) (observed n gen r obs x) (k x) Q (settled n (gen_identity gen))"
  shows "pass_spec (env_ops env) (row_at n gen r) (pass_bind (classify_dispatched_post env gen obs) k)
    Q (settled n (gen_identity gen))"
  by (rule spec_bind [OF classify_dispatched_post_spec [OF assms(1,2)] assms(3)])

text \<open>The unsent arms: the fresh row is removed, an ambiguous row stays.\<close>

lemma unsent_spec:
  assumes id: "wf_identity (gen_identity gen)" and unsent: "\<not> landed_race (PostReturned outcome)"
  shows "pass_spec (env_ops env) (posted n gen ambiguous r outcome)
    (pass_bind (if ambiguous
                then reconcile_with_durable_state env gen DefinitelyNotDispatched
                       (Some (from_redacted_message ReconciliationPending message)) StateRecovering
                else pass_bind (remove_fresh env gen) (\<lambda>_. pass_return r)) (\<lambda>record.
     if final then pass_fail (failure record) else pass_return (Continue (record, ambiguous))))
    (attempt_left n gen final) (settled n (gen_identity gen))"
proof (rule spec_bind [where R = "\<lambda>x db ps. if ambiguous then attemptable n gen True x db ps
       else gone n (gen_identity gen) db ps"])
  show "pass_spec (env_ops env) (posted n gen ambiguous r outcome)
      (if ambiguous
       then reconcile_with_durable_state env gen DefinitelyNotDispatched
              (Some (from_redacted_message ReconciliationPending message)) StateRecovering
       else pass_bind (remove_fresh env gen) (\<lambda>_. pass_return r))
      (\<lambda>x db ps. if ambiguous then attemptable n gen True x db ps else gone n (gen_identity gen) db ps)
      (settled n (gen_identity gen))"
  proof (cases ambiguous)
    case True
    have "pass_spec (env_ops env) (\<lambda>db ps. hashless (stored_state r) \<and> row_at n gen r db ps)
       (reconcile_with_durable_state env gen DefinitelyNotDispatched
          (Some (from_redacted_message ReconciliationPending message)) StateRecovering)
       (attemptable n gen True) (settled n (gen_identity gen))"
      by (rule spec_pure, rule spec_conseq [OF reconcile_with_durable_state_spec [OF id]])
        (auto simp add: wf_explicit_def dest: observed_ambiguous)
    then show ?thesis
      using True by (auto simp add: posted_def elim: spec_pre)
  next
    case False
    then show ?thesis
      using unsent by (auto intro!: spec_bind [OF spec_pre [OF remove_fresh_spec [OF id, of env n r]]] spec_return
          simp add: posted_def attemptable_def)
  qed
qed (auto simp add: attempt_left_def intro!: spec_return spec_fail dest: attemptable_settled gone_settled)

lemma attempt_outcome_spec:
  assumes bound: "derived_for env request derived" and gen: "gen = derived_generation derived"
    and wf: "wf_outcome outcome" and k: "continues (env_ops env) n gen k"
  shows "pass_spec (env_ops env) (posted n gen ambiguous r outcome)
    (attempt_outcome env epoch request recovery final k derived r ambiguous outcome)
    (attempt_left n gen final) (settled n (gen_identity gen))"
proof -
  have env: "wf_env env" and id: "wf_identity (gen_identity gen)"
    and request: "request_identity request = gen_identity gen"
    using bound by (simp_all add: derived_for_def gen)
  have run: "pass_spec (env_ops env) (held n gen x) (k x) (reported n (gen_identity gen)) (settled n (gen_identity gen))" for x
    using k by (simp add: continues_def)
  have left: "attempt_left n gen final (Continue (x, True)) db ps \<longleftrightarrow> attemptable n gen True x db ps"
    for x and db :: "'a voting_db" and ps
    by (simp add: attempt_left_def)
  show ?thesis
  proof (cases outcome)
    case (PostAccepted h)
    have "pass_spec (env_ops env) (row_at n gen r)
        (attempt_outcome env epoch request recovery final k derived r ambiguous outcome)
        (attempt_left n gen final) (settled n (gen_identity gen))"
      using wf unfolding attempt_outcome_def Let_def PostAccepted gen [symmetric]
      by (auto simp add: unusable_hashless left intro!: classify_then_spec [OF id] spec_if spec_return
          finish_left spec_pre [OF run] held_hashless dest: observed_held)
    then show ?thesis
      by (rule spec_pre) (rule posted_row)
  next
    case (PostRejected kind d)
    have "pass_spec (env_ops env) (row_at n gen r)
        (attempt_outcome env epoch request recovery final k derived r ambiguous outcome)
        (attempt_left n gen final) (settled n (gen_identity gen))"
      using wf unfolding attempt_outcome_def Let_def PostRejected gen [symmetric] PostAttemptOutcome.case
      by (intro spec_if finish_left settle_nullifier_spent_spec [OF gen id env request]
          classify_then_spec [OF id] spec_pre [OF report_held] spec_fail)
        (auto dest: observed_held held_settled)
    then show ?thesis
      by (rule spec_pre) (rule posted_row)
  next
    case (PostPossiblyDispatched d)
    have "pass_spec (env_ops env) (\<lambda>db ps. (stored_state r = Submitting \<or> hashless (stored_state r)) \<and> row_at n gen r db ps)
        (attempt_outcome env epoch request recovery final k derived r ambiguous outcome)
        (attempt_left n gen final) (settled n (gen_identity gen))"
      using wf unfolding attempt_outcome_def Let_def PostPossiblyDispatched gen [symmetric]
        PostAttemptOutcome.case
      by (intro spec_pure spec_if finish_left classify_then_spec [OF id] spec_bind [OF spec_check]
          spec_pre [OF report_held] spec_return)
        (auto simp add: left intro: observed_ambiguous dest: observed_held)
    then show ?thesis
      by (rule spec_pre) (auto simp add: posted_def split: if_splits)
  next
    case (PostLocalFailure d)
    have "pass_spec (env_ops env) (posted n gen ambiguous r outcome)
        (pass_bind (remove_fresh env gen) (\<lambda>_. pass_fail failure))
        (attempt_left n gen final) (settled n (gen_identity gen))" if "\<not> ambiguous" for failure
      using that by (auto intro!: spec_bind [OF spec_pre [OF remove_fresh_spec [OF id, of env n r]]] spec_fail
          simp add: posted_def attemptable_def PostLocalFailure dest: gone_settled)
    then show ?thesis
      unfolding attempt_outcome_def Let_def gen [symmetric] PostLocalFailure PostAttemptOutcome.case
      by (intro spec_if spec_fail) (auto dest: posted_row row_at_settled)
  qed (auto simp only: attempt_outcome_def Let_def gen [symmetric] PostAttemptOutcome.case
      landed_race.simps intro!: unsent_spec [OF id])
qed

definition recovery_left ::
  "nat \<Rightarrow> ChainSubmissionGeneration \<Rightarrow> StoredChainSubmission flow \<Rightarrow> 'd assertion" where
  "recovery_left n gen flow =
     (case flow of
        Done result \<Rightarrow> reported n (gen_identity gen) result
      | Continue r \<Rightarrow> attemptable n gen True r)"

lemma finish_recovery:
  "pass_spec ops A m (reported n (gen_identity gen)) F \<Longrightarrow> pass_spec ops A (finish m) (recovery_left n gen) F"
  unfolding recovery_left_def by (rule finish_spec)

lemma recovery_outcome_spec:
  assumes bound: "derived_for env request derived" and gen: "gen = derived_generation derived"
    and wf: "wf_outcome outcome"
  shows "pass_spec (env_ops env) (posted n gen True r outcome)
    (recovery_outcome env epoch request recovery derived r outcome)
    (recovery_left n gen) (settled n (gen_identity gen))"
proof -
  have env: "wf_env env" and id: "wf_identity (gen_identity gen)"
    and request: "request_identity request = gen_identity gen"
    using bound by (simp_all add: derived_for_def gen)
  have left: "recovery_left n gen (Continue x) db ps \<longleftrightarrow> attemptable n gen True x db ps"
    for x and db :: "'a voting_db" and ps
    by (simp add: recovery_left_def)
  have "pass_spec (env_ops env) (\<lambda>db ps. hashless (stored_state r) \<and> row_at n gen r db ps)
    (recovery_outcome env epoch request recovery derived r outcome)
    (recovery_left n gen) (settled n (gen_identity gen))"
    using wf unfolding recovery_outcome_def Let_def gen [symmetric]
    by (intro spec_pure, cases outcome; simp only: PostAttemptOutcome.case)
      (auto simp add: wf_explicit_def unusable_hashless left
        intro!: classify_then_spec [OF id] spec_if finish_recovery
          spec_pre [OF report_held] spec_return spec_fail reconcile_and_fail_spec [OF id]
          settle_nullifier_spent_spec [OF gen id env request]
        intro: observed_ambiguous held_hashless [OF observed_held] observed_held held_settled)
  then show ?thesis
    by (rule spec_pre) (simp add: posted_def)
qed

text \<open>What an admission hands to the pass before anything was sent.\<close>

definition admitted_at ::
  "('d, 'ev) pass_env \<Rightarrow> StoreAdvancementRequest \<Rightarrow> StoreAdmission \<Rightarrow> 'd assertion" where
  "admitted_at env request admission db ps \<longleftrightarrow>
     reserved_posts (env_endpoint_count env) ps \<and> \<not> landed ps
     \<and> (case admission of
          NoAuthoritativeState \<Rightarrow> no_row db (request_identity request)
        | Authoritative r \<Rightarrow> row_in db (request_identity request) r
        | AbandonedReservation r \<Rightarrow> row_in db (request_identity request) r
        | Ready derived r fresh \<Rightarrow>
            derived_for env request derived
            \<and> row_at (env_endpoint_count env) (derived_generation derived) r db ps
            \<and> (fresh \<longrightarrow> stored_state r = Submitting))"

definition unsent :: "('d, 'ev) pass_env \<Rightarrow> 'd assertion" where
  "unsent env db ps \<longleftrightarrow>
     (\<exists>rs. db_rep db rs) \<and> reserved_posts (env_endpoint_count env) ps \<and> \<not> landed ps"

lemma unsent_settled: "unsent env db ps \<Longrightarrow> settled (env_endpoint_count env) i db ps"
proof -
  assume A: "unsent env db ps"
  then obtain rs where "db_rep db rs"
    by (auto simp add: unsent_def)
  then have "(\<exists>r. row_in db i r) \<or> no_row db i"
    by (cases "lookup_record rs i") (auto simp add: row_in_def no_row_def intro: agrees_refl)
  with A show ?thesis
    by (auto simp add: settled_def unsent_def)
qed

lemma admitted_unsent: "admitted_at env request admission db ps \<Longrightarrow> unsent env db ps"
  by (auto simp add: admitted_at_def unsent_def row_at_def split: StoreAdmission.splits
      dest: row_in_rep no_row_rep)

lemma gone_unsent: "gone (env_endpoint_count env) i db ps \<Longrightarrow> unsent env db ps"
  by (auto simp add: gone_def unsent_def dest: no_row_rep)

lemma admit_spec:
  assumes env: "wf_env env" and id: "wf_identity (request_identity request)"
  shows "pass_spec (env_ops env) (unsent env) (store_op env (\<lambda>f. admit (env_ops env) f request allowed ordinal now))
    (admitted_at env request) (settled (env_endpoint_count env) (request_identity request))"
proof (rule spec_store [OF is_call_admit [OF id]])
  fix faults ps x and db db' :: "'a voting_db"
  assume A: "unsent env db ps"
    and ok: "admit (env_ops env) faults request allowed ordinal now db = (Inr x, db')"
  have sound: "sound_domain (env_ops env)"
    using env by (simp add: wf_env_def)
  obtain rs where "db_rep db rs"
    using A by (auto simp add: unsent_def)
  from admit_row [OF this id sound ok] have admitted: "admitted (env_ops env) request db x db'" .
  have "derived_for env request derived" if "derive (env_ops env) db (derivation request) = Inr derived"
    for derived
    using that derive_sound(1) [OF sound that] env id unfolding derived_for_def wf_env_def request_identity_def
    by metis
  then show "admitted_at env request x db' ps"
    using admitted A derive_sound(1) [OF sound]
    by (cases x) (auto simp add: admitted_def admitted_at_def unsent_def row_at_def request_identity_def Let_def
        split: if_splits)
next
  fix faults ps e and db db' :: "'a voting_db"
  assume "unsent env db ps" "admit (env_ops env) faults request allowed ordinal now db = (Inl e, db')"
  then show "settled (env_endpoint_count env) (request_identity request) db' ps"
    using admit_failure [of "env_ops env" faults request allowed ordinal now db e] unsent_settled by auto
qed

lemma spec_index_then:
  "\<lbrakk>i < length xs; pass_spec ops A (f (xs ! i)) Q F\<rbrakk> \<Longrightarrow> pass_spec ops A (pass_bind (pass_index xs i) f) Q F"
  by (rule spec_bind [where R = "\<lambda>x db ps. x = xs ! i \<and> A db ps"])
    (auto intro: spec_index spec_pure)

definition next_left ::
  "('d, 'ev) pass_env \<Rightarrow> StoreAdvancementRequest \<Rightarrow> ChainSubmissionGeneration \<Rightarrow> bool
   \<Rightarrow> (DerivedChainSubmission \<times> StoredChainSubmission) flow \<Rightarrow> 'd assertion" where
  "next_left env request gen ambiguous flow =
     (case flow of
        Done result \<Rightarrow> reported (env_endpoint_count env) (gen_identity gen) result
      | Continue (derived, r) \<Rightarrow> (\<lambda>db ps.
          (derived_for env request derived \<and> derived_generation derived = gen)
          \<and> attemptable (env_endpoint_count env) gen ambiguous r db ps))"

lemma finish_next:
  "pass_spec (env_ops env) A m (reported (env_endpoint_count env) (gen_identity gen)) F
   \<Longrightarrow> pass_spec (env_ops env) A (finish m) (next_left env request gen ambiguous) F"
  unfolding next_left_def by (rule finish_spec)

lemma readmitted_spec:
  assumes i: "request_identity request = gen_identity gen"
  shows "pass_spec (env_ops env) (admitted_at env request admission)
     (case admission of
        Ready retried record fresh \<Rightarrow>
          if fresh \<and> derived_generation retried = gen then pass_return (Continue (retried, record))
          else finish (report record)
      | Authoritative record \<Rightarrow> finish (report record)
      | AbandonedReservation record \<Rightarrow> finish (report record)
      | NoAuthoritativeState \<Rightarrow> pass_fail failure)
     (next_left env request gen False) (settled (env_endpoint_count env) (gen_identity gen))"
proof (cases admission)
  case (Ready retried r fresh)
  show ?thesis
    unfolding Ready StoreAdmission.case
    by (intro spec_if spec_return finish_next spec_pre [OF report_spec])
      (auto simp add: next_left_def admitted_at_def attemptable_def returned_def row_at_def i derived_for_def)
qed (auto simp add: admitted_at_def returned_def settled_def i
    intro!: finish_next spec_pre [OF report_spec] spec_fail)

lemma next_attempt_spec:
  assumes bound: "derived_for env request derived" and gen: "gen = derived_generation derived"
    and n: "n = env_endpoint_count env" and index: "attempt_index < length (retry_backoffs (env_policy env))"
  shows "pass_spec (env_ops env) (\<lambda>db ps. if ambiguous then attemptable n gen True r db ps else gone n (gen_identity gen) db ps)
    (next_attempt env request attempt_index derived r ambiguous)
    (next_left env request gen ambiguous) (settled n (gen_identity gen))"
proof (cases ambiguous)
  case True
  have id: "wf_identity (gen_identity gen)"
    using bound by (simp add: derived_for_def gen)
  have "pass_spec (env_ops env) (retry_reserved n gen x)
      (case x of RetryReserved record \<Rightarrow> pass_return (Continue (derived, record))
       | RetryInterrupted record \<Rightarrow> finish (report record))
      (next_left env request gen True) (settled n (gen_identity gen))" for x
    using bound by (cases x) (auto simp add: retry_reserved_def next_left_def n gen
        intro!: spec_return spec_pure finish_next report_row)
  with True show ?thesis
    unfolding next_attempt_def gen [symmetric]
    by (auto intro!: spec_index_then [OF index]
        spec_bind [OF spec_pre [OF reserve_ambiguous_retry_after_backoff_spec [OF id]]] attemptable_row)
next
  case False
  have env: "wf_env env" and i: "request_identity request = gen_identity gen"
    and id: "wf_identity (request_identity request)"
    using bound by (simp_all add: derived_for_def gen)
  have "pass_spec (env_ops env) (gone n (gen_identity gen)) (next_attempt env request attempt_index derived r False)
      (next_left env request gen False) (settled n (gen_identity gen))"
    unfolding next_attempt_def gen [symmetric] if_False n
    by (intro spec_index_then [OF index] spec_sample spec_option finish_next
        interrupted_without_state_spec spec_bind [OF spec_now [OF gone_settled]]
        spec_bind [OF spec_pre [OF admit_spec [OF env id, unfolded i] gone_unsent] readmitted_spec [OF i]])
  with False show ?thesis
    by simp
qed

lemma after_flow_spec:
  assumes "\<And>result. pass_spec ops (A (Done result)) (pass_return result) Q F"
    "\<And>x. pass_spec ops (A (Continue x)) (k x) Q F"
  shows "pass_spec ops (A flow) (after_flow k flow) Q F"
  using assms by (cases flow) (simp_all add: after_flow_def)

abbreviation loop_spec ::
  "('d, 'ev) pass_env \<Rightarrow> StoreAdvancementRequest \<Rightarrow> 'd assertion
   \<Rightarrow> ('d, ChainSubmissionResult) submission_pass \<Rightarrow> bool" where
  "loop_spec env request A m \<equiv>
     pass_spec (env_ops env) A m (reported (env_endpoint_count env) (request_identity request))
       (settled (env_endpoint_count env) (request_identity request))"

text \<open>The end of one iteration, given what the remaining attempts do.\<close>

lemma after_attempt_spec:
  assumes bound: "derived_for env request derived" and gen: "gen = derived_generation derived"
    and n: "n = env_endpoint_count env"
    and remaining: "Suc remaining \<le> maximum_post_attempts (env_policy env)"
    and loop: "\<And>d r ambiguous. \<lbrakk>0 < remaining; derived_for env request d\<rbrakk> \<Longrightarrow>
      loop_spec env request (attemptable (env_endpoint_count env) (derived_generation d) ambiguous r)
        (attempt_loop env epoch request recovery remaining d r ambiguous)"
  shows "pass_spec (env_ops env) (attempt_left n gen (remaining = 0) flow)
      (after_flow (\<lambda>(record, ambiguous).
         if remaining = 0 then report record
         else pass_bind (next_attempt env request
                (maximum_post_attempts (env_policy env) - Suc remaining) derived record ambiguous)
           (after_flow (\<lambda>(d, r). attempt_loop env epoch request recovery remaining d r ambiguous))) flow)
      (reported n (gen_identity gen)) (settled n (gen_identity gen))"
proof (cases flow)
  case (Continue x)
  have i: "request_identity request = gen_identity gen" and policy: "wf_policy (env_policy env)"
    using bound by (simp_all add: derived_for_def gen wf_env_def)
  have go: "pass_spec (env_ops env) (next_left env request gen ambiguous flow)
      (after_flow (\<lambda>x. attempt_loop env epoch request recovery remaining (fst x) (snd x) ambiguous) flow)
      (reported n (gen_identity gen)) (settled n (gen_identity gen))"
    if "0 < remaining" for flow ambiguous
    using loop [OF that] unfolding i n
    by (cases flow) (auto simp add: next_left_def intro!: spec_return spec_pure split: prod.splits)
  have index: "maximum_post_attempts (env_policy env) - Suc remaining < length (retry_backoffs (env_policy env))"
    if "remaining \<noteq> 0"
    using remaining policy that by (simp add: wf_policy_def)
  show ?thesis
    unfolding Continue after_flow_simps(2) attempt_left_def flow.case split_def
    by (intro spec_pure spec_if spec_bind [OF next_attempt_spec [OF bound gen n index]] go
        spec_pre [OF report_row]) (auto dest: attemptable_row)
qed (auto simp add: attempt_left_def intro: spec_return)

lemma attempt_step_spec:
  assumes bound: "derived_for env request derived"
    and remaining: "Suc remaining \<le> maximum_post_attempts (env_policy env)"
    and loop: "\<And>d r ambiguous. \<lbrakk>0 < remaining; derived_for env request d\<rbrakk> \<Longrightarrow>
      loop_spec env request (attemptable (env_endpoint_count env) (derived_generation d) ambiguous r)
        (attempt_loop env epoch request recovery remaining d r ambiguous)"
    and retry: "\<And>r. 0 < remaining \<Longrightarrow>
      loop_spec env request (attemptable (env_endpoint_count env) (derived_generation derived) True r)
        (submit_recovery_retry env epoch request recovery remaining derived r)"
  shows "loop_spec env request (attemptable (env_endpoint_count env) (derived_generation derived) ambiguous r)
    (attempt_loop env epoch request recovery (Suc remaining) derived r ambiguous)"
proof -
  define gen where "gen = derived_generation derived"
  define n where "n = env_endpoint_count env"
  have i: "request_identity request = gen_identity gen"
    using bound by (simp add: derived_for_def gen_def)
  have k: "continues (env_ops env) n gen (reconcile_existing env epoch request recovery remaining
      (\<lambda>d r. submit_recovery_retry env epoch request recovery remaining d r) derived)"
    using retry remaining
    by (intro reconcile_existing_spec [OF bound _ _ gen_def n_def]) (simp_all add: i gen_def)
  show ?thesis
    unfolding attempt_loop.simps i n_def [symmetric] gen_def [symmetric]
  proof (rule spec_bind [OF start_attempt_spec [OF bound gen_def n_def]], goal_cases)
    case (1 flow)
    show ?case
    proof (cases flow)
      case (Continue outcome)
      show ?thesis
        unfolding Continue after_flow_simps(2) outcome_known_def flow.case
        by (intro spec_pure spec_bind [OF attempt_outcome_spec [OF bound gen_def _ k]]
            after_attempt_spec [OF bound gen_def n_def remaining loop])
    qed (auto simp add: outcome_known_def intro: spec_return)
  qed
qed

lemma recovery_step_spec:
  assumes bound: "derived_for env request derived"
    and remaining: "Suc remaining \<le> maximum_post_attempts (env_policy env)"
    and loop: "\<And>d r ambiguous. \<lbrakk>0 < remaining; derived_for env request d\<rbrakk> \<Longrightarrow>
      loop_spec env request (attemptable (env_endpoint_count env) (derived_generation d) ambiguous r)
        (attempt_loop env epoch request recovery remaining d r ambiguous)"
  shows "loop_spec env request (attemptable (env_endpoint_count env) (derived_generation derived) True r)
    (submit_recovery_retry env epoch request recovery (Suc remaining) derived r)"
proof -
  define gen where "gen = derived_generation derived"
  define n where "n = env_endpoint_count env"
  have i: "request_identity request = gen_identity gen" and id: "wf_identity (gen_identity gen)"
    and policy: "wf_policy (env_policy env)"
    using bound by (simp_all add: derived_for_def gen_def wf_env_def)
  have index: "maximum_post_attempts (env_policy env) - Suc remaining < length (retry_backoffs (env_policy env))"
    if "remaining \<noteq> 0"
    using remaining policy that by (simp add: wf_policy_def)
  have again: "pass_spec (env_ops env) (retry_reserved n gen reservation)
      (case reservation of
         RetryInterrupted record \<Rightarrow> report record
       | RetryReserved record \<Rightarrow>
           attempt_loop env epoch request recovery remaining derived record
             (permits_ambiguous_retry (stored_state record)))
      (reported n (gen_identity gen)) (settled n (gen_identity gen))"
    if "remaining \<noteq> 0" for reservation
    using loop [OF _ bound] that unfolding i
    by (cases reservation) (auto simp add: retry_reserved_def n_def gen_def intro!: report_row spec_pure)
  have left: "pass_spec (env_ops env) (recovery_left n gen flow)
      (after_flow (\<lambda>ambiguous.
         if remaining = 0 then report ambiguous
         else pass_bind (check_interruption env epoch) (\<lambda>interrupted.
           if interrupted \<noteq> None then report ambiguous
           else pass_bind (pass_index (retry_backoffs (env_policy env))
                 (maximum_post_attempts (env_policy env) - Suc remaining)) (\<lambda>backoff.
               pass_bind (reserve_ambiguous_retry_after_backoff env backoff gen ambiguous) (\<lambda>reservation.
               case reservation of
                 RetryInterrupted record \<Rightarrow> report record
               | RetryReserved record \<Rightarrow>
                   attempt_loop env epoch request recovery remaining derived record
                     (permits_ambiguous_retry (stored_state record)))))) flow)
      (reported n (gen_identity gen)) (settled n (gen_identity gen))" for flow
    unfolding recovery_left_def
    by (cases flow; simp only: after_flow_simps flow.case)
      (intro spec_return spec_if spec_pre [OF report_row] attemptable_row spec_bind [OF spec_check]
        spec_index_then index spec_bind [OF spec_pre [OF reserve_ambiguous_retry_after_backoff_spec [OF id]] again];
        assumption)+
  show ?thesis
    unfolding submit_recovery_retry.simps i n_def [symmetric] gen_def [symmetric]
  proof (rule spec_bind [OF start_recovery_retry_spec [OF bound gen_def n_def]], goal_cases)
    case (1 flow)
    show ?case
    proof (cases flow)
      case (Continue outcome)
      show ?thesis
        unfolding Continue after_flow_simps(2) outcome_known_def flow.case
        by (intro spec_pure spec_bind [OF recovery_outcome_spec [OF bound gen_def] left])
    qed (auto simp add: outcome_known_def intro: spec_return)
  qed
qed

lemma loops_spec:
  assumes "remaining \<le> maximum_post_attempts (env_policy env)"
  shows "\<lbrakk>0 < remaining; derived_for env request derived\<rbrakk> \<Longrightarrow>
      loop_spec env request (attemptable (env_endpoint_count env) (derived_generation derived) ambiguous r)
        (attempt_loop env epoch request recovery remaining derived r ambiguous)"
    and "\<lbrakk>0 < remaining; derived_for env request derived\<rbrakk> \<Longrightarrow>
      loop_spec env request (attemptable (env_endpoint_count env) (derived_generation derived) True r)
        (submit_recovery_retry env epoch request recovery remaining derived r)"
  using assms
proof (induction remaining arbitrary: derived r ambiguous)
  case (Suc remaining)
  {
    case 1
    then show ?case
      using Suc by (intro attempt_step_spec) simp_all
  next
    case 2
    then show ?case
      using Suc by (intro recovery_step_spec) simp_all
  }
qed simp_all

section \<open>Advancement\<close>

lemma submit_reserved_attempts_spec:
  assumes "derived_for env request derived"
  shows "loop_spec env request
    (attemptable (env_endpoint_count env) (derived_generation derived)
       (permits_ambiguous_retry (stored_state r)) r)
    (submit_reserved_attempts env epoch request recovery derived r)"
  using assms unfolding submit_reserved_attempts_def
  by (intro loops_spec) (simp_all add: derived_for_def wf_env_def wf_policy_def)

lemma redispatch_spec:
  assumes bound: "derived_for env request derived"
  shows "loop_spec env request (row_at (env_endpoint_count env) (derived_generation derived) r)
    (pass_bind (pass_map_err g (now_seconds env)) (\<lambda>now.
     pass_bind (pass_map_err h (store_op env (\<lambda>f. reserve_ambiguous_retry (env_ops env) f
         (derived_generation derived) now)))
       (submit_reserved_attempts env epoch request recovery derived)))"
proof -
  define gen where "gen = derived_generation derived"
  have i: "request_identity request = gen_identity gen" and id: "wf_identity (gen_identity gen)"
    using bound by (simp_all add: derived_for_def gen_def)
  have reserve: "pass_spec (env_ops env) (row_at (env_endpoint_count env) gen r)
      (pass_bind (pass_map_err g (now_seconds env)) (\<lambda>now.
         pass_map_err h (store_op env (\<lambda>f. reserve_ambiguous_retry (env_ops env) f gen now))))
      (\<lambda>x. retry_reserved (env_endpoint_count env) gen (RetryReserved x))
      (settled (env_endpoint_count env) (gen_identity gen))"
    by (intro spec_timed_store is_call_rules id row_at_settled)
      (auto simp add: retry_reserved_def
        dest: reserve_ambiguous_retry_spec [OF id] reserve_ambiguous_retry_failure)
  have "loop_spec env request (retry_reserved (env_endpoint_count env) gen (RetryReserved x))
      (submit_reserved_attempts env epoch request recovery derived x)" for x
    unfolding retry_reserved_def AmbiguousRetryReservation.case
    using submit_reserved_attempts_spec [OF bound, of x]
    by (intro spec_pure) (simp add: gen_def)
  with reserve show ?thesis
    unfolding pass_bind_assoc [symmetric] gen_def [symmetric] i by (rule spec_bind)
qed

lemma existing_spec:
  assumes bound: "derived_for env request derived"
  shows "loop_spec env request (row_at (env_endpoint_count env) (derived_generation derived) r)
    (reconcile_existing env epoch request recovery (maximum_post_attempts (env_policy env))
      (submit_recovery_retry env epoch request recovery (maximum_post_attempts (env_policy env)))
      derived r)"
proof -
  have i: "request_identity request = gen_identity (derived_generation derived)"
    using bound by (simp add: derived_for_def)
  have "continues (env_ops env) (env_endpoint_count env) (derived_generation derived)
    (reconcile_existing env epoch request recovery (maximum_post_attempts (env_policy env))
      (submit_recovery_retry env epoch request recovery (maximum_post_attempts (env_policy env)))
      derived)"
    using loops_spec(2) [OF order_refl _ bound]
    by (intro reconcile_existing_spec [OF bound order_refl _ refl refl]) (simp add: i)
  then have "loop_spec env request (held (env_endpoint_count env) (derived_generation derived) r)
    (reconcile_existing env epoch request recovery (maximum_post_attempts (env_policy env))
      (submit_recovery_retry env epoch request recovery (maximum_post_attempts (env_policy env)))
      derived r)"
    by (simp add: continues_def i)
  then show ?thesis
    by (rule spec_pre) (rule row_at_held)
qed

lemma advance_ready_spec:
  "loop_spec env request (admitted_at env request (Ready derived r fresh))
     (advance_ready env epoch request recovery derived r fresh)"
proof -
  have "loop_spec env request (\<lambda>db ps. derived_for env request derived
       \<and> (fresh \<longrightarrow> stored_state r = Submitting) \<and> (row_at (env_endpoint_count env) (derived_generation derived) r db ps
       \<and> \<not> landed ps))
     (advance_ready env epoch request recovery derived r fresh)"
  proof (intro spec_pure)
    assume bound: "derived_for env request derived" and fresh: "fresh \<longrightarrow> stored_state r = Submitting"
    have probe: "pass_spec (env_ops env) A
        (if b then pass_bind (check_interruption env epoch) (\<lambda>i. pass_return (i = None)) else pass_return False)
        (\<lambda>_. A) F" for b A F
      by (intro spec_if spec_bind [OF spec_check] spec_return)
    show "loop_spec env request
        (\<lambda>db ps. row_at (env_endpoint_count env) (derived_generation derived) r db ps \<and> \<not> landed ps)
        (advance_ready env epoch request recovery derived r fresh)"
    proof (cases fresh)
      case True
      with fresh have state: "stored_state r = Submitting"
        by simp
      show ?thesis
        unfolding advance_ready_def if_P [OF True]
        by (rule spec_pre [OF submit_reserved_attempts_spec [OF bound]])
          (simp add: attemptable_def state)
    next
      case False
      then show ?thesis
        unfolding advance_ready_def if_not_P [OF False]
        by (intro spec_bind [OF probe] spec_if spec_pre [OF redispatch_spec [OF bound, where r = r]]
            spec_pre [OF existing_spec [OF bound]]) simp_all
    qed
  qed
  then show ?thesis
    by (rule spec_pre) (auto simp add: admitted_at_def)
qed

lemma readmit_abandoned_spec:
  assumes env: "wf_env env" and id: "wf_identity (request_identity request)"
  shows "pass_spec (env_ops env) (admitted_at env request admission)
    (readmit_abandoned env epoch request recovery now admission)
    (admitted_at env request) (settled (env_endpoint_count env) (request_identity request))"
  unfolding readmit_abandoned_def
  by (cases admission; simp only: StoreAdmission.case)
    (intro spec_return spec_if spec_bind [OF spec_check] spec_map_err
      spec_pre [OF admit_spec [OF env id] admitted_unsent]; assumption)+

lemma advance_spec:
  assumes env: "wf_env env" and id: "wf_identity (request_identity request)"
  shows "loop_spec env request (unsent env) (advance_with_recovery env request recovery)"
proof -
  have decided: "loop_spec env request (admitted_at env request admission)
      (case admission of
           NoAuthoritativeState \<Rightarrow>
             pass_bind (check_interruption env epoch) (\<lambda>interrupted.
             case interrupted of
               Some Cancelled \<Rightarrow> pass_return ResultCancelled
             | Some StaleEpoch \<Rightarrow> pass_fail (without_state InvalidInput
                 (lit ''host operation epoch changed before chain submission''))
             | None \<Rightarrow> pass_fail (without_state InvariantViolation
                 (lit ''admission returned no state for an active operation'')))
         | Authoritative record \<Rightarrow> report record
         | AbandonedReservation record \<Rightarrow> report record
         | Ready derived record fresh \<Rightarrow> advance_ready env epoch request recovery derived record fresh)"
    for admission epoch
    by (cases admission)
      (auto simp add: admitted_at_def returned_def reported_def truthful_def settled_def
        intro!: spec_bind [OF spec_check] spec_return spec_fail spec_pre [OF report_spec]
          spec_pre [OF advance_ready_spec] split: option.split Interruption.split)
  show ?thesis
    unfolding advance_with_recovery_def advance_in_epoch_def
    by (intro spec_sample spec_option spec_fail unsent_settled spec_bind [OF spec_check]
        spec_bind [OF spec_now [OF unsent_settled]] spec_bind [OF admit_spec [OF env id]]
        spec_bind [OF readmit_abandoned_spec [OF env id] decided]; assumption)
qed

section \<open>Properties\<close>

text \<open>
  A vote that is reserved, accepted with a hash and left tracking, in an environment that
  answers the first POST and interrupts the lookup.
\<close>

definition sample_env :: "(unit, unit) pass_env" where
  "sample_env =
     \<lparr>env_ops = sample_ops,
      env_policy = \<lparr>tracking_window_seconds = 60, maximum_post_attempts = 2, retry_backoffs = [1]\<rparr>,
      env_endpoint_count = 3, env_cancelled = (\<lambda>_. False), env_epoch = (\<lambda>_. 0),
      env_clock = (\<lambda>t. Inr (if t < 5 then 100 else 101)), env_faults = (\<lambda>_. no_faults),
      env_acquire = (\<lambda>_. None), env_register = (\<lambda>_. None),
      env_post = (\<lambda>_ _ _. PostReturned (PostAccepted (replicate 32 7))),
      env_lookup = (\<lambda>_ _. LookupInterrupted), env_scan = (\<lambda>_ _ _ _. Inl ScanFailureInterrupted),
      env_backoff = (\<lambda>_ _. None)\<rparr>"

definition sample_world :: "unit world" where
  "sample_world = \<lparr>world_db = empty_db (), tick = 0, posts = []\<rparr>"

lemma wf_sample_env [simp]: "wf_env sample_env"
proof -
  have "derive sample_ops db request = Inr (sample_derived request)" for db request
    by (simp add: derive_def sample_ops_def)
  then show ?thesis
    by (auto simp add: wf_env_def sample_env_def wf_policy_def) (simp add: sample_derived_def)
qed

lemma wf_sample_request [simp]: "wf_identity (request_identity sample_request)"
  by (simp add: sample_request_def request_vote_def request_identity_def)

lemma sample_world_start:
  "db_rep (world_db sample_world) []" "posts sample_world = []"
  by (simp_all add: sample_world_def empty_db_rep)

lemma sample_pass:
  "\<exists>db. advance_with_recovery sample_env sample_request StatusOnly sample_world =
     (Inr (ResultPending (PendingTracking (replicate 32 7))),
      \<lparr>world_db = db, tick = 12, posts =
         [\<lparr>post_generation = sample_generation, post_endpoint = 0,
           post_race = PostReturned (PostAccepted (replicate 32 7)), post_db = sample_db\<rparr>]\<rparr>)
    \<and> db_rep db [sample_tracked]"
proof -
  obtain db where classified: "classify_post sample_ops no_faults sample_generation
      (UsableCandidateHash (replicate 32 7)) 101 sample_db = (Inr sample_tracked, db)"
    and rep: "db_rep db [sample_tracked]"
    using classify_sample by blast
  have gen: "derived_generation (sample_derived (DeriveVote sample_identity)) = sample_generation"
    by (simp add: sample_derived_def sample_generation_def)
  have derived: "imported_candidate (sample_derived (DeriveVote sample_identity)) = None"
    "wire_request (sample_derived (DeriveVote sample_identity)) = VoteRequest []"
    by (simp_all add: sample_derived_def imported_candidate_def)
  have fields: "stored_state sample_record = Submitting" "committed_post_reservations sample_record = 1"
    by (simp_all add: sample_record_def fresh_record_def)
  have env: "env_ops sample_env = sample_ops" "maximum_post_attempts (env_policy sample_env) = Suc 1"
    "env_endpoint_count sample_env = 3" "env_cancelled sample_env t = False" "env_epoch sample_env t = 0"
    "env_clock sample_env t = Inr (if t < 5 then 100 else 101)" "env_faults sample_env t = no_faults"
    "env_acquire sample_env t = None" "env_register sample_env t = None"
    "env_post sample_env t i w = PostReturned (PostAccepted (replicate 32 7))"
    "env_lookup sample_env t h = LookupInterrupted" for t i w h
    by (simp_all add: sample_env_def)
  show ?thesis
    using classified rep admit_sample
    by (simp add: advance_with_recovery_def advance_in_epoch_def readmit_abandoned_def advance_ready_def
        submit_reserved_attempts_def start_attempt_def endpoint_for_def submit_to_endpoint_def
        attempt_outcome_def classify_dispatched_post_def reconcile_existing_def reconcile_tracking_def
        check_interruption_def interruption_def now_seconds_def sample_def store_op_def pass_bind_def
        pass_return_def pass_result_def pass_map_err_def finish_def report_def public_result_def
        sample_tracked_fields sample_world_def env gen derived fields Let_def)
qed

lemma pass_spec_of:
  assumes "wf_env env" "wf_identity (request_identity request)" "db_rep (world_db w) rs" "posts w = []"
    "advance_with_recovery env request recovery w = (r, w')"
  shows "calls_only (env_ops env) (world_db w) (world_db w')"
    and "r \<noteq> Inl Panicked"
    and "settled (env_endpoint_count env) (request_identity request) (world_db w') (posts w')"
    and "r = Inr result \<Longrightarrow> truthful (request_identity request) result (world_db w')"
proof -
  have start: "unsent env (world_db w) (posts w)"
    using assms(3,4) by (auto simp add: unsent_def reserved_posts_def landed_def)
  note run = specD [OF advance_spec [OF assms(1,2)] start assms(5)]
  show "calls_only (env_ops env) (world_db w) (world_db w')"
    by (rule run(1))
  show "r \<noteq> Inl Panicked"
    using run(3) by blast
  show "settled (env_endpoint_count env) (request_identity request) (world_db w') (posts w')"
    using run(2,3) reported_settled by (cases r) blast+
  show "truthful (request_identity request) result (world_db w')" if "r = Inr result"
    using run(2) [OF that] by (simp add: reported_def)
qed

text \<open>
  C17.  A pass never panics: from any database that represents records, and whatever the
  environment answers, the pass ends with a result or a typed failure.  The indexing of the
  backoffs, the rotation over the endpoints, the attempt loop that returns from every iteration
  and the request dispatch are all within their bounds.
\<close>

theorem pass_never_panics:
  assumes "wf_env env" "wf_identity (request_identity request)"
    and "db_rep (world_db w) rs" "posts w = []"
  shows "fst (advance_with_recovery env request recovery w) \<noteq> Inl Panicked"
  using pass_spec_of(2) [OF assms] by (metis prod.collapse)

theorem pass_never_panics_witness:
  "fst (advance_with_recovery sample_env sample_request ExactTree sample_world) \<noteq> Inl Panicked"
  using pass_never_panics [OF wf_sample_env wf_sample_request sample_world_start] .



text \<open>
  C14.  Every POST is reserved first: at the moment a POST is handed to the transport the row of
  its generation is already durable, as a fresh reservation or as an ambiguous one without a
  candidate hash, and the committed count of reservations chose the endpoint, so that a restart
  goes on with the next endpoint.
\<close>

theorem posts_are_reserved:
  assumes "wf_env env" "wf_identity (request_identity request)"
    and "db_rep (world_db w) rs" "posts w = []"
    and "p \<in> set (posts (snd (advance_with_recovery env request recovery w)))"
  shows "\<exists>r. load_submission (env_ops env) (post_db p) (gen_identity (post_generation p)) = Inr (Some r)
    \<and> stored_digest r = gen_digest (post_generation p)
    \<and> (stored_state r = Submitting \<or> (\<exists>d. stored_state r = Recovering None d))
    \<and> post_endpoint p = (unat (committed_post_reservations r) - 1) mod env_endpoint_count env"
proof -
  have "reserved_post (env_endpoint_count env) p"
    using pass_spec_of(3) [OF assms(1-4)] assms(5)
    by (metis settled_def reserved_posts_def list_all_iff prod.collapse)
  then obtain r where id: "wf_identity (gen_identity (post_generation p))"
    and row: "row_in (post_db p) (gen_identity (post_generation p)) r"
    and r: "stored_digest r = gen_digest (post_generation p)"
      "stored_state r = Submitting \<or> hashless (stored_state r)"
      "post_endpoint p = (unat (committed_post_reservations r) - 1) mod env_endpoint_count env"
    by (auto simp add: reserved_post_def)
  obtain q where q: "load_submission (env_ops env) (post_db p) (gen_identity (post_generation p)) = Inr (Some q)"
    "agrees q r"
    using row_in_load [OF row id] by blast
  then have "stored_state q = Submitting \<or> (\<exists>d. stored_state q = Recovering None d)"
    using r(2) by (cases "stored_state q"; cases "stored_state r") (auto simp add: agrees_def hashless_def)
  with q r show ?thesis
    by (auto simp add: agrees_def)
qed

theorem posts_are_reserved_witness:
  "\<exists>p. p \<in> set (posts (snd (advance_with_recovery sample_env sample_request StatusOnly sample_world)))
    \<and> (\<exists>r. load_submission sample_ops (post_db p) (gen_identity (post_generation p)) = Inr (Some r)
        \<and> post_endpoint p = (unat (committed_post_reservations r) - 1) mod 3)"
proof -
  obtain p where p: "p \<in> set (posts (snd (advance_with_recovery sample_env sample_request StatusOnly sample_world)))"
    using sample_pass by auto
  from posts_are_reserved [OF wf_sample_env wf_sample_request sample_world_start p] p show ?thesis
    by (auto simp add: sample_env_def)
qed





end
