(* ===== verification/Http_Text.thy ===== *)
theory Http_Text
  imports Voting_Prelude
begin

text \<open>
  The string operations of the Rust standard library that the HTTP layers use, on sequences of
  code points: trimming, ASCII case folding, splitting, UTF-8 encoding and lossy decoding, and
  decimal parsing.
\<close>

section \<open>Code points\<close>

text \<open>\<open>char::is_whitespace\<close>: the code points with the property \<open>White_Space\<close>.\<close>

definition is_whitespace :: "nat \<Rightarrow> bool" where
  "is_whitespace c \<longleftrightarrow>
     9 \<le> c \<and> c \<le> 13 \<or> c = 32 \<or> c = 133 \<or> c = 160 \<or> c = 5760 \<or> 8192 \<le> c \<and> c \<le> 8202
     \<or> c = 8232 \<or> c = 8233 \<or> c = 8239 \<or> c = 8287 \<or> c = 12288"

definition trim_start :: "unicode \<Rightarrow> unicode" where
  "trim_start s = dropWhile is_whitespace s"

definition trim_end :: "unicode \<Rightarrow> unicode" where
  "trim_end s = rev (dropWhile is_whitespace (rev s))"

definition trim :: "unicode \<Rightarrow> unicode" where
  "trim s = trim_end (trim_start s)"

definition to_ascii_lowercase :: "unicode \<Rightarrow> unicode" where
  "to_ascii_lowercase s = map (\<lambda>c. if 65 \<le> c \<and> c \<le> 90 then c + 32 else c) s"

definition eq_ignore_ascii_case :: "unicode \<Rightarrow> unicode \<Rightarrow> bool" where
  "eq_ignore_ascii_case s t \<longleftrightarrow> to_ascii_lowercase s = to_ascii_lowercase t"

text \<open>The first piece of \<open>split(';')\<close>.\<close>

definition before_semicolon :: "unicode \<Rightarrow> unicode" where
  "before_semicolon s = takeWhile (\<lambda>c. c \<noteq> 59) s"

definition media_type_is :: "unicode option \<Rightarrow> string \<Rightarrow> bool" where
  "media_type_is content_type media_type =
     (case content_type of
        None \<Rightarrow> False
      | Some value \<Rightarrow> eq_ignore_ascii_case (trim (before_semicolon value)) (lit media_type))"

lemma trim_Nil [simp]: "trim [] = []"
  by (simp add: trim_def trim_start_def trim_end_def)

text \<open>\<open>str::split\<close> on a character: a separator more means a piece more, also when it is empty.\<close>

fun split_on :: "nat \<Rightarrow> unicode \<Rightarrow> unicode list" where
  "split_on sep [] = [[]]"
| "split_on sep (c # s) =
     (if c = sep then [] # split_on sep s
      else case split_on sep s of piece # pieces \<Rightarrow> (c # piece) # pieces | [] \<Rightarrow> [[c]])"

section \<open>UTF-8\<close>

text \<open>\<open>str::as_bytes\<close>: the encoding of a string.\<close>

definition utf8_char :: "nat \<Rightarrow> nat list" where
  "utf8_char c =
     (if c < 128 then [c]
      else if c < 2048 then [192 + c div 64, 128 + c mod 64]
      else if c < 65536 then [224 + c div 4096, 128 + c div 64 mod 64, 128 + c mod 64]
      else [240 + c div 262144, 128 + c div 4096 mod 64, 128 + c div 64 mod 64, 128 + c mod 64])"

definition as_bytes :: "unicode \<Rightarrow> bytes" where
  "as_bytes s = map of_nat (concat (map utf8_char s))"

definition is_ascii :: "unicode \<Rightarrow> bool" where
  "is_ascii s \<longleftrightarrow> list_all (\<lambda>c. c < 128) s"

text \<open>A lowercase hexadecimal digit: \<open>is_ascii_digit\<close> or within \<open>b'a'..=b'f'\<close>.\<close>

definition canonical_hex_byte :: "u8 \<Rightarrow> bool" where
  "canonical_hex_byte b \<longleftrightarrow> 48 \<le> b \<and> b \<le> 57 \<or> 97 \<le> b \<and> b \<le> 102"

lemma as_bytes_ascii: "is_ascii s \<Longrightarrow> as_bytes s = map of_nat s"
  by (induction s) (auto simp add: as_bytes_def is_ascii_def utf8_char_def)


text \<open>
  \<open>String::from_utf8_lossy\<close>: every maximal prefix of a well-formed sequence that is not completed
  becomes one replacement character.  \<open>utf8_lead\<close> gives the number of continuation bytes of a
  lead byte and the range of the first of them.
\<close>

definition utf8_lead :: "nat \<Rightarrow> (nat \<times> nat \<times> nat) option" where
  "utf8_lead b =
     (if 194 \<le> b \<and> b \<le> 223 then Some (1, 128, 191)
      else if b = 224 then Some (2, 160, 191)
      else if b = 237 then Some (2, 128, 159)
      else if 225 \<le> b \<and> b \<le> 239 then Some (2, 128, 191)
      else if b = 240 then Some (3, 144, 191)
      else if 241 \<le> b \<and> b \<le> 243 then Some (3, 128, 191)
      else if b = 244 then Some (3, 128, 143)
      else None)"

text \<open>The continuation bytes that follow, up to the number that is still missing.\<close>

fun continuation :: "nat \<Rightarrow> nat \<Rightarrow> nat \<Rightarrow> nat list \<Rightarrow> nat list" where
  "continuation 0 low high bs = []"
| "continuation (Suc n) low high [] = []"
| "continuation (Suc n) low high (b # bs) =
     (if low \<le> b \<and> b \<le> high then b # continuation n 128 191 bs else [])"

definition utf8_payload :: "nat \<Rightarrow> nat \<Rightarrow> nat" where
  "utf8_payload n lead = (if n = 1 then lead - 192 else if n = 2 then lead - 224 else lead - 240)"

function from_utf8_lossy_nat :: "nat list \<Rightarrow> unicode" where
  "from_utf8_lossy_nat [] = []"
| "from_utf8_lossy_nat (b # bs) =
     (if b < 128 then b # from_utf8_lossy_nat bs
      else case utf8_lead b of
        None \<Rightarrow> 65533 # from_utf8_lossy_nat bs
      | Some (n, low, high) \<Rightarrow>
          let cs = continuation n low high bs in
          (if length cs = n then foldl (\<lambda>acc c. acc * 64 + (c - 128)) (utf8_payload n b) cs else 65533)
          # from_utf8_lossy_nat (drop (length cs) bs))"
  by pat_completeness auto

termination
  by (relation "measure length") (auto simp add: le_imp_less_Suc)

definition from_utf8_lossy :: "bytes \<Rightarrow> unicode" where
  "from_utf8_lossy bs = from_utf8_lossy_nat (map unat bs)"

section \<open>Decimal parsing\<close>

text \<open>
  \<open>str::parse::<u64>\<close>: an optional plus sign, then at least one digit, and a value that fits.
\<close>

definition parse_u64 :: "unicode \<Rightarrow> nat option" where
  "parse_u64 s =
     (let digits = (case s of c # rest \<Rightarrow> if c = 43 then rest else s | [] \<Rightarrow> []) in
      if digits \<noteq> [] \<and> list_all (\<lambda>c. 48 \<le> c \<and> c \<le> 57) digits
      then let v = foldl (\<lambda>acc c. acc * 10 + (c - 48)) 0 digits in
        if v < 2 ^ 64 then Some v else None
      else None)"

lemma parse_u64_bound: "parse_u64 s = Some v \<Longrightarrow> v < 2 ^ 64"
  by (auto simp add: parse_u64_def Let_def split: if_splits)

end
