(* ===== verification/Submission_Recovery.thy ===== *)
theory Submission_Recovery
  imports Submission_Coordinator Http_Text
begin

text \<open>
  Exact-tree recovery (\<open>chain_submission/recovery.rs\<close>): the page bound, the budget of a pass, the
  streaming scan of one replica and the failover over replicas.  The transport, base64, the
  Pallas encoding and the Merkle frontier are the environment of a scan; a pass samples it, so a
  theorem over all environments covers every sequence of answers.
\<close>

section \<open>Bounds\<close>

definition VOTE_SDK_PAGE_LEAF_TARGET :: nat where
  "VOTE_SDK_PAGE_LEAF_TARGET = 5000"

definition maximum_whole_block_page_count :: "nat \<Rightarrow> nat \<Rightarrow> nat" where
  "maximum_whole_block_page_count leaves page_target =
     (let paired_leaf_count = page_target + 1;
          complete_page_pairs = leaves div paired_leaf_count;
          trailing_page = (if leaves mod paired_leaf_count = 0 then 0 else 1)
      in complete_page_pairs * 2 + trailing_page)"

definition MAX_RECOVERY_LEAF_REQUESTS :: nat where
  "MAX_RECOVERY_LEAF_REQUESTS =
     maximum_whole_block_page_count (unat TREE_CAPACITY) VOTE_SDK_PAGE_LEAF_TARGET"

definition MAX_RECOVERY_RESPONSE_BYTES :: nat where
  "MAX_RECOVERY_RESPONSE_BYTES = 8 * 1024 * 1024"

definition MAX_RECOVERY_TOTAL_BYTES :: nat where
  "MAX_RECOVERY_TOTAL_BYTES = 1000000000"

section \<open>Responses\<close>

text \<open>
  The response types; a JSON document is represented by what \<open>serde_json\<close> decodes it to, with
  the defaults of absent fields filled in.
\<close>

record TreeState =
  tree_next_index :: nat
  tree_root :: "unicode option"
  tree_height :: nat

record LatestResponse =
  latest_tree :: "TreeState option"

record LeafBlock =
  block_height :: nat
  block_start_index :: nat
  block_leaves :: "unicode list"
  block_root :: "unicode option"

record LeavesResponse =
  page_blocks :: "LeafBlock list"
  next_from_height :: nat

record 'r recovery_response =
  response_status :: nat
  response_length :: nat
  response_content_type :: "unicode option"
  response_parsed :: "'r option"

datatype 'r fetched =
    FetchTimedOut
  | FetchFailed unicode
  | Fetched "'r recovery_response"

section \<open>Environment and budget\<close>

text \<open>
  Indexed by the samples taken so far: interruption, whether the deadline of the pass has passed,
  and the answers of a replica to its two requests.  \<open>'f\<close> is the Merkle frontier.
\<close>

record 'f recovery_env =
  rec_interrupted :: "nat \<Rightarrow> bool"
  rec_expired :: "nat \<Rightarrow> bool"
  rec_latest :: "nat \<Rightarrow> nat \<Rightarrow> bytes \<Rightarrow> LatestResponse fetched"
  rec_leaves :: "nat \<Rightarrow> nat \<Rightarrow> bytes \<Rightarrow> nat \<Rightarrow> nat \<Rightarrow> LeavesResponse fetched"
  rec_base64 :: "unicode \<Rightarrow> bytes option"
  rec_canonical :: "bytes \<Rightarrow> bool"
  rec_frontier_empty :: 'f
  rec_frontier_append :: "'f \<Rightarrow> bytes \<Rightarrow> 'f option"
  rec_frontier_root :: "'f \<Rightarrow> bytes"

record RecoveryPassBudget =
  leaf_request_count :: nat
  response_bytes :: nat
  rec_tick :: nat

type_synonym 'a recovery_pass = "(RecoveryPassBudget, RecoveryScanFailure, 'a) pass"

definition rec_sample :: "(nat \<Rightarrow> 'a) \<Rightarrow> 'a recovery_pass" where
  "rec_sample f = (\<lambda>b. (Inr (f (rec_tick b)), b\<lparr>rec_tick := Suc (rec_tick b)\<rparr>))"

definition recovery_invalid :: "string \<Rightarrow> ChainSubmissionDiagnostic" where
  "recovery_invalid message = from_redacted_message InvalidProtocolResponse (lit message)"

definition bounded_pass_exhausted :: RecoveryScanFailure where
  "bounded_pass_exhausted = ScanInvalid (recovery_invalid ''tree recovery exhausted its bounded pass'')"

definition budget_new :: RecoveryPassBudget where
  "budget_new = \<lparr>leaf_request_count = 0, response_bytes = 0, rec_tick = 0\<rparr>"

text \<open>The deadline is read only when requests remain.\<close>

definition begin_leaf_request :: "'f recovery_env \<Rightarrow> unit recovery_pass" where
  "begin_leaf_request env = (\<lambda>b.
     if leaf_request_count b \<ge> MAX_RECOVERY_LEAF_REQUESTS then pass_fail bounded_pass_exhausted b
     else pass_bind (rec_sample (rec_expired env)) (\<lambda>expired b.
       if expired then pass_fail bounded_pass_exhausted b
       else (Inr (), b\<lparr>leaf_request_count := leaf_request_count b + 1\<rparr>)) b)"

definition charge_response :: "nat \<Rightarrow> unit recovery_pass" where
  "charge_response n = (\<lambda>b.
     let total = min (response_bytes b + n) (2 ^ 64 - 1) in
     (if total > MAX_RECOVERY_TOTAL_BYTES
      then pass_fail (ScanInvalid (recovery_invalid
        ''tree recovery responses exceed the total byte limit''))
      else pass_return ()) (b\<lparr>response_bytes := total\<rparr>))"

definition ensure_time_remaining :: "'f recovery_env \<Rightarrow> unit recovery_pass" where
  "ensure_time_remaining env =
     pass_bind (rec_sample (rec_expired env)) (\<lambda>expired.
     if expired then pass_fail bounded_pass_exhausted else pass_return ())"

definition cannot_fail_over :: "'f recovery_env \<Rightarrow> bool recovery_pass" where
  "cannot_fail_over env = (\<lambda>b.
     if leaf_request_count b \<ge> MAX_RECOVERY_LEAF_REQUESTS \<or> response_bytes b > MAX_RECOVERY_TOTAL_BYTES
     then (Inr True, b)
     else rec_sample (rec_expired env) b)"

section \<open>One request\<close>

definition get_json ::
  "'f recovery_env \<Rightarrow> (nat \<Rightarrow> 'r fetched) \<Rightarrow> 'r recovery_pass" where
  "get_json env fetch =
     pass_bind (rec_sample (rec_interrupted env)) (\<lambda>interrupted.
     if interrupted then pass_fail ScanFailureInterrupted
     else
       pass_bind (rec_sample fetch) (\<lambda>fetched.
       case fetched of
         FetchTimedOut \<Rightarrow>
           pass_bind (rec_sample (rec_expired env)) (\<lambda>expired.
           if expired then pass_fail bounded_pass_exhausted
           else pass_fail (ScanTransport (lit (bounded_redacted_text (lit ''tree recovery request timed out'')))))
       | FetchFailed message \<Rightarrow> pass_fail (ScanTransport message)
       | Fetched response \<Rightarrow>
           pass_bind (charge_response (response_length response)) (\<lambda>_.
           if response_status response \<noteq> 200
              \<or> response_length response > MAX_RECOVERY_RESPONSE_BYTES
              \<or> \<not> media_type_is (response_content_type response) ''application/json''
           then pass_fail (ScanInvalid (recovery_invalid
             ''tree recovery response has invalid HTTP metadata''))
           else pass_result (ok_or (ScanInvalid (recovery_invalid
             ''tree recovery response is malformed'')) (response_parsed response)))))"

section \<open>Decoding\<close>

text \<open>A decoded leaf is the canonical 32-byte encoding of its field element.\<close>

definition decode_leaf ::
  "'f recovery_env \<Rightarrow> unicode \<Rightarrow> string \<Rightarrow> RecoveryScanFailure + bytes" where
  "decode_leaf env encoded label =
     and_then (ok_or (ScanInvalid (recovery_invalid (label @ '' is invalid base64'')))
                 (rec_base64 env encoded)) (\<lambda>bytes.
     and_then (ensure (length bytes = 32)
                 (ScanInvalid (recovery_invalid (label @ '' has invalid length'')))) (\<lambda>_.
     and_then (ensure (rec_canonical env bytes)
                 (ScanInvalid (recovery_invalid (label @ '' is noncanonical'')))) (\<lambda>_.
       Inr bytes)))"

definition snapshot_root ::
  "'f recovery_env \<Rightarrow> TreeState \<Rightarrow> RecoveryScanFailure + bytes option" where
  "snapshot_root env snapshot =
     (case tree_root snapshot of
        Some value \<Rightarrow>
          if value \<noteq> [] then and_then (decode_leaf env value ''snapshot root'') (\<lambda>root. Inr (Some root))
          else if tree_next_index snapshot = 0 then Inr None
          else Inl (ScanInvalid (recovery_invalid
            ''nonempty tree recovery snapshot omitted its root''))
      | None \<Rightarrow>
          if tree_next_index snapshot = 0 then Inr None
          else Inl (ScanInvalid (recovery_invalid
            ''nonempty tree recovery snapshot omitted its root'')))"

section \<open>The streaming scan\<close>

text \<open>The local variables of the loop over pages.\<close>

record 'f scan_state =
  frontier :: 'f
  window :: "bytes list"
  next_index :: nat
  from_height :: nat
  previous_height :: "nat option"
  unpaired_nonfinal_page_leaves :: "nat option"
  match_start :: "nat option"

definition scan_start :: "'f recovery_env \<Rightarrow> 'f scan_state" where
  "scan_start env =
     \<lparr>frontier = rec_frontier_empty env, window = [], next_index = 0, from_height = 0,
      previous_height = None, unpaired_nonfinal_page_leaves = None, match_start = None\<rparr>"

text \<open>The sliding window of the last leaves, as long as the expected layout.\<close>

definition push_window :: "nat \<Rightarrow> bytes list \<Rightarrow> bytes \<Rightarrow> bytes list" where
  "push_window capacity kept leaf =
     (let pushed = kept @ [leaf] in if length pushed > capacity then tl pushed else pushed)"

definition scan_leaf ::
  "'f recovery_env \<Rightarrow> TreeState \<Rightarrow> bytes list \<Rightarrow> 'f scan_state \<Rightarrow> unicode
   \<Rightarrow> RecoveryScanFailure + 'f scan_state" where
  "scan_leaf env snapshot expected st encoded =
     (if next_index st \<ge> tree_next_index snapshot
      then Inl (ScanInvalid (recovery_invalid
        ''tree recovery leaf sequence exceeds the fixed snapshot''))
      else
        and_then (decode_leaf env encoded ''tree leaf'') (\<lambda>leaf.
        and_then (ok_or (ScanInvalid (recovery_invalid
                    ''tree recovery leaf sequence exceeds the fixed snapshot''))
                   (rec_frontier_append env (frontier st) leaf)) (\<lambda>appended.
        and_then (ok_or (ScanInvalid (recovery_invalid ''tree recovery leaf is invalid base64''))
                   (rec_base64 env encoded)) (\<lambda>bytes.
        and_then (ensure (length bytes = 32)
                   (ScanInvalid (recovery_invalid ''tree recovery leaf has invalid length''))) (\<lambda>_.
          let st = st\<lparr>frontier := appended,
                      window := push_window (length expected) (window st) bytes,
                      next_index := next_index st + 1\<rparr> in
          if length (window st) = length expected \<and> window st = expected
          then
            if match_start st \<noteq> None
            then Inl (ScanAmbiguousLayout (recovery_invalid
              ''tree recovery found multiple exact generation layouts''))
            else Inr (st\<lparr>match_start := Some (next_index st - length expected)\<rparr>)
          else Inr st)))))"

definition scan_block ::
  "'f recovery_env \<Rightarrow> TreeState \<Rightarrow> bytes list \<Rightarrow> 'f scan_state \<Rightarrow> LeafBlock
   \<Rightarrow> RecoveryScanFailure + 'f scan_state" where
  "scan_block env snapshot expected st block =
     (if block_height block > tree_height snapshot
         \<or> (case previous_height st of None \<Rightarrow> False | Some height \<Rightarrow> block_height block \<le> height)
         \<or> block_leaves block \<noteq> [] \<and> block_start_index block \<noteq> next_index st
      then Inl (ScanInvalid (recovery_invalid ''tree recovery block sequence is discontinuous''))
      else
        and_then (run_steps (scan_leaf env snapshot expected)
                    (st\<lparr>previous_height := Some (block_height block)\<rparr>) (block_leaves block)) (\<lambda>st.
        and_then (and_then (ok_or (ScanInvalid (recovery_invalid
                              ''tree recovery block omitted its root'')) (block_root block))
                    (\<lambda>encoded. decode_leaf env encoded ''block root'')) (\<lambda>root.
        if rec_frontier_root env (frontier st) \<noteq> root
        then Inl (ScanInvalid (recovery_invalid
          ''tree recovery block root contradicts its leaves''))
        else Inr st)))"

text \<open>The pagination checks after a page.\<close>

definition page_progress ::
  "TreeState \<Rightarrow> nat \<Rightarrow> nat \<Rightarrow> 'f scan_state \<Rightarrow> RecoveryScanFailure + 'f scan_state" where
  "page_progress snapshot page_leaf_count cursor st =
     (if next_index st < tree_next_index snapshot then
        if page_leaf_count = 0
        then Inl (ScanInvalid (recovery_invalid ''tree recovery page made no leaf progress''))
        else
          and_then
            (case unpaired_nonfinal_page_leaves st of
               Some previous \<Rightarrow>
                 if previous + page_leaf_count < VOTE_SDK_PAGE_LEAF_TARGET + 1
                 then Inl (ScanInvalid (recovery_invalid
                   ''tree recovery pages violate the pagination progress bound''))
                 else Inr (st\<lparr>unpaired_nonfinal_page_leaves := None\<rparr>)
             | None \<Rightarrow> Inr (st\<lparr>unpaired_nonfinal_page_leaves := Some page_leaf_count\<rparr>)) (\<lambda>st.
          if cursor \<le> from_height st \<or> cursor > tree_height snapshot
          then Inl (ScanInvalid (recovery_invalid
            ''tree recovery pagination cursor is invalid''))
          else Inr (st\<lparr>from_height := cursor\<rparr>))
      else if cursor \<noteq> 0
      then Inl (ScanInvalid (recovery_invalid
        ''tree recovery pagination continued beyond the fixed snapshot''))
      else Inr st)"

definition scan_page ::
  "'f recovery_env \<Rightarrow> TreeState \<Rightarrow> bytes list \<Rightarrow> 'f scan_state \<Rightarrow> LeavesResponse
   \<Rightarrow> RecoveryScanFailure + 'f scan_state" where
  "scan_page env snapshot expected st page =
     (let page_leaf_count = sum_list (map (\<lambda>block. length (block_leaves block)) (page_blocks page)) in
      if page_leaf_count > tree_next_index snapshot - next_index st
      then Inl (ScanInvalid (recovery_invalid ''tree recovery page exceeds the fixed snapshot''))
      else
        and_then (run_steps (scan_block env snapshot expected) st (page_blocks page))
          (page_progress snapshot page_leaf_count (next_from_height page)))"

text \<open>
  The loop over pages.  Every iteration begins a leaf request, of which a pass has only
  \<open>MAX_RECOVERY_LEAF_REQUESTS\<close>; the fuel counts iterations and its exhaustion is a panic, which
  is shown not to happen.
\<close>

fun scan_pages ::
  "'f recovery_env \<Rightarrow> nat \<Rightarrow> bytes \<Rightarrow> TreeState \<Rightarrow> bytes list \<Rightarrow> nat \<Rightarrow> 'f scan_state
   \<Rightarrow> 'f scan_state recovery_pass" where
  "scan_pages env endpoint round snapshot expected 0 st = pass_panic"
| "scan_pages env endpoint round snapshot expected (Suc fuel) st =
     (if next_index st < tree_next_index snapshot then
        pass_bind (rec_sample (rec_interrupted env)) (\<lambda>interrupted.
        if interrupted then pass_fail ScanFailureInterrupted
        else
          pass_bind (begin_leaf_request env) (\<lambda>_.
          pass_bind (get_json env (\<lambda>t. rec_leaves env t endpoint round (from_height st)
              (tree_height snapshot))) (\<lambda>page.
          pass_bind (pass_result (scan_page env snapshot expected st page))
            (scan_pages env endpoint round snapshot expected fuel))))
      else pass_return st)"

datatype ReplicaScanOutcome =
    ReplicaMatch nat "nat list"
  | ReplicaNoMatch

definition scan_outcome :: "bytes list \<Rightarrow> nat option \<Rightarrow> ReplicaScanOutcome" where
  "scan_outcome expected start =
     (case start of
        Some start \<Rightarrow> ReplicaMatch start (map (\<lambda>offset. start + offset) [1..<length expected])
      | None \<Rightarrow> ReplicaNoMatch)"

definition scan_replica ::
  "'f recovery_env \<Rightarrow> nat \<Rightarrow> bytes \<Rightarrow> bytes list \<Rightarrow> ReplicaScanOutcome recovery_pass" where
  "scan_replica env endpoint round expected =
     pass_bind (get_json env (\<lambda>t. rec_latest env t endpoint round)) (\<lambda>latest.
     pass_bind (pass_result (ok_or (ScanInvalid (recovery_invalid
         ''tree recovery latest response omitted tree state'')) (latest_tree latest))) (\<lambda>snapshot.
     if tree_next_index snapshot > unat TREE_CAPACITY \<or> tree_height snapshot > 2 ^ 32 - 1
     then pass_fail (ScanInvalid (recovery_invalid
       ''tree recovery snapshot exceeds protocol bounds''))
     else
       pass_bind (pass_result (snapshot_root env snapshot)) (\<lambda>expected_root.
       pass_bind (scan_pages env endpoint round snapshot expected
           (Suc MAX_RECOVERY_LEAF_REQUESTS) (scan_start env)) (\<lambda>st.
       pass_bind (ensure_time_remaining env) (\<lambda>_.
       if expected_root \<noteq> None \<and> expected_root \<noteq> Some (rec_frontier_root env (frontier st))
       then pass_fail (ScanInvalid (recovery_invalid
         ''tree recovery final root contradicts the fixed snapshot''))
       else pass_return (scan_outcome expected (match_start st)))))))"

section \<open>Failover\<close>

text \<open>The match on the answer of one replica; \<open>continue_with\<close> goes on to the next one.\<close>

definition after_replica ::
  "'f recovery_env \<Rightarrow> ChainSubmissionIdentity \<Rightarrow> DerivedChainSubmission
   \<Rightarrow> CandidateTransactionHash option
   \<Rightarrow> (RecoveryScanFailure \<Rightarrow> RecoveryScanOutcome recovery_pass)
   \<Rightarrow> RecoveryScanFailure pass_error + ReplicaScanOutcome \<Rightarrow> RecoveryScanOutcome recovery_pass" where
  "after_replica env operation derived candidate continue_with scanned =
     (case scanned of
        Inr (ReplicaMatch van vcs) \<Rightarrow> pass_return (ScanOutcomeMatch (of_nat van) (map of_nat vcs))
      | Inr ReplicaNoMatch \<Rightarrow>
          pass_return (ScanOutcomeNoMatch \<lparr>auth_identity = operation,
            auth_digest = gen_digest (derived_generation derived), auth_candidate = candidate\<rparr>)
      | Inl Panicked \<Rightarrow> pass_panic
      | Inl (Failed failure) \<Rightarrow>
          (case failure of
             ScanFailureInterrupted \<Rightarrow> pass_fail ScanFailureInterrupted
           | ScanAmbiguousLayout d \<Rightarrow> pass_fail (ScanAmbiguousLayout d)
           | _ \<Rightarrow>
               pass_bind (cannot_fail_over env) (\<lambda>stuck.
               if stuck then pass_fail failure else continue_with failure)))"

fun scan_replicas ::
  "'f recovery_env \<Rightarrow> ChainSubmissionIdentity \<Rightarrow> DerivedChainSubmission
   \<Rightarrow> CandidateTransactionHash option \<Rightarrow> RecoveryScanFailure option \<Rightarrow> nat list
   \<Rightarrow> RecoveryScanOutcome recovery_pass" where
  "scan_replicas env operation derived candidate last_failure [] =
     pass_fail (case last_failure of
       Some failure \<Rightarrow> failure
     | None \<Rightarrow> ScanInvalid (recovery_invalid ''tree recovery has no configured endpoint''))"
| "scan_replicas env operation derived candidate last_failure (endpoint # endpoints) =
     pass_bind (rec_sample (rec_interrupted env)) (\<lambda>interrupted.
     if interrupted then pass_fail ScanFailureInterrupted
     else (\<lambda>b.
       case scan_replica env endpoint (vote_round_id (gen_identity (derived_generation derived)))
              (layout_leaves (expected_layout (bound derived))) b of
         (scanned, b) \<Rightarrow>
           after_replica env operation derived candidate
             (\<lambda>failure. scan_replicas env operation derived candidate (Some failure) endpoints)
             scanned b))"

definition scan_exact_layout ::
  "'f recovery_env \<Rightarrow> nat \<Rightarrow> ChainSubmissionIdentity \<Rightarrow> DerivedChainSubmission
   \<Rightarrow> CandidateTransactionHash option
   \<Rightarrow> (RecoveryScanFailure pass_error + RecoveryScanOutcome) \<times> RecoveryPassBudget" where
  "scan_exact_layout env endpoint_count operation derived candidate =
     scan_replicas env operation derived candidate None [0..<endpoint_count] budget_new"

end
