(* ===== verification/Submission_Recovery_Exact.thy ===== *)
theory Submission_Recovery_Exact
  imports Submission_Recovery Submission_Pass
begin

text \<open>
  Correctness of exact-tree recovery: the streaming scan of a replica finds exactly the
  occurrences of the expected layout among the leaves of its snapshot, a pass stays within its
  budget, its outcome is what the coordinator relies on, and the request bound is large enough
  for whole-block pagination.
\<close>

section \<open>Occurrences of a layout\<close>

definition occurrences :: "'a list \<Rightarrow> 'a list \<Rightarrow> nat list" where
  "occurrences e ls = filter (\<lambda>i. take (length e) (drop i ls) = e) [0..<Suc (length ls) - length e]"

lemma occurrences_short: "length ls < length e \<Longrightarrow> occurrences e ls = []"
  by (simp add: occurrences_def)

lemma occurrences_snoc:
  assumes "e \<noteq> []"
  shows "occurrences e (ls @ [x]) =
    occurrences e ls
    @ (if length e \<le> Suc (length ls) \<and> drop (Suc (length ls) - length e) (ls @ [x]) = e
       then [Suc (length ls) - length e] else [])"
proof (cases "length e \<le> Suc (length ls)")
  case True
  have "[0..<Suc (Suc (length ls)) - length e]
      = [0..<Suc (length ls) - length e] @ [Suc (length ls) - length e]"
    using True by (simp add: Suc_diff_le)
  moreover have "filter (\<lambda>i. take (length e) (drop i (ls @ [x])) = e) [0..<Suc (length ls) - length e]
      = filter (\<lambda>i. take (length e) (drop i ls) = e) [0..<Suc (length ls) - length e]"
    by (intro filter_cong) auto
  moreover have "take (length e) (drop (Suc (length ls) - length e) (ls @ [x]))
      = drop (Suc (length ls) - length e) (ls @ [x])"
    using True by simp
  ultimately show ?thesis
    using True by (simp add: occurrences_def del: drop_append take_append)
next
  case False
  then show ?thesis
    by (simp add: occurrences_def)
qed

lemma occurrences_fit: "i \<in> set (occurrences e ls) \<Longrightarrow> e \<noteq> [] \<Longrightarrow> i + length e \<le> length ls"
  by (auto simp add: occurrences_def)

lemma push_window_suffix:
  assumes "0 < k"
  shows "push_window k (drop (length ls - k) ls) x = drop (Suc (length ls) - k) (ls @ [x])"
proof (cases "k \<le> length ls")
  case True
  then have "drop (length ls - k) ls \<noteq> []"
    using assms by simp
  then have "tl (drop (length ls - k) ls @ [x]) = drop (Suc (length ls - k)) ls @ [x]"
    by (simp add: tl_drop drop_Suc)
  moreover have "Suc 0 - k = 0"
    using assms by simp
  ultimately show ?thesis
    using True by (simp add: push_window_def Suc_diff_le)
next
  case False
  then show ?thesis
    by (simp add: push_window_def)
qed

section \<open>The invariant of the scan\<close>

definition frontier_of :: "'f recovery_env \<Rightarrow> bytes list \<Rightarrow> 'f option" where
  "frontier_of env ls =
     fold (\<lambda>l f. Option.bind f (\<lambda>f. rec_frontier_append env f l)) ls (Some (rec_frontier_empty env))"

lemma frontier_of_simps [simp]:
  "frontier_of env [] = Some (rec_frontier_empty env)"
  "frontier_of env (ls @ [l]) = Option.bind (frontier_of env ls) (\<lambda>f. rec_frontier_append env f l)"
  by (simp_all add: frontier_of_def)

text \<open>The leaves read so far, the frontier over them, and at most one match among them.\<close>

definition scanned_leaves ::
  "'f recovery_env \<Rightarrow> TreeState \<Rightarrow> bytes list \<Rightarrow> bytes list \<Rightarrow> 'f scan_state \<Rightarrow> bool" where
  "scanned_leaves env snapshot expected ls st \<longleftrightarrow>
     next_index st = length ls \<and> length ls \<le> tree_next_index snapshot
     \<and> frontier_of env ls = Some (frontier st)
     \<and> list_all (\<lambda>l. length l = 32 \<and> rec_canonical env l) ls
     \<and> window st = drop (length ls - length expected) ls
     \<and> occurrences expected ls = (case match_start st of None \<Rightarrow> [] | Some i \<Rightarrow> [i])"

definition scanning ::
  "'f recovery_env \<Rightarrow> TreeState \<Rightarrow> bytes list \<Rightarrow> 'f scan_state \<Rightarrow> bool" where
  "scanning env snapshot expected st \<longleftrightarrow>
     expected \<noteq> [] \<longrightarrow> (\<exists>ls. scanned_leaves env snapshot expected ls st)"

lemma scan_start_scanning: "scanning env snapshot expected (scan_start env)"
  unfolding scanning_def
proof
  assume "expected \<noteq> []"
  then have "scanned_leaves env snapshot expected [] (scan_start env)"
    by (simp add: scanned_leaves_def scan_start_def occurrences_short)
  then show "\<exists>ls. scanned_leaves env snapshot expected ls (scan_start env)" ..
qed

lemma decode_leaf_eq_Inr:
  "decode_leaf env encoded label = Inr l
   \<longleftrightarrow> rec_base64 env encoded = Some l \<and> length l = 32 \<and> rec_canonical env l"
  by (auto simp add: decode_leaf_def)

lemma scan_leaf_scanned:
  assumes ls: "scanned_leaves env snapshot expected ls st" and expected: "expected \<noteq> []"
    and step: "scan_leaf env snapshot expected st encoded = Inr st'"
  shows "\<exists>l. scanned_leaves env snapshot expected (ls @ [l]) st'"
proof -
  obtain l f where bound: "next_index st < tree_next_index snapshot"
    and l: "length l = 32" "rec_canonical env l"
    and f: "rec_frontier_append env (frontier st) l = Some f"
    and st': "st' = (let st = st\<lparr>frontier := f,
          window := push_window (length expected) (window st) l, next_index := next_index st + 1\<rparr> in
        if window st = expected then st\<lparr>match_start := Some (next_index st - length expected)\<rparr> else st)"
    and unique: "push_window (length expected) (window st) l = expected \<longrightarrow> match_start st = None"
    using step
    by (auto simp add: scan_leaf_def decode_leaf_eq_Inr Let_def split: if_splits)
  define w where "w = drop (Suc (length ls) - length expected) (ls @ [l])"
  have window: "push_window (length expected) (drop (length ls - length expected) ls) l = w"
    using push_window_suffix [of "length expected" ls l] expected by (simp add: w_def)
  have "length expected \<le> Suc (length ls)" if "w = expected"
    using arg_cong [OF that, of length] by (simp add: w_def del: drop_append)
  then have occ: "occurrences expected (ls @ [l]) = occurrences expected ls
      @ (if w = expected then [Suc (length ls) - length expected] else [])"
    using occurrences_snoc [OF expected, of ls l, folded w_def] by auto
  have "scanned_leaves env snapshot expected (ls @ [l]) st'"
    using ls bound l f unique
    by (auto simp add: st' scanned_leaves_def window Let_def occ w_def [symmetric] simp del: drop_append)
  then show ?thesis ..
qed

lemma scan_leaf_scanning:
  assumes "scanning env snapshot expected st" "scan_leaf env snapshot expected st encoded = Inr st'"
  shows "scanning env snapshot expected st'"
  unfolding scanning_def
proof
  assume e: "expected \<noteq> []"
  with assms(1) obtain ls where "scanned_leaves env snapshot expected ls st"
    by (auto simp add: scanning_def)
  from scan_leaf_scanned [OF this e assms(2)]
  show "\<exists>ls. scanned_leaves env snapshot expected ls st'"
    by blast
qed

interpretation leaf_scan: stepwise_invariant "scan_leaf env snapshot expected"
    "\<lambda>_. scanning env snapshot expected" for env snapshot expected
  by unfold_locales (rule scan_leaf_scanning)

lemma scanning_cong:
  assumes "frontier st' = frontier st" "window st' = window st" "next_index st' = next_index st"
    "match_start st' = match_start st"
  shows "scanning env snapshot expected st' = scanning env snapshot expected st"
  using assms by (simp add: scanning_def scanned_leaves_def)

lemma scan_block_scanning:
  assumes "scanning env snapshot expected st" "scan_block env snapshot expected st block = Inr st'"
  shows "scanning env snapshot expected st'"
proof -
  have run: "run_steps (scan_leaf env snapshot expected)
      (st\<lparr>previous_height := Some (block_height block)\<rparr>) (block_leaves block) = Inr st'"
    using assms(2) by (auto simp add: scan_block_def split: if_splits)
  have start: "scanning env snapshot expected (st\<lparr>previous_height := Some (block_height block)\<rparr>)"
    by (rule scanning_cong [THEN iffD2, OF _ _ _ _ assms(1)]) simp_all
  show ?thesis
    using leaf_scan.run_holds [OF start run] .
qed

interpretation block_scan: stepwise_invariant "scan_block env snapshot expected"
    "\<lambda>_. scanning env snapshot expected" for env snapshot expected
  by unfold_locales (rule scan_block_scanning)

lemma page_progress_fields:
  assumes "page_progress snapshot n cursor st = Inr st'"
  shows "frontier st' = frontier st \<and> window st' = window st \<and> next_index st' = next_index st
    \<and> match_start st' = match_start st"
  using assms by (auto simp add: page_progress_def split: if_splits option.splits)

lemma scan_page_scanning:
  assumes "scanning env snapshot expected st" "scan_page env snapshot expected st page = Inr st'"
  shows "scanning env snapshot expected st'"
proof -
  obtain mid n where run: "run_steps (scan_block env snapshot expected) st (page_blocks page) = Inr mid"
    and progress: "page_progress snapshot n (next_from_height page) mid = Inr st'"
    using assms(2) by (auto simp add: scan_page_def Let_def split: if_splits)
  show ?thesis
    using page_progress_fields [OF progress]
    by (intro scanning_cong [THEN iffD2, OF _ _ _ _ block_scan.run_holds [OF assms(1) run]]) simp_all
qed

section \<open>Passes within the budget\<close>

fun wf_scan_failure :: "RecoveryScanFailure \<Rightarrow> bool" where
  "wf_scan_failure (ScanInvalid d) = wf_diagnostic d"
| "wf_scan_failure (ScanAmbiguousLayout d) = wf_diagnostic d"
| "wf_scan_failure _ = True"

definition within_budget :: "RecoveryPassBudget \<Rightarrow> bool" where
  "within_budget b \<longleftrightarrow> response_bytes b \<le> MAX_RECOVERY_TOTAL_BYTES"

text \<open>
  From \<open>P\<close>, within the budget, the pass ends with \<open>Q\<close> and still within the budget, or with a
  failure whose diagnostic is bounded; it never panics and never begins more leaf requests than
  the budget has.
\<close>

definition rec_spec ::
  "(RecoveryPassBudget \<Rightarrow> bool) \<Rightarrow> 'a recovery_pass \<Rightarrow> ('a \<Rightarrow> RecoveryPassBudget \<Rightarrow> bool) \<Rightarrow> bool" where
  "rec_spec P m Q \<longleftrightarrow>
     (\<forall>b r b'. m b = (r, b') \<and> P b \<and> within_budget b
        \<and> leaf_request_count b \<le> MAX_RECOVERY_LEAF_REQUESTS \<longrightarrow>
        leaf_request_count b' \<le> MAX_RECOVERY_LEAF_REQUESTS \<and>
        (case r of
           Inr x \<Rightarrow> Q x b' \<and> within_budget b'
         | Inl (Failed e) \<Rightarrow> wf_scan_failure e
         | Inl Panicked \<Rightarrow> False))"

lemma rec_specI:
  assumes "\<And>b r b'. \<lbrakk>m b = (r, b'); P b; within_budget b; leaf_request_count b \<le> MAX_RECOVERY_LEAF_REQUESTS\<rbrakk>
    \<Longrightarrow> leaf_request_count b' \<le> MAX_RECOVERY_LEAF_REQUESTS
      \<and> (case r of Inr x \<Rightarrow> Q x b' \<and> within_budget b' | Inl (Failed e) \<Rightarrow> wf_scan_failure e | Inl Panicked \<Rightarrow> False)"
  shows "rec_spec P m Q"
  unfolding rec_spec_def using assms by blast

lemma rec_specD:
  assumes "rec_spec P m Q" "m b = (r, b')" "P b" "within_budget b"
    "leaf_request_count b \<le> MAX_RECOVERY_LEAF_REQUESTS"
  shows "leaf_request_count b' \<le> MAX_RECOVERY_LEAF_REQUESTS
    \<and> (case r of Inr x \<Rightarrow> Q x b' \<and> within_budget b' | Inl (Failed e) \<Rightarrow> wf_scan_failure e | Inl Panicked \<Rightarrow> False)"
  using assms unfolding rec_spec_def by blast

lemma rec_return: "(\<And>b. P b \<Longrightarrow> Q x b) \<Longrightarrow> rec_spec P (pass_return x) Q"
  by (rule rec_specI) (auto simp add: pass_return_def)

lemma rec_fail: "wf_scan_failure e \<Longrightarrow> rec_spec P (pass_fail e) Q"
  by (rule rec_specI) (auto simp add: pass_fail_def)

lemma rec_bind:
  assumes m: "rec_spec P m R" and f: "\<And>x. rec_spec (R x) (f x) Q"
  shows "rec_spec P (pass_bind m f) Q"
proof (rule rec_specI)
  fix b r b'
  assume run: "pass_bind m f b = (r, b')" and P: "P b" "within_budget b"
    "leaf_request_count b \<le> MAX_RECOVERY_LEAF_REQUESTS"
  obtain x c where x: "m b = (x, c)"
    by (cases "m b")
  note step = rec_specD [OF m x P]
  show "leaf_request_count b' \<le> MAX_RECOVERY_LEAF_REQUESTS
      \<and> (case r of Inr x \<Rightarrow> Q x b' \<and> within_budget b' | Inl (Failed e) \<Rightarrow> wf_scan_failure e | Inl Panicked \<Rightarrow> False)"
  proof (cases x)
    case (Inl e)
    with run x have "r = Inl e" "b' = c"
      by (simp_all add: pass_bind_def)
    with step Inl show ?thesis
      by (cases e) simp_all
  next
    case (Inr y)
    with run x have "f y c = (r, b')"
      by (simp add: pass_bind_def)
    from rec_specD [OF f this] step Inr show ?thesis
      by simp
  qed
qed

lemma rec_result:
  "\<lbrakk>\<And>y b. \<lbrakk>x = Inr y; P b\<rbrakk> \<Longrightarrow> Q y b; \<And>e. x = Inl e \<Longrightarrow> wf_scan_failure e\<rbrakk>
   \<Longrightarrow> rec_spec P (pass_result x) Q"
  by (cases x) (auto simp add: pass_result_def intro: rec_return rec_fail)

lemma rec_pure: "(A \<Longrightarrow> rec_spec P m Q) \<Longrightarrow> rec_spec (\<lambda>b. A \<and> P b) m Q"
  unfolding rec_spec_def by blast

lemma rec_result_then:
  "\<lbrakk>\<And>y. x = Inr y \<Longrightarrow> rec_spec P (f y) Q; \<And>e. x = Inl e \<Longrightarrow> wf_scan_failure e\<rbrakk>
   \<Longrightarrow> rec_spec P (pass_bind (pass_result x) f) Q"
  by (rule rec_bind [OF rec_result [where Q = "\<lambda>y b. x = Inr y \<and> P b"]]) (auto intro: rec_pure)

lemma rec_post:
  assumes m: "rec_spec P m Q" and Q: "\<And>x b. Q x b \<Longrightarrow> Q' x b"
  shows "rec_spec P m Q'"
proof (rule rec_specI)
  fix b r b'
  assume "m b = (r, b')" "P b" "within_budget b" "leaf_request_count b \<le> MAX_RECOVERY_LEAF_REQUESTS"
  from rec_specD [OF m this] show "leaf_request_count b' \<le> MAX_RECOVERY_LEAF_REQUESTS
      \<and> (case r of Inr x \<Rightarrow> Q' x b' \<and> within_budget b' | Inl (Failed e) \<Rightarrow> wf_scan_failure e | Inl Panicked \<Rightarrow> False)"
    using Q by (cases r) auto
qed

lemma rec_exists: "(\<And>x. rec_spec (P x) m Q) \<Longrightarrow> rec_spec (\<lambda>b. \<exists>x. P x b) m Q"
  unfolding rec_spec_def by blast

lemma rec_if: "\<lbrakk>c \<Longrightarrow> rec_spec P m Q; \<not> c \<Longrightarrow> rec_spec P n Q\<rbrakk> \<Longrightarrow> rec_spec P (if c then m else n) Q"
  by simp

lemma rec_pre: "\<lbrakk>rec_spec P' m Q; \<And>b. P b \<Longrightarrow> P' b\<rbrakk> \<Longrightarrow> rec_spec P m Q"
  unfolding rec_spec_def by blast

text \<open>Assertions of the passes are about the number of requests begun, which samples keep.\<close>

abbreviation begun :: "nat \<Rightarrow> RecoveryPassBudget \<Rightarrow> bool" where
  "begun c b \<equiv> leaf_request_count b = c"

lemma rec_sampled: "(\<And>t b. begun c b \<Longrightarrow> Q (g t) b) \<Longrightarrow> rec_spec (begun c) (rec_sample g) Q"
  by (rule rec_specI) (auto simp add: rec_sample_def within_budget_def)

lemma rec_sample_then:
  assumes "\<And>t. rec_spec (begun c) (f (g t)) Q"
  shows "rec_spec (begun c) (pass_bind (rec_sample g) f) Q"
proof (rule rec_bind [OF rec_sampled [where Q = "\<lambda>x b. (\<exists>t. x = g t) \<and> begun c b"]])
  show "rec_spec (\<lambda>b. (\<exists>t. x = g t) \<and> begun c b) (f x) Q" for x
    by (rule rec_pure) (use assms in auto)
qed blast

lemma wf_recovery_invalid [simp]: "wf_diagnostic (recovery_invalid message)"
  by (simp add: recovery_invalid_def)

lemma wf_exhausted [simp]: "wf_scan_failure bounded_pass_exhausted"
  by (simp add: bounded_pass_exhausted_def)

lemma begin_leaf_request_spec:
  "rec_spec (begun c) (begin_leaf_request env) (\<lambda>_ b. begun (Suc c) b)"
  by (rule rec_specI)
    (auto simp add: begin_leaf_request_def pass_bind_def rec_sample_def pass_fail_def within_budget_def
      split: if_splits)

lemma charge_response_spec: "rec_spec (begun c) (charge_response n) (\<lambda>_. begun c)"
  by (rule rec_specI)
    (auto simp add: charge_response_def Let_def within_budget_def pass_fail_def pass_return_def
      split: if_splits)

lemma ensure_time_remaining_spec: "rec_spec (begun c) (ensure_time_remaining env) (\<lambda>_. begun c)"
  unfolding ensure_time_remaining_def by (intro rec_sample_then rec_if rec_fail rec_return) auto

definition answered :: "(nat \<Rightarrow> 'r fetched) \<Rightarrow> 'r \<Rightarrow> bool" where
  "answered fetch x \<longleftrightarrow>
     (\<exists>t response. fetch t = Fetched response \<and> response_status response = 200
        \<and> response_parsed response = Some x)"

lemma get_json_spec:
  "rec_spec (begun c) (get_json env fetch) (\<lambda>x b. answered fetch x \<and> begun c b)"
  unfolding get_json_def
  by (intro rec_sample_then rec_if rec_fail)
    (auto simp add: answered_def ok_or_def intro!: rec_sample_then rec_if rec_fail rec_result
      rec_bind [OF charge_response_spec] split: fetched.split option.splits)

lemma scan_failures_wf:
  "decode_leaf env encoded label = Inl e \<Longrightarrow> wf_scan_failure e"
  "snapshot_root env snapshot = Inl e \<Longrightarrow> wf_scan_failure e"
  "scan_leaf env snapshot expected st encoded = Inl e \<Longrightarrow> wf_scan_failure e"
  by (auto simp add: decode_leaf_def snapshot_root_def scan_leaf_def and_then_eq_Inl ok_or_def Let_def
      split: if_splits option.splits)

lemma run_steps_failure:
  "\<lbrakk>run_steps step s xs = Inl e; \<And>s x. step s x = Inl e \<Longrightarrow> P e\<rbrakk> \<Longrightarrow> P e"
  by (induction xs arbitrary: s) (auto simp add: and_then_eq_Inl)

lemma scan_block_failure_wf: "scan_block env snapshot expected st block = Inl e \<Longrightarrow> wf_scan_failure e"
  by (auto simp add: scan_block_def and_then_eq_Inl ok_or_def split: if_splits option.splits
      intro: run_steps_failure scan_failures_wf)

lemma scan_page_failure_wf: "scan_page env snapshot expected st page = Inl e \<Longrightarrow> wf_scan_failure e"
  by (auto simp add: scan_page_def page_progress_def and_then_eq_Inl Let_def split: if_splits option.splits
      intro: run_steps_failure scan_block_failure_wf)

lemma scan_pages_spec:
  "scanning env snapshot expected st \<Longrightarrow> MAX_RECOVERY_LEAF_REQUESTS < c + fuel \<Longrightarrow>
   rec_spec (begun c) (scan_pages env endpoint round snapshot expected fuel st)
     (\<lambda>st' _. scanning env snapshot expected st' \<and> \<not> next_index st' < tree_next_index snapshot)"
proof (induction fuel arbitrary: st c)
  case 0
  then show ?case
    by (auto simp add: rec_spec_def)
next
  case (Suc fuel)
  have next_page: "rec_spec (begun (Suc c)) (pass_bind (pass_result (scan_page env snapshot expected st page))
      (scan_pages env endpoint round snapshot expected fuel))
      (\<lambda>st' _. scanning env snapshot expected st' \<and> \<not> next_index st' < tree_next_index snapshot)" for page
  proof (rule rec_bind)
    show "rec_spec (begun (Suc c)) (pass_result (scan_page env snapshot expected st page))
        (\<lambda>st' b. scanning env snapshot expected st' \<and> begun (Suc c) b)"
      by (rule rec_result) (auto intro: scan_page_scanning [OF Suc.prems(1)] scan_page_failure_wf)
  qed (rule rec_pure, rule Suc.IH, use Suc.prems in auto)
  show ?case
    unfolding scan_pages.simps
    by (intro rec_if rec_sample_then rec_fail rec_bind [OF begin_leaf_request_spec]
        rec_bind [OF get_json_spec] rec_pure next_page rec_return) (use Suc.prems in auto)
qed

section \<open>Replicas\<close>

text \<open>
  What an outcome means: a snapshot the replica served, all its leaves under its root, and the
  occurrences of the layout among them.
\<close>

definition exact_outcome ::
  "'f recovery_env \<Rightarrow> nat \<Rightarrow> bytes \<Rightarrow> bytes list \<Rightarrow> nat list \<Rightarrow> bool" where
  "exact_outcome env endpoint round expected found \<longleftrightarrow>
     (\<exists>latest snapshot ls f.
        answered (\<lambda>t. rec_latest env t endpoint round) latest \<and> latest_tree latest = Some snapshot
        \<and> length ls = tree_next_index snapshot \<and> length ls \<le> 2 ^ 24
        \<and> list_all (\<lambda>l. length l = 32 \<and> rec_canonical env l) ls
        \<and> frontier_of env ls = Some f
        \<and> (\<forall>value. tree_root snapshot = Some value \<and> value \<noteq> []
             \<longrightarrow> rec_base64 env value = Some (rec_frontier_root env f))
        \<and> occurrences expected ls = found)"

lemma exact_outcome_finish:
  assumes "answered (\<lambda>t. rec_latest env t endpoint round) latest" "latest_tree latest = Some snapshot"
    "\<not> tree_next_index snapshot > unat TREE_CAPACITY"
    "snapshot_root env snapshot = Inr root" "scanning env snapshot expected st" "expected \<noteq> []"
    "\<not> next_index st < tree_next_index snapshot"
    "\<not> (root \<noteq> None \<and> root \<noteq> Some (rec_frontier_root env (frontier st)))"
  shows "exact_outcome env endpoint round expected (case match_start st of None \<Rightarrow> [] | Some i \<Rightarrow> [i])"
proof -
  obtain ls where ls: "scanned_leaves env snapshot expected ls st"
    using assms(5,6) by (auto simp add: scanning_def)
  then have "length ls = tree_next_index snapshot"
    using assms(7) by (simp add: scanned_leaves_def)
  moreover have "rec_base64 env encoded = Some (rec_frontier_root env (frontier st))"
    if "tree_root snapshot = Some encoded" "encoded \<noteq> []" for encoded
    using assms(4,8) that by (auto simp add: snapshot_root_def decode_leaf_eq_Inr)
  ultimately show ?thesis
    using assms(1-3) ls unfolding exact_outcome_def scanned_leaves_def unat_TREE_CAPACITY
    by (intro exI [of _ latest] exI [of _ snapshot] exI [of _ ls] exI [of _ "frontier st"]) auto
qed

lemma scan_replica_spec:
  assumes "expected \<noteq> []"
  shows "rec_spec (begun c) (scan_replica env endpoint round expected)
    (\<lambda>outcome _. case outcome of
        ReplicaMatch van vcs \<Rightarrow> exact_outcome env endpoint round expected [van]
          \<and> vcs = [van + 1..<van + length expected]
      | ReplicaNoMatch \<Rightarrow> exact_outcome env endpoint round expected [])"
proof -
  have positions: "map ((+) start) [Suc 0..<length expected] = [Suc start..<start + length expected]"
    for start
    by (rule nth_equalityI) auto
  have result: "rec_spec (begun c')
      (if root \<noteq> None \<and> root \<noteq> Some (rec_frontier_root env (frontier st))
       then pass_fail (ScanInvalid (recovery_invalid ''tree recovery final root contradicts the fixed snapshot''))
       else pass_return (scan_outcome expected (match_start st)))
      (\<lambda>outcome _. case outcome of
          ReplicaMatch van vcs \<Rightarrow> exact_outcome env endpoint round expected [van]
            \<and> vcs = [van + 1..<van + length expected]
        | ReplicaNoMatch \<Rightarrow> exact_outcome env endpoint round expected [])"
    if "answered (\<lambda>t. rec_latest env t endpoint round) latest" "latest_tree latest = Some snapshot"
      "\<not> (tree_next_index snapshot > unat TREE_CAPACITY \<or> tree_height snapshot > 2 ^ 32 - 1)"
      "snapshot_root env snapshot = Inr root" "scanning env snapshot expected st"
      "\<not> next_index st < tree_next_index snapshot" for c' latest snapshot root st
    using exact_outcome_finish [OF that(1,2) _ that(4,5) assms that(6)] that(3)
    by (intro rec_if rec_fail rec_return)
      (auto simp add: scan_outcome_def positions split: option.splits)
  have pages: "rec_spec (begun c) (scan_pages env endpoint round snapshot expected
       (Suc MAX_RECOVERY_LEAF_REQUESTS) (scan_start env))
      (\<lambda>st b. \<exists>c'. (scanning env snapshot expected st \<and> \<not> next_index st < tree_next_index snapshot)
         \<and> begun c' b)" for snapshot
    by (rule rec_post [OF scan_pages_spec [OF scan_start_scanning]]) auto
  show ?thesis
    unfolding scan_replica_def
    by (intro rec_bind [OF get_json_spec] rec_pure rec_result_then rec_if rec_fail
        rec_bind [OF pages] rec_exists rec_bind [OF ensure_time_remaining_spec] result)
      (auto simp add: ok_or_def split: option.splits intro: scan_failures_wf)
qed

section \<open>Failover\<close>

abbreviation layout_of :: "DerivedChainSubmission \<Rightarrow> bytes list" where
  "layout_of derived \<equiv> layout_leaves (expected_layout (bound derived))"

abbreviation round_of :: "DerivedChainSubmission \<Rightarrow> bytes" where
  "round_of derived \<equiv> vote_round_id (gen_identity (derived_generation derived))"

definition exact_scan ::
  "'f recovery_env \<Rightarrow> ChainSubmissionIdentity \<Rightarrow> DerivedChainSubmission
   \<Rightarrow> CandidateTransactionHash option \<Rightarrow> nat \<Rightarrow> RecoveryScanOutcome \<Rightarrow> bool" where
  "exact_scan env operation derived candidate endpoint outcome \<longleftrightarrow>
     (case outcome of
        ScanOutcomeMatch van vcs \<Rightarrow>
          exact_outcome env endpoint (round_of derived) (layout_of derived) [unat van]
          \<and> map unat vcs = [unat van + 1..<unat van + length (layout_of derived)]
      | ScanOutcomeNoMatch authorization \<Rightarrow>
          exact_outcome env endpoint (round_of derived) (layout_of derived) []
          \<and> authorization = \<lparr>auth_identity = operation,
               auth_digest = gen_digest (derived_generation derived), auth_candidate = candidate\<rparr>)"

lemma layout_nonempty [simp]: "layout_leaves layout \<noteq> []"
  by (cases layout) simp_all

lemma exact_outcome_bound:
  assumes "exact_outcome env endpoint round expected [van]" "expected \<noteq> []"
  shows "van + length expected \<le> 2 ^ 24"
proof -
  obtain ls :: "bytes list" where "length ls \<le> 2 ^ 24" "occurrences expected ls = [van]"
    using assms(1) by (auto simp add: exact_outcome_def)
  with occurrences_fit [of van expected ls] assms(2) show ?thesis
    by simp
qed

lemma match_as_words:
  assumes "exact_outcome env endpoint round (layout_of derived) [van]"
    and "vcs = [van + 1..<van + length (layout_of derived)]"
  shows "unat (of_nat van :: u64) = van" "map (\<lambda>x. unat (of_nat x :: u64)) vcs = vcs"
proof -
  have small: "unat (of_nat x :: u64) = x" if "x \<le> 2 ^ 24" for x
    using that by (simp add: unat_of_nat)
  note bound = exact_outcome_bound [OF assms(1) layout_nonempty]
  show "unat (of_nat van :: u64) = van"
    using bound by (intro small) simp
  show "map (\<lambda>x. unat (of_nat x :: u64)) vcs = vcs"
    unfolding assms(2) by (rule map_idI, rule small) (use bound in auto)
qed

lemma cannot_fail_over_cases:
  assumes run: "cannot_fail_over env b = (r, b')" and count: "leaf_request_count b \<le> MAX_RECOVERY_LEAF_REQUESTS"
  shows "\<exists>stuck. r = Inr stuck \<and> leaf_request_count b' \<le> MAX_RECOVERY_LEAF_REQUESTS
    \<and> (stuck \<or> within_budget b')"
proof (cases "leaf_request_count b \<ge> MAX_RECOVERY_LEAF_REQUESTS \<or> response_bytes b > MAX_RECOVERY_TOTAL_BYTES")
  case True
  then have "r = Inr True" "b' = b"
    using run by (simp_all add: cannot_fail_over_def)
  with count show ?thesis
    by blast
next
  case False
  then have "r = Inr (rec_expired env (rec_tick b))" "b' = b\<lparr>rec_tick := Suc (rec_tick b)\<rparr>"
    using run by (simp_all add: cannot_fail_over_def rec_sample_def)
  with count False show ?thesis
    by (simp add: within_budget_def)
qed

definition scan_result_ok ::
  "(RecoveryPassBudget \<Rightarrow> RecoveryScanOutcome \<Rightarrow> bool) \<Rightarrow> RecoveryScanFailure pass_error + RecoveryScanOutcome
   \<Rightarrow> RecoveryPassBudget \<Rightarrow> bool" where
  "scan_result_ok good r b \<longleftrightarrow>
     leaf_request_count b \<le> MAX_RECOVERY_LEAF_REQUESTS
     \<and> (case r of
          Inr outcome \<Rightarrow> within_budget b \<and> good b outcome
        | Inl (Failed e) \<Rightarrow> wf_scan_failure e
        | Inl Panicked \<Rightarrow> False)"

lemma after_replica_sound:
  assumes run: "after_replica env operation derived candidate k answer b = (r, b')"
    and answer: "leaf_request_count b \<le> MAX_RECOVERY_LEAF_REQUESTS"
      "case answer of
         Inr outcome \<Rightarrow> (case outcome of
             ReplicaMatch van vcs \<Rightarrow> exact_outcome env endpoint (round_of derived) (layout_of derived) [van]
               \<and> vcs = [van + 1..<van + length (layout_of derived)]
           | ReplicaNoMatch \<Rightarrow> exact_outcome env endpoint (round_of derived) (layout_of derived) [])
           \<and> within_budget b
       | Inl (Failed e) \<Rightarrow> wf_scan_failure e
       | Inl Panicked \<Rightarrow> False"
    and k: "\<And>e c r c'. \<lbrakk>k e c = (r, c'); wf_scan_failure e; within_budget c;
        leaf_request_count c \<le> MAX_RECOVERY_LEAF_REQUESTS\<rbrakk> \<Longrightarrow> scan_result_ok good r c'"
    and good: "\<And>b outcome. exact_scan env operation derived candidate endpoint outcome \<Longrightarrow> good b outcome"
  shows "scan_result_ok good r b'"
proof (cases answer)
  case (Inr outcome)
  show ?thesis
  proof (cases outcome)
    case (ReplicaMatch van vcs)
    with Inr answer(2) have found: "exact_outcome env endpoint (round_of derived) (layout_of derived) [van]"
      "vcs = [van + 1..<van + length (layout_of derived)]" "within_budget b"
      by auto
    have "exact_scan env operation derived candidate endpoint
        (ScanOutcomeMatch (of_nat van) (map of_nat vcs))"
      using match_as_words [OF found(1,2)] found(1,2) by (simp add: exact_scan_def comp_def)
    from good [OF this] show ?thesis
      using run answer(1) found(3) unfolding Inr ReplicaMatch
      by (auto simp add: after_replica_def pass_return_def scan_result_ok_def)
  next
    case ReplicaNoMatch
    with Inr answer(2) have found: "exact_outcome env endpoint (round_of derived) (layout_of derived) []"
      "within_budget b"
      by auto
    have "exact_scan env operation derived candidate endpoint
        (ScanOutcomeNoMatch \<lparr>auth_identity = operation,
           auth_digest = gen_digest (derived_generation derived), auth_candidate = candidate\<rparr>)"
      using found(1) by (simp add: exact_scan_def)
    from good [OF this] show ?thesis
      using run answer(1) found(2) unfolding Inr ReplicaNoMatch
      by (auto simp add: after_replica_def pass_return_def scan_result_ok_def)
  qed
next
  case (Inl error)
  then obtain e where e: "error = Failed e" "wf_scan_failure e"
    using answer(2) by (cases error) auto
  have go_on: "scan_result_ok good r b'"
    if "pass_bind (cannot_fail_over env) (\<lambda>stuck. if stuck then pass_fail e else k e) b = (r, b')"
  proof -
    obtain x c where x: "cannot_fail_over env b = (x, c)"
      by (cases "cannot_fail_over env b")
    from cannot_fail_over_cases [OF x answer(1)] obtain stuck where "x = Inr stuck"
      "leaf_request_count c \<le> MAX_RECOVERY_LEAF_REQUESTS" "stuck \<or> within_budget c"
      by blast
    then show ?thesis
      using that x e(2) k [of e c r b']
      by (auto simp add: pass_bind_def pass_fail_def scan_result_ok_def split: if_splits)
  qed
  have stop: "scan_result_ok good r b'" if "pass_fail e b = (r, b')"
    using that e(2) answer(1) by (auto simp add: pass_fail_def scan_result_ok_def)
  show ?thesis
    using run go_on stop unfolding Inl e(1) after_replica_def
    by (cases e) (simp_all only: sum.case pass_error.case RecoveryScanFailure.case)
qed

lemma scan_replicas_sound:
  assumes "scan_replicas env operation derived candidate last_failure endpoints b = (r, b')"
    "within_budget b" "leaf_request_count b \<le> MAX_RECOVERY_LEAF_REQUESTS"
    "case last_failure of None \<Rightarrow> True | Some e \<Rightarrow> wf_scan_failure e"
  shows "scan_result_ok
    (\<lambda>_ outcome. \<exists>endpoint \<in> set endpoints. exact_scan env operation derived candidate endpoint outcome) r b'"
  using assms
proof (induction endpoints arbitrary: last_failure b r b')
  case Nil
  then show ?case
    by (auto simp add: pass_fail_def scan_result_ok_def split: option.splits)
next
  case (Cons endpoint endpoints)
  define c where "c = b\<lparr>rec_tick := Suc (rec_tick b)\<rparr>"
  have c: "within_budget c" "leaf_request_count c \<le> MAX_RECOVERY_LEAF_REQUESTS"
    using Cons.prems by (simp_all add: c_def within_budget_def)
  show ?case
  proof (cases "rec_interrupted env (rec_tick b)")
    case True
    with Cons.prems(1) c show ?thesis
      by (auto simp add: pass_bind_def rec_sample_def pass_fail_def scan_result_ok_def c_def)
  next
    case False
    obtain x d where replica: "scan_replica env endpoint (round_of derived) (layout_of derived) c = (x, d)"
      by (cases "scan_replica env endpoint (round_of derived) (layout_of derived) c")
    have run: "after_replica env operation derived candidate
        (\<lambda>failure. scan_replicas env operation derived candidate (Some failure) endpoints) x d = (r, b')"
      using Cons.prems(1) False replica by (simp add: pass_bind_def rec_sample_def c_def)
    note sound = rec_specD [OF scan_replica_spec [OF layout_nonempty] replica refl c]
    show ?thesis
    proof (rule after_replica_sound [OF run sound [THEN conjunct1] sound [THEN conjunct2]], goal_cases)
      case (1 e c r c')
      then have "scan_result_ok (\<lambda>_ outcome. \<exists>endpoint \<in> set endpoints.
          exact_scan env operation derived candidate endpoint outcome) r c'"
        by (intro Cons.IH [of "Some e" c]) simp_all
      then show ?case
        by (cases r) (auto simp add: scan_result_ok_def)
    qed auto
  qed
qed

section \<open>Properties\<close>

lemma scan_exact_layout_sound:
  assumes "scan_exact_layout env n operation derived candidate = (r, b)"
  shows "scan_result_ok
    (\<lambda>_ outcome. \<exists>endpoint < n. exact_scan env operation derived candidate endpoint outcome) r b"
  using scan_replicas_sound [OF assms [unfolded scan_exact_layout_def]]
  by (simp add: budget_new_def within_budget_def atLeast0LessThan Bex_def lessThan_def)

text \<open>A replica with three leaves whose last two are the layout of a vote.\<close>

definition json_answer :: "'r \<Rightarrow> 'r fetched" where
  "json_answer x = Fetched \<lparr>response_status = 200, response_length = 100,
     response_content_type = Some (lit ''application/json''), response_parsed = Some x\<rparr>"

definition sample_replica :: "bytes list recovery_env" where
  "sample_replica =
     \<lparr>rec_interrupted = (\<lambda>_. False), rec_expired = (\<lambda>_. False),
      rec_latest = (\<lambda>_ _ _. json_answer \<lparr>latest_tree = Some \<lparr>tree_next_index = 3,
         tree_root = Some (replicate 32 0), tree_height = 5\<rparr>\<rparr>),
      rec_leaves = (\<lambda>_ _ _ _ _. json_answer \<lparr>page_blocks = [\<lparr>block_height = 5, block_start_index = 0,
         block_leaves = [replicate 32 7, replicate 32 2, replicate 32 3],
         block_root = Some (replicate 32 0)\<rparr>], next_from_height = 0\<rparr>),
      rec_base64 = (\<lambda>s. Some (map of_nat s)), rec_canonical = (\<lambda>_. True),
      rec_frontier_empty = [], rec_frontier_append = (\<lambda>ls l. Some (ls @ [l])),
      rec_frontier_root = (\<lambda>_. replicate 32 0)\<rparr>"

definition sample_layout :: DerivedChainSubmission where
  "sample_layout = (sample_derived (DeriveVote sample_identity))\<lparr>bound :=
     (bound (sample_derived (DeriveVote sample_identity)))\<lparr>expected_layout :=
       VoteLayout (replicate 32 2) (replicate 32 3)\<rparr>\<rparr>"

lemma json_media_type: "media_type_is (Some (lit ''application/json'')) ''application/json''"
  by (simp add: media_type_is_def eq_ignore_ascii_case_def trim_def trim_start_def trim_end_def
      before_semicolon_def lit_def is_whitespace_def)

lemma max_leaf_requests: "MAX_RECOVERY_LEAF_REQUESTS = 6709"
  by (simp add: MAX_RECOVERY_LEAF_REQUESTS_def maximum_whole_block_page_count_def unat_TREE_CAPACITY
      VOTE_SDK_PAGE_LEAF_TARGET_def)

lemma sample_replica_fields:
  "rec_interrupted sample_replica t = False" "rec_expired sample_replica t = False"
  "rec_base64 sample_replica e = Some (map of_nat e)" "rec_canonical sample_replica l"
  "rec_frontier_root sample_replica ls = replicate 32 0"
  by (simp_all add: sample_replica_def)

lemma sample_page:
  "scan_page sample_replica \<lparr>tree_next_index = 3, tree_root = Some (replicate 32 0), tree_height = 5\<rparr>
      [replicate 32 2, replicate 32 3] (scan_start sample_replica)
      \<lparr>page_blocks = [\<lparr>block_height = 5, block_start_index = 0,
         block_leaves = [replicate 32 7, replicate 32 2, replicate 32 3],
         block_root = Some (replicate 32 0)\<rparr>], next_from_height = 0\<rparr>
    = Inr \<lparr>frontier = [replicate 32 7, replicate 32 2, replicate 32 3],
       window = [replicate 32 2, replicate 32 3], next_index = 3, from_height = 0,
       previous_height = Some 5, unpaired_nonfinal_page_leaves = None, match_start = Some 1\<rparr>"
  by (simp add: scan_page_def scan_block_def scan_leaf_def decode_leaf_def page_progress_def push_window_def
      scan_start_def sample_replica_def)

lemma sample_get:
  "response_bytes b < 1000 \<Longrightarrow> get_json sample_replica (\<lambda>t. json_answer x) b =
     (Inr x, b\<lparr>rec_tick := rec_tick b + 2, response_bytes := response_bytes b + 100\<rparr>)"
  by (simp add: get_json_def pass_bind_def rec_sample_def json_answer_def charge_response_def Let_def
      pass_return_def pass_result_def json_media_type MAX_RECOVERY_TOTAL_BYTES_def
      MAX_RECOVERY_RESPONSE_BYTES_def sample_replica_def)

lemma sample_pages:
  "scan_pages sample_replica endpoint round
     \<lparr>tree_next_index = 3, tree_root = Some (replicate 32 0), tree_height = 5\<rparr>
     [replicate 32 2, replicate 32 3] (Suc MAX_RECOVERY_LEAF_REQUESTS) (scan_start sample_replica)
     \<lparr>leaf_request_count = 0, response_bytes = 100, rec_tick = t\<rparr>
   = (Inr \<lparr>frontier = [replicate 32 7, replicate 32 2, replicate 32 3],
       window = [replicate 32 2, replicate 32 3], next_index = 3, from_height = 0,
       previous_height = Some 5, unpaired_nonfinal_page_leaves = None, match_start = Some 1\<rparr>,
      \<lparr>leaf_request_count = 1, response_bytes = 200, rec_tick = t + 4\<rparr>)"
proof -
  have fuel: "6709 = Suc 6708"
    by simp
  have leaves: "rec_leaves sample_replica t endpoint round i j = json_answer \<lparr>page_blocks =
      [\<lparr>block_height = 5, block_start_index = 0,
         block_leaves = [replicate 32 7, replicate 32 2, replicate 32 3],
         block_root = Some (replicate 32 0)\<rparr>], next_from_height = 0\<rparr>" for t i j
    by (simp add: sample_replica_def)
  have start: "next_index (scan_start sample_replica) = 0"
    by (simp add: scan_start_def)
  have one: "scan_pages sample_replica endpoint round
      \<lparr>tree_next_index = 3, tree_root = Some (replicate 32 0), tree_height = 5\<rparr>
      [replicate 32 2, replicate 32 3] 6709
      \<lparr>frontier = [replicate 32 7, replicate 32 2, replicate 32 3],
       window = [replicate 32 2, replicate 32 3], next_index = 3, from_height = 0,
       previous_height = Some 5, unpaired_nonfinal_page_leaves = None, match_start = Some 1\<rparr> b
    = (Inr \<lparr>frontier = [replicate 32 7, replicate 32 2, replicate 32 3],
       window = [replicate 32 2, replicate 32 3], next_index = 3, from_height = 0,
       previous_height = Some 5, unpaired_nonfinal_page_leaves = None, match_start = Some 1\<rparr>, b)" for b
    unfolding fuel scan_pages.simps(2) by (simp add: pass_return_def)
  show ?thesis
    unfolding scan_pages.simps(2)
    by (simp add: pass_bind_def rec_sample_def sample_replica_fields begin_leaf_request_def leaves start
        sample_get sample_page pass_result_def pass_return_def one [unfolded One_nat_def] max_leaf_requests)
qed

lemma sample_scan:
  "scan_exact_layout sample_replica 1 sample_identity sample_layout None =
     (Inr (ScanOutcomeMatch 1 [2]), \<lparr>leaf_request_count = 1, response_bytes = 200, rec_tick = 8\<rparr>)"
proof -
  have latest: "rec_latest sample_replica t endpoint round = json_answer \<lparr>latest_tree = Some
      \<lparr>tree_next_index = 3, tree_root = Some (replicate 32 0), tree_height = 5\<rparr>\<rparr>" for t endpoint round
    by (simp add: sample_replica_def)
  have layout: "layout_of sample_layout = [replicate 32 2, replicate 32 3]"
    by (simp add: sample_layout_def)
  show ?thesis
    by (simp add: scan_exact_layout_def budget_new_def pass_bind_def rec_sample_def scan_replica_def
        sample_replica_fields latest layout sample_get pass_result_def pass_return_def unat_TREE_CAPACITY
        snapshot_root_def decode_leaf_def sample_pages ensure_time_remaining_def scan_outcome_def
        after_replica_def del: scan_pages.simps)
qed

text \<open>
  C19.  Exact-tree recovery is exact: an outcome of a pass comes from one configured replica, from
  a snapshot it served and all leaves of that snapshot, whose root is the root of the snapshot.
  A match is the only occurrence of the generation's layout among these leaves, with the
  positions that follow it; an authorization to submit again means there is no occurrence, and it
  is bound to the operation, the generation and the candidate it was asked for.
\<close>

theorem tree_scan_exact:
  assumes "scan_exact_layout env n operation derived candidate = (Inr outcome, b)"
  shows "\<exists>endpoint < n. \<exists>latest snapshot ls f.
     answered (\<lambda>t. rec_latest env t endpoint (round_of derived)) latest
     \<and> latest_tree latest = Some snapshot
     \<and> length ls = tree_next_index snapshot
     \<and> frontier_of env ls = Some f
     \<and> (\<forall>root. tree_root snapshot = Some root \<and> root \<noteq> []
          \<longrightarrow> rec_base64 env root = Some (rec_frontier_root env f))
     \<and> (case outcome of
          ScanOutcomeMatch van vcs \<Rightarrow>
            occurrences (layout_of derived) ls = [unat van]
            \<and> map unat vcs = [unat van + 1..<unat van + length (layout_of derived)]
        | ScanOutcomeNoMatch authorization \<Rightarrow>
            occurrences (layout_of derived) ls = []
            \<and> authorization = \<lparr>auth_identity = operation,
                 auth_digest = gen_digest (derived_generation derived), auth_candidate = candidate\<rparr>)"
proof -
  from scan_exact_layout_sound [OF assms] obtain endpoint where "endpoint < n"
    and exact: "exact_scan env operation derived candidate endpoint outcome"
    by (auto simp add: scan_result_ok_def)
  moreover have "\<exists>latest snapshot ls f.
     answered (\<lambda>t. rec_latest env t endpoint (round_of derived)) latest
     \<and> latest_tree latest = Some snapshot
     \<and> length ls = tree_next_index snapshot
     \<and> frontier_of env ls = Some f
     \<and> (\<forall>root. tree_root snapshot = Some root \<and> root \<noteq> []
          \<longrightarrow> rec_base64 env root = Some (rec_frontier_root env f))
     \<and> (case outcome of
          ScanOutcomeMatch van vcs \<Rightarrow>
            occurrences (layout_of derived) ls = [unat van]
            \<and> map unat vcs = [unat van + 1..<unat van + length (layout_of derived)]
        | ScanOutcomeNoMatch authorization \<Rightarrow>
            occurrences (layout_of derived) ls = []
            \<and> authorization = \<lparr>auth_identity = operation,
                 auth_digest = gen_digest (derived_generation derived), auth_candidate = candidate\<rparr>)"
    using exact by (cases outcome) (auto simp add: exact_scan_def exact_outcome_def)
  ultimately show ?thesis
    by blast
qed

theorem tree_scan_exact_witness:
  "\<exists>ls. occurrences (layout_of sample_layout) ls = [1] \<and> length ls = 3"
proof -
  from tree_scan_exact [OF sample_scan] obtain latest snapshot ls
    where "answered (\<lambda>t. rec_latest sample_replica t 0 (round_of sample_layout)) latest"
      "latest_tree latest = Some snapshot" "length ls = tree_next_index snapshot"
      "occurrences (layout_of sample_layout) ls = [1]"
    by auto
  moreover have "latest = \<lparr>latest_tree = Some \<lparr>tree_next_index = 3,
      tree_root = Some (replicate 32 0), tree_height = 5\<rparr>\<rparr>"
    using calculation(1) by (simp add: answered_def sample_replica_def json_answer_def)
  ultimately show ?thesis
    by auto
qed


text \<open>The answer of a pass as the coordinator's environment takes it.\<close>

definition recovery_answer ::
  "(RecoveryScanFailure pass_error + RecoveryScanOutcome) \<times> RecoveryPassBudget
   \<Rightarrow> RecoveryScanFailure + RecoveryScanOutcome" where
  "recovery_answer answer =
     (case fst answer of
        Inr outcome \<Rightarrow> Inr outcome
      | Inl (Failed failure) \<Rightarrow> Inl failure
      | Inl Panicked \<Rightarrow> Inl ScanFailureInterrupted)"

text \<open>
  Recovery and the coordinator compose: whatever the replicas answer, the outcome of a pass
  for the operation's own generation is what the coordinator relies on.  An authorization names
  that identity and generation digest, a match has few enough positions to store, and the
  diagnostics fit their bound.
\<close>

theorem recovery_meets_coordinator:
  "wf_scan (derived_generation derived)
     (recovery_answer (scan_exact_layout env n (gen_identity (derived_generation derived)) derived candidate))"
proof -
  obtain r b where run:
    "scan_exact_layout env n (gen_identity (derived_generation derived)) derived candidate = (r, b)"
    by (cases "scan_exact_layout env n (gen_identity (derived_generation derived)) derived candidate")
  note sound = scan_exact_layout_sound [OF run, unfolded scan_result_ok_def]
  show ?thesis
  proof (cases r)
    case (Inl error)
    then obtain e where "error = Failed e" "wf_scan_failure e"
      using sound by (cases error) auto
    with Inl run show ?thesis
      by (cases e) (simp_all add: recovery_answer_def)
  next
    case (Inr outcome)
    then obtain endpoint where exact:
      "exact_scan env (gen_identity (derived_generation derived)) derived candidate endpoint outcome"
      using sound by auto
    show ?thesis
    proof (cases outcome)
      case (ScanOutcomeMatch van vcs)
      have "length vcs \<le> length (layout_of derived)"
        using exact ScanOutcomeMatch
        by (auto simp add: exact_scan_def dest: arg_cong [where f = length])
      then show ?thesis
        using exact_outcome_bound [OF _ layout_nonempty, of env endpoint "round_of derived"
            "expected_layout (bound derived)" "unat van"] exact Inr run ScanOutcomeMatch
        by (auto simp add: recovery_answer_def exact_scan_def)
    next
      case (ScanOutcomeNoMatch authorization)
      with exact Inr run show ?thesis
        by (simp add: recovery_answer_def exact_scan_def)
    qed
  qed
qed

lemma paired_pages:
  assumes "\<forall>c \<in> set pages. 0 < c" "successively (\<lambda>a b. page_target + 1 \<le> a + b) pages"
  shows "length pages div 2 * (page_target + 1) + length pages mod 2 \<le> sum_list pages"
  using assms
proof (induction pages rule: induct_list012)
  case (3 a b pages)
  then have "length pages div 2 * (page_target + 1) + length pages mod 2 \<le> sum_list pages"
    by (cases "pages = []") (simp_all add: successively_Cons)
  with 3(4) show ?case
    by (simp add: successively_Cons)
qed auto

text \<open>
  The request limit is no tighter than honest pagination needs: when pages are made of whole
  blocks greedily, so that two consecutive pages exceed the page target, every snapshot within
  the tree's capacity is served in at most \<open>maximum_whole_block_page_count\<close> pages.
\<close>

theorem whole_block_pages_bounded:
  assumes "\<forall>c \<in> set pages. 0 < c" "successively (\<lambda>a b. page_target + 1 \<le> a + b) pages"
    and "sum_list pages \<le> leaves"
  shows "length pages \<le> maximum_whole_block_page_count leaves page_target"
proof -
  define p q where "p = page_target + 1" and "q = length pages div 2"
  have total: "q * p + length pages mod 2 \<le> leaves"
    using paired_pages [OF assms(1,2)] assms(3) by (simp add: p_def q_def)
  then have "q * p \<le> leaves"
    by simp
  then have pairs: "q \<le> leaves div p"
    by (simp add: p_def less_eq_div_iff_mult_less_eq)
  have "length pages = 2 * q + length pages mod 2"
    by (simp add: q_def)
  moreover have "leaves mod p \<noteq> 0" if "leaves div p = q" "length pages mod 2 = 1"
    using total that div_mult_mod_eq [of leaves p] by auto
  moreover have "length pages mod 2 = 0 \<or> length pages mod 2 = 1"
    by auto
  ultimately show ?thesis
    using pairs unfolding maximum_whole_block_page_count_def Let_def p_def [symmetric]
    by (cases "leaves div p = q") auto
qed

theorem whole_block_pages_bounded_witness:
  "length [3::nat, 3, 4, 2] \<le> maximum_whole_block_page_count 12 5"
  by (rule whole_block_pages_bounded) simp_all

end
