(* ===== verification/Submission_Protocol.thy ===== *)
theory Submission_Protocol
  imports Submission_Coordinator Http_Text
begin

text \<open>
  The vote-chain protocol (\<open>chain_submission/protocol.rs\<close>, \<open>ingress_timeout.rs\<close>): timing, the
  canonical endpoint set, the classification of one POST and the status lookup over all endpoints.
  JSON decoding, hexadecimal encoding and the \<open>url\<close> library are parameters.
\<close>

section \<open>Timing\<close>

text \<open>Durations are in nanoseconds.\<close>

definition MIN_CHAIN_POST_TIMEOUT :: nat where
  "MIN_CHAIN_POST_TIMEOUT = from_secs 120"

definition DEFAULT_CHAIN_POST_TIMEOUT :: nat where
  "DEFAULT_CHAIN_POST_TIMEOUT = from_secs 150"

definition DEFAULT_CHAIN_LOOKUP_TIMEOUT :: nat where
  "DEFAULT_CHAIN_LOOKUP_TIMEOUT = from_secs 10"

definition MAX_CHAIN_REQUEST_TIMEOUT :: nat where
  "MAX_CHAIN_REQUEST_TIMEOUT = from_secs (10 * 60)"

definition MAX_CHAIN_HTTP_REQUEST_BYTES :: nat where
  "MAX_CHAIN_HTTP_REQUEST_BYTES = 1024 * 1024"

definition MAX_CHAIN_HTTP_RESPONSE_BYTES :: nat where
  "MAX_CHAIN_HTTP_RESPONSE_BYTES = 256 * 1024"

definition MAX_CHAIN_ENDPOINTS :: nat where
  "MAX_CHAIN_ENDPOINTS = 100"

definition NULLIFIER_ALREADY_SPENT_CODE :: u32 where
  "NULLIFIER_ALREADY_SPENT_CODE = 2"

definition invalid_protocol :: "unicode \<Rightarrow> ChainSubmissionDiagnostic" where
  "invalid_protocol message = from_redacted_message InvalidProtocolResponse message"

record ChainProtocolTiming =
  post_timeout :: nat
  lookup_timeout :: nat

definition timing_new :: "nat \<Rightarrow> nat \<Rightarrow> ChainSubmissionDiagnostic + ChainProtocolTiming" where
  "timing_new post lookup =
     (if \<not> (MIN_CHAIN_POST_TIMEOUT \<le> post \<and> post \<le> MAX_CHAIN_REQUEST_TIMEOUT)
      then Inl (invalid_protocol (lit ''vote-chain POST timeout must be between 120 and 600 seconds''))
      else if lookup = 0 \<or> lookup > MAX_CHAIN_REQUEST_TIMEOUT
      then Inl (invalid_protocol
        (lit ''vote-chain lookup timeout must be between 1 nanosecond and 600 seconds''))
      else Inr \<lparr>post_timeout = post, lookup_timeout = lookup\<rparr>)"

definition timing_default :: ChainProtocolTiming where
  "timing_default =
     \<lparr>post_timeout = DEFAULT_CHAIN_POST_TIMEOUT, lookup_timeout = DEFAULT_CHAIN_LOOKUP_TIMEOUT\<rparr>"

section \<open>Endpoints\<close>

definition hex_value :: "nat \<Rightarrow> nat option" where
  "hex_value c =
     (if 48 \<le> c \<and> c \<le> 57 then Some (c - 48)
      else if 97 \<le> c \<and> c \<le> 102 then Some (c - 97 + 10)
      else if 65 \<le> c \<and> c \<le> 70 then Some (c - 65 + 10)
      else None)"

definition upper_hex :: "nat \<Rightarrow> nat" where
  "upper_hex v = (if v < 10 then 48 + v else 55 + v)"

definition is_unreserved :: "nat \<Rightarrow> bool" where
  "is_unreserved c \<longleftrightarrow>
     48 \<le> c \<and> c \<le> 57 \<or> 65 \<le> c \<and> c \<le> 90 \<or> 97 \<le> c \<and> c \<le> 122 \<or> c \<in> {45, 46, 95, 126}"

fun normalize_percent_escapes :: "unicode \<Rightarrow> unicode option" where
  "normalize_percent_escapes [] = Some []"
| "normalize_percent_escapes (c # s) =
     (if c \<noteq> 37 then map_option (Cons c) (normalize_percent_escapes s)
      else case s of
        h # l # rest \<Rightarrow>
          (case (hex_value h, hex_value l) of
             (Some high, Some low) \<Rightarrow>
               let v = high * 16 + low in
               map_option (append (if is_unreserved v then [v] else [37, upper_hex high, upper_hex low]))
                 (normalize_percent_escapes rest)
           | _ \<Rightarrow> None)
      | _ \<Rightarrow> None)"

text \<open>What the \<open>url\<close> library gives; \<open>'u\<close> is its parsed URL.\<close>

record 'u url_library =
  url_parse :: "unicode \<Rightarrow> 'u option"
  url_scheme :: "'u \<Rightarrow> string"
  url_username :: "'u \<Rightarrow> unicode"
  url_password :: "'u \<Rightarrow> unicode option"
  url_query :: "'u \<Rightarrow> unicode option"
  url_fragment :: "'u \<Rightarrow> unicode option"
  url_domain :: "'u \<Rightarrow> unicode option"
  url_set_host :: "unicode \<Rightarrow> 'u \<Rightarrow> 'u option"
  url_port :: "'u \<Rightarrow> nat option"
  url_clear_port :: "'u \<Rightarrow> 'u option"
  url_path :: "'u \<Rightarrow> unicode"
  url_set_path :: "unicode \<Rightarrow> 'u \<Rightarrow> 'u"
  url_as_str :: "'u \<Rightarrow> unicode"

definition trim_end_slashes :: "unicode \<Rightarrow> unicode" where
  "trim_end_slashes s = rev (dropWhile (\<lambda>c. c = 47) (rev s))"

definition strip_trailing_dot ::
  "'u url_library \<Rightarrow> 'u \<Rightarrow> ChainSubmissionDiagnostic + 'u" where
  "strip_trailing_dot lib url =
     (case url_domain lib url of
        Some host \<Rightarrow>
          if host \<noteq> [] \<and> last host = 46
          then ok_or (invalid_protocol (lit ''vote-chain endpoint host is invalid''))
                 (url_set_host lib (butlast host) url)
          else Inr url
      | None \<Rightarrow> Inr url)"

definition default_port :: "string \<Rightarrow> nat option" where
  "default_port scheme =
     (if scheme = ''http'' then Some 80 else if scheme = ''https'' then Some 443 else None)"

definition canonicalize_chain_base_url ::
  "'u url_library \<Rightarrow> unicode \<Rightarrow> Network \<Rightarrow> ChainSubmissionDiagnostic + unicode" where
  "canonicalize_chain_base_url lib text net =
     and_then (ok_or (invalid_protocol (lit ''vote-chain endpoint is not a valid URL''))
                 (url_parse lib (trim text))) (\<lambda>url.
     if url_scheme lib url \<notin> {''http'', ''https''}
     then Inl (invalid_protocol (lit ''vote-chain endpoint must use HTTP or HTTPS''))
     else if net = Mainnet \<and> url_scheme lib url \<noteq> ''https''
     then Inl (invalid_protocol (lit ''production vote-chain endpoint must use HTTPS''))
     else if url_username lib url \<noteq> [] \<or> url_password lib url \<noteq> None
     then Inl (invalid_protocol (lit ''vote-chain endpoint must not contain credentials''))
     else if url_query lib url \<noteq> None \<or> url_fragment lib url \<noteq> None
     then Inl (invalid_protocol (lit ''vote-chain endpoint must not contain a query or fragment''))
     else
       and_then (strip_trailing_dot lib url) (\<lambda>url.
       and_then (if url_port lib url = default_port (url_scheme lib url)
                 then ok_or (invalid_protocol (lit ''vote-chain endpoint port is invalid''))
                        (url_clear_port lib url)
                 else Inr url) (\<lambda>url.
       and_then (ok_or (invalid_protocol
                   (lit ''vote-chain endpoint path has an invalid percent escape''))
                   (normalize_percent_escapes (url_path lib url))) (\<lambda>path.
         Inr (trim_end_slashes (url_as_str lib (url_set_path lib path url)))))))"

fun canonical_endpoints ::
  "'u url_library \<Rightarrow> Network \<Rightarrow> unicode list \<Rightarrow> unicode list
   \<Rightarrow> ChainSubmissionDiagnostic + unicode list" where
  "canonical_endpoints lib net canonical [] = Inr canonical"
| "canonical_endpoints lib net canonical (endpoint # endpoints) =
     and_then (canonicalize_chain_base_url lib endpoint net) (\<lambda>endpoint.
     if endpoint \<in> set canonical
     then Inl (invalid_protocol
       (lit ''vote-chain endpoint set contains a duplicate canonical endpoint''))
     else canonical_endpoints lib net (canonical @ [endpoint]) endpoints)"

text \<open>The client without its transport, which the operations take as an argument.\<close>

record ChainProtocolClient =
  client_endpoints :: "unicode list"
  client_timing :: ChainProtocolTiming

definition with_timing ::
  "'u url_library \<Rightarrow> Network \<Rightarrow> unicode list \<Rightarrow> ChainProtocolTiming
   \<Rightarrow> ChainSubmissionDiagnostic + ChainProtocolClient" where
  "with_timing lib net endpoints timing =
     and_then (timing_new (post_timeout timing) (lookup_timeout timing)) (\<lambda>_.
     if endpoints = []
     then Inl (invalid_protocol (lit ''vote-chain endpoint set must not be empty''))
     else if length endpoints > MAX_CHAIN_ENDPOINTS
     then Inl (invalid_protocol (lit ''vote-chain endpoint set exceeds 100 endpoint limit''))
     else and_then (canonical_endpoints lib net [] endpoints) (\<lambda>canonical.
       Inr \<lparr>client_endpoints = canonical, client_timing = timing\<rparr>))"

definition protocol_new ::
  "'u url_library \<Rightarrow> Network \<Rightarrow> unicode list \<Rightarrow> ChainSubmissionDiagnostic + ChainProtocolClient" where
  "protocol_new lib net endpoints = with_timing lib net endpoints timing_default"

definition join_chain_url :: "unicode \<Rightarrow> unicode list \<Rightarrow> unicode" where
  "join_chain_url base segments =
     base @ concat (map (\<lambda>segment. 47 # segment) ([lit ''shielded-vote'', lit ''v1''] @ segments))"

section \<open>Responses\<close>

record ChainHttpResponse =
  http_status :: nat
  http_body :: bytes
  http_content_type :: "unicode option"

datatype BatchDigestJson = BatchDigestAbsent | BatchDigestPresent unicode

record TransactionResultJson =
  result_tx_hash :: "unicode option"
  result_code :: u32
  result_log :: unicode
  result_batch_digest :: BatchDigestJson

record 'ev TransactionStatusJson =
  status_height :: unicode
  status_code :: u32
  status_events :: 'ev

record TimeoutReceipt =
  receipt_version :: u32
  receipt_code :: unicode
  receipt_dispatch :: unicode
  receipt_attempt :: unicode

record 'ev CommittedTransaction =
  committed_height :: nat
  committed_code :: u32
  committed_events :: 'ev

text \<open>What \<open>serde_json\<close> decodes a body to, and the \<open>hex\<close> crate.\<close>

record 'ev protocol_codec =
  decode_result :: "bytes \<Rightarrow> TransactionResultJson option"
  decode_gateway_error :: "bytes \<Rightarrow> unicode option"
  decode_status :: "bytes \<Rightarrow> 'ev TransactionStatusJson option"
  decode_receipt :: "bytes \<Rightarrow> TimeoutReceipt option"
  hex_encode :: "bytes \<Rightarrow> unicode"
  hex_decode :: "string \<Rightarrow> bytes option"

definition is_ascii_hexdigit :: "nat \<Rightarrow> bool" where
  "is_ascii_hexdigit c \<longleftrightarrow> 48 \<le> c \<and> c \<le> 57 \<or> 65 \<le> c \<and> c \<le> 70 \<or> 97 \<le> c \<and> c \<le> 102"

definition normalize_candidate_hash ::
  "'ev protocol_codec \<Rightarrow> unicode \<Rightarrow> CandidateTransactionHash option" where
  "normalize_candidate_hash codec text =
     (if length text \<noteq> 64 \<or> \<not> list_all is_ascii_hexdigit text then None
      else candidate_hash_from_str (hex_decode codec) (map char_of (to_ascii_lowercase text)))"

definition is_json_content_type :: "ChainHttpResponse \<Rightarrow> bool" where
  "is_json_content_type response = media_type_is (http_content_type response) ''application/json''"

definition observed_content_type :: "ChainHttpResponse \<Rightarrow> unicode" where
  "observed_content_type response =
     (case http_content_type response of Some observed \<Rightarrow> observed | None \<Rightarrow> lit ''(absent)'')"

definition validate_json_response :: "ChainHttpResponse \<Rightarrow> ChainSubmissionDiagnostic + unit" where
  "validate_json_response response =
     (if length (http_body response) > MAX_CHAIN_HTTP_RESPONSE_BYTES
      then Inl (invalid_protocol (lit ''vote-chain response exceeds 262144 byte limit''))
      else if \<not> is_json_content_type response then
        let excerpt = trim (from_utf8_lossy (http_body response));
            prefix = lit ''vote-chain response Content-Type must be application/json, got ''
                     @ observed_content_type response in
        Inl (invalid_protocol
          (if excerpt = [] then prefix @ lit '' with an empty body''
           else prefix @ lit '': '' @ excerpt))
      else Inr ())"

text \<open>An oversized body is left to the ordinary limit diagnostic.\<close>

definition gateway_shaped_route_answer ::
  "'ev protocol_codec \<Rightarrow> ChainHttpResponse \<Rightarrow> unicode \<Rightarrow> ChainSubmissionDiagnostic option" where
  "gateway_shaped_route_answer codec response endpoint =
     (if length (http_body response) > MAX_CHAIN_HTTP_RESPONSE_BYTES then None
      else if http_status response \<notin> {404, 405} \<or> \<not> is_json_content_type response then None
      else if decode_gateway_error codec (http_body response) = None then None
      else Some (from_redacted_message EndpointUnsupported
        (lit ''vote-chain endpoint may not serve /shielded-vote/v1/'' @ endpoint @ lit '' (HTTP ''
         @ lit (decimal (http_status response))
         @ lit '', gateway-shaped error envelope); the POST may have reached the chain; check the gateway route and vote-sdk release'')))"

definition replaced_route_answer ::
  "ChainHttpResponse \<Rightarrow> unicode \<Rightarrow> ChainSubmissionDiagnostic option" where
  "replaced_route_answer response endpoint =
     (if length (http_body response) > MAX_CHAIN_HTTP_RESPONSE_BYTES then None
      else if \<not> (http_status response \<in> {404, 405}
                 \<or> http_status response = 200
                    \<and> media_type_is (http_content_type response) ''text/html'')
      then None
      else Some (from_redacted_message RouteAnswerReplaced
        (lit ''vote-chain endpoint may not serve /shielded-vote/v1/'' @ endpoint @ lit '' (HTTP ''
         @ lit (decimal (http_status response)) @ lit '', Content-Type ''
         @ observed_content_type response
         @ lit ''); the POST may have reached the chain; check the gateway route and vote-sdk release'')))"

definition batch_digest_mismatch ::
  "'ev protocol_codec \<Rightarrow> bytes option \<Rightarrow> BatchDigestJson \<Rightarrow> string option" where
  "batch_digest_mismatch codec expected observed =
     (case (expected, observed) of
        (Some digest, BatchDigestPresent text) \<Rightarrow>
          if text = hex_encode codec digest then None
          else Some ''vote-batch response contained an invalid batch digest''
      | (Some _, BatchDigestAbsent) \<Rightarrow> Some ''vote-batch response omitted its batch digest''
      | (None, BatchDigestPresent _) \<Rightarrow>
          Some ''non-batch vote-chain response contained a batch digest''
      | (None, BatchDigestAbsent) \<Rightarrow> None)"

definition rejection_message :: "u32 \<Rightarrow> unicode \<Rightarrow> unicode" where
  "rejection_message code log =
     (let prefix = lit ''vote chain rejected transaction with code '' @ lit (decimal (unat code)) in
      if trim log = [] then prefix else prefix @ lit '': '' @ trim log)"

text \<open>The match on status and code once the body is decoded.\<close>

definition transaction_outcome ::
  "'ev protocol_codec \<Rightarrow> nat \<Rightarrow> TransactionResultJson \<Rightarrow> PostAttemptOutcome" where
  "transaction_outcome codec status parsed =
     (if status = 200 \<and> result_code parsed = 0 then
        case Option.bind (result_tx_hash parsed) (normalize_candidate_hash codec) of
          Some candidate \<Rightarrow> PostAccepted candidate
        | None \<Rightarrow> PostPossiblyDispatched (invalid_protocol
            (lit ''accepted vote-chain response omitted a canonical transaction hash''))
      else if status = 422 \<and> result_code parsed \<noteq> 0 then
        if (case result_tx_hash parsed of
              None \<Rightarrow> False
            | Some hash \<Rightarrow> hash \<noteq> [] \<and> normalize_candidate_hash codec hash = None)
        then PostPossiblyDispatched (invalid_protocol
          (lit ''rejected vote-chain response contained an invalid transaction hash''))
        else PostRejected
          (if result_code parsed = NULLIFIER_ALREADY_SPENT_CODE then NullifierSpentRejection
           else OtherRejection)
          (from_redacted_message ChainRejected
            (rejection_message (result_code parsed) (result_log parsed)))
      else if 300 \<le> status \<and> status \<le> 399
      then PostPossiblyDispatched (invalid_protocol (lit ''vote-chain mutation redirect was rejected''))
      else PostPossiblyDispatched (invalid_protocol
        (lit ''unsupported vote-chain mutation response status='' @ lit (decimal status)
         @ lit '' code='' @ lit (decimal (unat (result_code parsed))))))"

definition parse_post_response ::
  "'ev protocol_codec \<Rightarrow> ChainHttpResponse \<Rightarrow> unicode \<Rightarrow> bytes option \<Rightarrow> PostAttemptOutcome" where
  "parse_post_response codec response endpoint expected_batch_digest =
     (case gateway_shaped_route_answer codec response endpoint of
        Some diagnostic \<Rightarrow> PostPossiblyDispatched diagnostic
      | None \<Rightarrow>
     (case replaced_route_answer response endpoint of
        Some diagnostic \<Rightarrow> PostPossiblyDispatched diagnostic
      | None \<Rightarrow>
     (case validate_json_response response of
        Inl diagnostic \<Rightarrow> PostPossiblyDispatched diagnostic
      | Inr _ \<Rightarrow>
     (case decode_result codec (http_body response) of
        None \<Rightarrow> PostPossiblyDispatched (invalid_protocol
          (lit ''vote-chain transaction response is malformed JSON''))
      | Some parsed \<Rightarrow>
     (case batch_digest_mismatch codec expected_batch_digest (result_batch_digest parsed) of
        Some message \<Rightarrow> PostPossiblyDispatched (invalid_protocol (lit message))
      | None \<Rightarrow> transaction_outcome codec (http_status response) parsed)))))"

section \<open>One POST\<close>

definition is_not_dispatched ::
  "'ev protocol_codec \<Rightarrow> nat \<Rightarrow> bytes \<Rightarrow> unicode option \<Rightarrow> bool" where
  "is_not_dispatched codec status payload attempt =
     (case attempt of
        None \<Rightarrow> False
      | Some attempt \<Rightarrow>
          status = 408
          \<and> (case decode_receipt codec payload of
               None \<Rightarrow> False
             | Some receipt \<Rightarrow>
                 receipt_version receipt = 1
                 \<and> receipt_code receipt = lit ''request_body_timeout''
                 \<and> receipt_dispatch receipt = lit ''not_started''
                 \<and> receipt_attempt receipt = attempt))"

datatype ChainTransportFailureKind = DefinitelyUnsent | TransportPossiblyDispatched

record ChainTransportError =
  transport_kind :: ChainTransportFailureKind
  transport_message :: unicode

definition transport_error :: "ChainTransportFailureKind \<Rightarrow> unicode \<Rightarrow> ChainTransportError" where
  "transport_error kind message =
     \<lparr>transport_kind = kind, transport_message = lit (bounded_redacted_text message)\<rparr>"

record ChainHttpRequest =
  request_url :: unicode
  request_headers :: "(unicode \<times> unicode) list"
  request_timeout :: nat
  request_max_response_bytes :: nat

definition chain_request :: "unicode \<Rightarrow> bool \<Rightarrow> nat \<Rightarrow> ChainHttpRequest" where
  "chain_request url has_json_body timeout =
     \<lparr>request_url = url,
      request_headers = (lit ''accept'', lit ''application/json'')
        # (if has_json_body then [(lit ''content-type'', lit ''application/json'')] else []),
      request_timeout = timeout,
      request_max_response_bytes = MAX_CHAIN_HTTP_RESPONSE_BYTES\<rparr>"

definition add_header :: "unicode \<Rightarrow> unicode \<Rightarrow> ChainHttpRequest \<Rightarrow> ChainHttpRequest" where
  "add_header name content request =
     request\<lparr>request_headers := request_headers request @ [(name, content)]\<rparr>"

text \<open>
  How a transport call bounded by the deadline ends: the deadline passed, and the dispatch marker
  read then; a transport error; a response.
\<close>

datatype TransportAnswer =
    TransportTimedOut bool
  | TransportError ChainTransportError
  | TransportResponse ChainHttpResponse

type_synonym post_transport = "ChainHttpRequest \<Rightarrow> bytes \<Rightarrow> TransportAnswer"
type_synonym get_transport = "ChainHttpRequest \<Rightarrow> TransportAnswer"

definition post_request ::
  "ChainProtocolClient \<Rightarrow> unicode \<Rightarrow> unicode \<Rightarrow> unicode option \<Rightarrow> ChainHttpRequest" where
  "post_request client base_url endpoint attempt_token =
     (let request = chain_request (join_chain_url base_url [endpoint]) True
                      (post_timeout (client_timing client)) in
      case attempt_token of
        Some token \<Rightarrow> add_header (lit ''x-vote-ingress-attempt-v1'') token request
      | None \<Rightarrow> request)"

definition post_outcome ::
  "'ev protocol_codec \<Rightarrow> unicode \<Rightarrow> bytes option \<Rightarrow> unicode option \<Rightarrow> TransportAnswer
   \<Rightarrow> PostAttemptOutcome" where
  "post_outcome codec endpoint expected_batch_digest attempt_token answer =
     (case answer of
        TransportTimedOut possible \<Rightarrow>
          if \<not> possible
          then PostDefinitelyUnsent (transport_message (transport_error DefinitelyUnsent
            (lit ''vote-chain submission timed out before the transport released the request'')))
          else PostPossiblyDispatched (from_redacted_message AmbiguousDispatch
            (lit ''vote-chain submission timed out''))
      | TransportResponse response \<Rightarrow>
          if validate_json_response response = Inr ()
             \<and> is_not_dispatched codec (http_status response) (http_body response) attempt_token
          then PostNotDispatchedByServer
          else parse_post_response codec response endpoint expected_batch_digest
      | TransportError error \<Rightarrow>
          if transport_kind error = DefinitelyUnsent
          then PostDefinitelyUnsent (transport_message error)
          else PostPossiblyDispatched
            (from_redacted_message AmbiguousDispatch (transport_message error)))"

definition chain_post ::
  "'ev protocol_codec \<Rightarrow> ChainProtocolClient \<Rightarrow> post_transport \<Rightarrow> unicode option \<Rightarrow> nat \<Rightarrow> unicode
   \<Rightarrow> bytes \<Rightarrow> bytes option \<Rightarrow> PostAttemptOutcome" where
  "chain_post codec client transport attempt_token endpoint_index endpoint body expected_batch_digest =
     (if length body > MAX_CHAIN_HTTP_REQUEST_BYTES
      then PostLocalFailure (invalid_protocol (lit ''vote-chain request exceeds 1048576 byte limit''))
      else if endpoint_index \<ge> length (client_endpoints client)
      then PostLocalFailure (invalid_protocol (lit ''vote-chain endpoint index is out of range''))
      else post_outcome codec endpoint expected_batch_digest attempt_token
        (transport (post_request client (client_endpoints client ! endpoint_index) endpoint
           attempt_token) body))"

text \<open>
  The four submit functions and the match of \<open>submit_to_endpoint\<close> over them.  \<open>serialize\<close> is
  \<open>to_json\<close> of the request; a batch digest comes from the target of the submission.  None is a
  panic of that match.
\<close>

definition submit_serialized ::
  "'ev protocol_codec \<Rightarrow> ChainProtocolClient \<Rightarrow> post_transport \<Rightarrow> unicode option \<Rightarrow> nat \<Rightarrow> string
   \<Rightarrow> string \<Rightarrow> unicode + bytes \<Rightarrow> bytes option \<Rightarrow> PostAttemptOutcome" where
  "submit_serialized codec client transport token endpoint_index noun endpoint serialized digest =
     (case serialized of
        Inl error \<Rightarrow> PostLocalFailure (invalid_protocol
          (lit ''serialize '' @ lit noun @ lit '' request failed: '' @ error))
      | Inr body \<Rightarrow> chain_post codec client transport token endpoint_index (lit endpoint) body digest)"

definition submit_delegation_with_dispatch ::
  "'ev protocol_codec \<Rightarrow> ChainProtocolClient \<Rightarrow> post_transport \<Rightarrow> unicode option \<Rightarrow> nat
   \<Rightarrow> unicode + bytes \<Rightarrow> PostAttemptOutcome" where
  "submit_delegation_with_dispatch codec client transport token endpoint_index serialized =
     submit_serialized codec client transport token endpoint_index ''delegation'' ''delegate-vote'' serialized None"

definition submit_vote_with_dispatch ::
  "'ev protocol_codec \<Rightarrow> ChainProtocolClient \<Rightarrow> post_transport \<Rightarrow> unicode option \<Rightarrow> nat
   \<Rightarrow> unicode + bytes \<Rightarrow> PostAttemptOutcome" where
  "submit_vote_with_dispatch codec client transport token endpoint_index serialized =
     submit_serialized codec client transport token endpoint_index ''vote'' ''cast-vote'' serialized None"

definition submit_vote_batch_with_dispatch ::
  "'ev protocol_codec \<Rightarrow> ChainProtocolClient \<Rightarrow> post_transport \<Rightarrow> unicode option \<Rightarrow> nat
   \<Rightarrow> unicode + bytes \<Rightarrow> bytes \<Rightarrow> PostAttemptOutcome" where
  "submit_vote_batch_with_dispatch codec client transport token endpoint_index serialized digest =
     submit_serialized codec client transport token endpoint_index ''vote-batch'' ''cast-vote-batch'' serialized (Some digest)"

definition submit_delegate_and_vote_batch_with_dispatch ::
  "'ev protocol_codec \<Rightarrow> ChainProtocolClient \<Rightarrow> post_transport \<Rightarrow> unicode option \<Rightarrow> nat
   \<Rightarrow> unicode + bytes \<Rightarrow> bytes \<Rightarrow> PostAttemptOutcome" where
  "submit_delegate_and_vote_batch_with_dispatch codec client transport token endpoint_index serialized digest =
     submit_serialized codec client transport token endpoint_index ''combined'' ''delegate-and-cast-vote-batch'' serialized (Some digest)"

definition submit_request ::
  "'ev protocol_codec \<Rightarrow> ChainProtocolClient \<Rightarrow> post_transport \<Rightarrow> unicode option
   \<Rightarrow> (ChainSubmissionRequest \<Rightarrow> unicode + bytes) \<Rightarrow> ChainSubmissionTarget \<Rightarrow> nat
   \<Rightarrow> ChainSubmissionRequest \<Rightarrow> PostAttemptOutcome option" where
  "submit_request codec client transport token serialize submission_target endpoint_index request =
     (case request of
        DelegationRequest _ \<Rightarrow>
          Some (submit_delegation_with_dispatch codec client transport token endpoint_index
            (serialize request))
      | ImportedDelegationRequest _ \<Rightarrow> Some (PostLocalFailure imported_dispatch_diagnostic)
      | VoteRequest _ \<Rightarrow>
          Some (submit_vote_with_dispatch codec client transport token endpoint_index
            (serialize request))
      | DelegateAndVoteBatchRequest _ _ _ \<Rightarrow>
          map_option (submit_delegate_and_vote_batch_with_dispatch codec client transport token
              endpoint_index (serialize request))
            (batch_digest submission_target)
      | VoteBatchRequest _ _ \<Rightarrow>
          (case submission_target of
             VoteBatch digest \<Rightarrow>
               Some (submit_vote_batch_with_dispatch codec client transport token endpoint_index
                 (serialize request) digest)
           | _ \<Rightarrow> None))"

section \<open>Status lookup\<close>

definition parse_status_response ::
  "'ev protocol_codec \<Rightarrow> ChainHttpResponse
   \<Rightarrow> ChainSubmissionDiagnostic + ('ev CommittedTransaction) TransactionStatusObservation" where
  "parse_status_response codec response =
     and_then (validate_json_response response) (\<lambda>_.
     if http_status response = 404 then
       and_then (ok_or (invalid_protocol (lit ''vote-chain pending response is malformed JSON''))
                   (decode_gateway_error codec (http_body response))) (\<lambda>error.
       if error \<noteq> lit ''tx not found''
       then Inl (invalid_protocol (lit ''vote-chain pending response has an unsupported error''))
       else Inr StatusPending)
     else if 300 \<le> http_status response \<and> http_status response \<le> 399
     then Inl (invalid_protocol (lit ''vote-chain transaction lookup redirect was rejected''))
     else if http_status response \<notin> {200, 422}
     then Inl (invalid_protocol
       (lit ''unsupported vote-chain lookup HTTP status '' @ lit (decimal (http_status response))))
     else
       and_then (ok_or (invalid_protocol (lit ''vote-chain transaction status is malformed JSON''))
                   (decode_status codec (http_body response))) (\<lambda>parsed.
       and_then (ok_or (invalid_protocol
                   (lit ''vote-chain transaction height is not a u64 decimal string''))
                   (parse_u64 (status_height parsed))) (\<lambda>height.
         let committed = \<lparr>committed_height = height, committed_code = status_code parsed,
                          committed_events = status_events parsed\<rparr> in
         if http_status response = 200 \<and> status_code parsed = 0 then Inr (CommittedSuccess committed)
         else if http_status response = 422 \<and> status_code parsed \<noteq> 0 then Inr CommittedFailure
         else Inl (invalid_protocol
           (lit ''contradictory vote-chain lookup response status=''
            @ lit (decimal (http_status response)) @ lit '' code=''
            @ lit (decimal (unat (status_code parsed))))))))"

definition lookup_answer ::
  "'ev protocol_codec \<Rightarrow> TransportAnswer
   \<Rightarrow> LookupFailure + ('ev CommittedTransaction) TransactionStatusObservation" where
  "lookup_answer codec answer =
     (case answer of
        TransportResponse response \<Rightarrow> map_err LookupProtocol (parse_status_response codec response)
      | TransportError error \<Rightarrow> Inl (LookupTransport (transport_message error))
      | TransportTimedOut _ \<Rightarrow> Inl (LookupTransport (transport_message
          (transport_error TransportPossiblyDispatched
            (lit ''vote-chain transaction lookup timed out'')))))"

text \<open>The loop over the endpoints, with \<open>saw_pending\<close> and \<open>last_failure\<close>.\<close>

fun transaction_status_from ::
  "'ev protocol_codec \<Rightarrow> bool \<Rightarrow> LookupFailure option \<Rightarrow> TransportAnswer list
   \<Rightarrow> LookupFailure + ('ev CommittedTransaction) TransactionStatusObservation" where
  "transaction_status_from codec saw_pending last_failure [] =
     (if saw_pending then Inr StatusPending
      else Inl (case last_failure of
        Some failure \<Rightarrow> failure
      | None \<Rightarrow> LookupProtocol (invalid_protocol
          (lit ''vote-chain lookup produced no endpoint result''))))"
| "transaction_status_from codec saw_pending last_failure (answer # answers) =
     (case lookup_answer codec answer of
        Inr StatusPending \<Rightarrow> transaction_status_from codec True last_failure answers
      | Inr committed \<Rightarrow> Inr committed
      | Inl failure \<Rightarrow> transaction_status_from codec saw_pending (Some failure) answers)"

definition transaction_status ::
  "'ev protocol_codec \<Rightarrow> ChainProtocolClient \<Rightarrow> get_transport \<Rightarrow> CandidateTransactionHash
   \<Rightarrow> LookupFailure + ('ev CommittedTransaction) TransactionStatusObservation" where
  "transaction_status codec client transport transaction_hash =
     transaction_status_from codec False None
       (map (\<lambda>base_url. transport (chain_request
               (join_chain_url base_url [lit ''tx'', hex_encode codec transaction_hash]) False
               (lookup_timeout (client_timing client))))
          (client_endpoints client))"

end
