(* ===== verification/Submission_Protocol_Safety.thy ===== *)
theory Submission_Protocol_Safety
  imports Submission_Protocol Submission_Pass
begin

text \<open>
  What the protocol client guarantees: which transport answers give which certainty about a POST,
  how the endpoints' status answers are combined, when an endpoint set is accepted, and that its
  outcomes are those the coordinator relies on.
\<close>

section \<open>Classification of a POST\<close>

lemma validate_json_response_ok:
  "validate_json_response response = Inr () \<longleftrightarrow>
     length (http_body response) \<le> MAX_CHAIN_HTTP_RESPONSE_BYTES \<and> is_json_content_type response"
  by (simp add: validate_json_response_def Let_def)

text \<open>A JSON answer whose status is not a route mismatch reaches the decoder.\<close>

lemma no_route_answer:
  assumes "http_status response \<notin> {404, 405}" "validate_json_response response = Inr ()"
  shows "gateway_shaped_route_answer codec response endpoint = None"
    and "replaced_route_answer response endpoint = None"
  using assms
  by (auto simp: gateway_shaped_route_answer_def replaced_route_answer_def is_json_content_type_def
      validate_json_response_ok media_type_is_def eq_ignore_ascii_case_def to_ascii_lowercase_def lit_def
      split: option.splits)

definition decoded ::
  "'ev protocol_codec \<Rightarrow> bytes option \<Rightarrow> ChainHttpResponse \<Rightarrow> TransactionResultJson \<Rightarrow> bool" where
  "decoded codec digest response parsed \<longleftrightarrow>
     validate_json_response response = Inr ()
     \<and> decode_result codec (http_body response) = Some parsed
     \<and> batch_digest_mismatch codec digest (result_batch_digest parsed) = None"

lemma parse_post_response_decoded:
  assumes "decoded codec digest response parsed" "http_status response \<notin> {404, 405}"
  shows "parse_post_response codec response endpoint digest
       = transaction_outcome codec (http_status response) parsed"
  using assms by (simp add: parse_post_response_def decoded_def no_route_answer)

lemma wf_invalid_protocol [simp]: "wf_diagnostic (invalid_protocol message)"
  by (simp add: invalid_protocol_def)

lemma wf_route_answer:
  "gateway_shaped_route_answer codec response endpoint = Some d \<Longrightarrow> wf_diagnostic d"
  "replaced_route_answer response endpoint = Some d \<Longrightarrow> wf_diagnostic d"
  "validate_json_response response = Inl d \<Longrightarrow> wf_diagnostic d"
  by (auto simp: gateway_shaped_route_answer_def replaced_route_answer_def validate_json_response_def
      Let_def split: if_splits)

lemma route_answered:
  assumes "http_status response \<in> {404, 405}" "validate_json_response response = Inr ()"
  shows "replaced_route_answer response endpoint \<noteq> None"
  using assms by (simp add: replaced_route_answer_def validate_json_response_ok)

lemma parse_post_response_cases:
  obtains (ambiguous) d where "parse_post_response codec response endpoint digest = PostPossiblyDispatched d"
      "wf_diagnostic d"
  | (decoded) parsed where "decoded codec digest response parsed" "http_status response \<notin> {404, 405}"
      "parse_post_response codec response endpoint digest
         = transaction_outcome codec (http_status response) parsed"
proof (cases "\<exists>parsed. decoded codec digest response parsed \<and> http_status response \<notin> {404, 405}")
  case True
  then show thesis
    using parse_post_response_decoded decoded by blast
next
  case False
  have "\<exists>d. parse_post_response codec response endpoint digest = PostPossiblyDispatched d \<and> wf_diagnostic d"
    using False route_answered [of response endpoint]
    by (auto simp: parse_post_response_def decoded_def dest: wf_route_answer
        split: option.splits sum.splits)
  then show thesis
    using ambiguous by blast
qed

lemma transaction_outcome_accepted:
  "transaction_outcome codec status parsed = PostAccepted h \<longleftrightarrow>
     status = 200 \<and> result_code parsed = 0
     \<and> (\<exists>text. result_tx_hash parsed = Some text \<and> normalize_candidate_hash codec text = Some h)"
  by (auto simp: transaction_outcome_def Option.bind_eq_Some_conv split: option.splits)

lemma normalized_hash_length: "normalize_candidate_hash codec text = Some h \<Longrightarrow> length h = 32"
  by (auto simp: normalize_candidate_hash_def candidate_hash_from_str_def split: if_splits option.splits)

lemma wf_transaction_outcome: "wf_outcome (transaction_outcome codec status parsed)"
  by (auto simp: transaction_outcome_def invalid_protocol_def Option.bind_eq_Some_conv
      dest: normalized_hash_length split: option.splits if_splits)

lemma wf_parse_post_response: "wf_outcome (parse_post_response codec response endpoint digest)"
  by (rule parse_post_response_cases [of codec response endpoint digest])
    (simp_all add: wf_transaction_outcome)

lemma transaction_outcome_certain:
  "transaction_outcome codec status parsed \<noteq> PostLocalFailure d"
  "transaction_outcome codec status parsed \<noteq> PostDefinitelyUnsent m"
  "transaction_outcome codec status parsed \<noteq> PostNotDispatchedByServer"
  by (auto simp: transaction_outcome_def split: option.splits)

lemma parse_post_response_certain:
  "parse_post_response codec response endpoint digest \<noteq> PostLocalFailure d"
  "parse_post_response codec response endpoint digest \<noteq> PostDefinitelyUnsent m"
  "parse_post_response codec response endpoint digest \<noteq> PostNotDispatchedByServer"
  by (rule parse_post_response_cases [of codec response endpoint digest];
      simp add: transaction_outcome_certain)+

lemma transaction_outcome_rejected:
  "(\<exists>kind d. transaction_outcome codec status parsed = PostRejected kind d) \<longleftrightarrow>
     status = 422 \<and> result_code parsed \<noteq> 0
     \<and> (result_tx_hash parsed \<in> {None, Some []}
         \<or> (\<exists>text h. result_tx_hash parsed = Some text \<and> normalize_candidate_hash codec text = Some h))"
  by (auto simp: transaction_outcome_def split: option.splits)

lemma parse_post_response_accepted:
  "parse_post_response codec response endpoint digest = PostAccepted h \<longleftrightarrow>
     (\<exists>parsed text. http_status response = 200 \<and> decoded codec digest response parsed
        \<and> result_code parsed = 0 \<and> result_tx_hash parsed = Some text
        \<and> normalize_candidate_hash codec text = Some h)"
proof (cases rule: parse_post_response_cases [of codec response endpoint digest])
  case (ambiguous d)
  then show ?thesis
    by (auto simp: parse_post_response_decoded transaction_outcome_accepted [THEN iffD2])
next
  case (decoded parsed)
  then show ?thesis
    by (auto simp: transaction_outcome_accepted decoded_def)
qed

lemma parse_post_response_rejected:
  "(\<exists>kind d. parse_post_response codec response endpoint digest = PostRejected kind d) \<longleftrightarrow>
     (\<exists>parsed. http_status response = 422 \<and> decoded codec digest response parsed
        \<and> result_code parsed \<noteq> 0
        \<and> (result_tx_hash parsed \<in> {None, Some []}
            \<or> (\<exists>text h. result_tx_hash parsed = Some text \<and> normalize_candidate_hash codec text = Some h)))"
  (is "_ \<longleftrightarrow> ?rejected")
proof (cases rule: parse_post_response_cases [of codec response endpoint digest])
  case (ambiguous d)
  have "\<not> (\<exists>kind d. transaction_outcome codec 422 parsed = PostRejected kind d)"
    if "http_status response = 422" "decoded codec digest response parsed" for parsed
    using that ambiguous parse_post_response_decoded [OF that(2)] by auto
  then have "\<not> ?rejected"
    unfolding transaction_outcome_rejected [of codec 422] by blast
  then show ?thesis
    using ambiguous by simp
next
  case (decoded parsed)
  then show ?thesis
    using transaction_outcome_rejected [of codec "http_status response"]
    by (auto simp: decoded_def)
qed

text \<open>What the transport is asked for one POST, when the request is well sized and addressed.\<close>

definition post_answer ::
  "ChainProtocolClient \<Rightarrow> post_transport \<Rightarrow> unicode option \<Rightarrow> nat \<Rightarrow> unicode \<Rightarrow> bytes \<Rightarrow> TransportAnswer option" where
  "post_answer client transport token i endpoint body =
     (if length body \<le> MAX_CHAIN_HTTP_REQUEST_BYTES \<and> i < length (client_endpoints client)
      then Some (transport (post_request client (client_endpoints client ! i) endpoint token) body)
      else None)"

lemma chain_post_answer:
  "(\<exists>d. post_answer client transport token i endpoint body = None
      \<and> chain_post codec client transport token i endpoint body digest = PostLocalFailure d \<and> wf_diagnostic d)
   \<or> (\<exists>answer. post_answer client transport token i endpoint body = Some answer
      \<and> chain_post codec client transport token i endpoint body digest
          = post_outcome codec endpoint digest token answer)"
  by (auto simp: chain_post_def post_answer_def)

lemma post_outcome_accepted:
  "post_outcome codec endpoint digest token answer = PostAccepted h \<longleftrightarrow>
     (\<exists>response parsed text. answer = TransportResponse response
        \<and> http_status response = 200 \<and> decoded codec digest response parsed
        \<and> result_code parsed = 0 \<and> result_tx_hash parsed = Some text
        \<and> normalize_candidate_hash codec text = Some h)"
  by (auto simp: post_outcome_def parse_post_response_accepted is_not_dispatched_def
      split: TransportAnswer.splits option.splits)

lemma post_outcome_rejected:
  "(\<exists>kind d. post_outcome codec endpoint digest token answer = PostRejected kind d) \<longleftrightarrow>
     (\<exists>response parsed. answer = TransportResponse response
        \<and> http_status response = 422 \<and> decoded codec digest response parsed
        \<and> result_code parsed \<noteq> 0
        \<and> (result_tx_hash parsed \<in> {None, Some []}
            \<or> (\<exists>text h. result_tx_hash parsed = Some text \<and> normalize_candidate_hash codec text = Some h)))"
  using parse_post_response_rejected [of codec _ endpoint digest]
  by (auto simp: post_outcome_def is_not_dispatched_def split: TransportAnswer.splits option.splits)

lemma post_outcome_not_dispatched:
  "post_outcome codec endpoint digest token answer = PostNotDispatchedByServer \<longleftrightarrow>
     (\<exists>response attempt receipt. answer = TransportResponse response
        \<and> validate_json_response response = Inr () \<and> http_status response = 408
        \<and> token = Some attempt \<and> decode_receipt codec (http_body response) = Some receipt
        \<and> receipt = \<lparr>receipt_version = 1, receipt_code = lit ''request_body_timeout'',
                     receipt_dispatch = lit ''not_started'', receipt_attempt = attempt\<rparr>)"
  by (auto simp: post_outcome_def is_not_dispatched_def parse_post_response_certain
      split: TransportAnswer.splits option.splits)

lemma post_outcome_unsent:
  "(\<exists>m. post_outcome codec endpoint digest token answer = PostDefinitelyUnsent m) \<longleftrightarrow>
     answer = TransportTimedOut False
     \<or> (\<exists>e. answer = TransportError e \<and> transport_kind e = DefinitelyUnsent)"
  by (auto simp: post_outcome_def parse_post_response_certain split: TransportAnswer.splits)

lemma post_outcome_local:
  "post_outcome codec endpoint digest token answer \<noteq> PostLocalFailure d"
  by (auto simp: post_outcome_def parse_post_response_certain split: TransportAnswer.splits)

text \<open>
  C21.  The certainty of a POST is exactly its evidence.  It counts as accepted only for a JSON
  answer with status 200, code 0, the expected batch digest and a canonical hash, which is the hash
  reported; as rejected only for status 422 with a nonzero code and no malformed hash; as not
  dispatched by the server only for a complete version 1 receipt that names the token of this very
  attempt; as unsent only when the transport says so or timed out with a clear dispatch marker; and
  as a local failure only when the transport was never called.  Every other answer leaves it
  possibly dispatched.
\<close>

theorem post_certainty_exact:
  fixes codec :: "'ev protocol_codec"
  shows "(chain_post codec client transport token i endpoint body digest = PostAccepted h \<longleftrightarrow>
     (\<exists>response parsed text.
        post_answer client transport token i endpoint body = Some (TransportResponse response)
        \<and> http_status response = 200 \<and> decoded codec digest response parsed
        \<and> result_code parsed = 0 \<and> result_tx_hash parsed = Some text
        \<and> normalize_candidate_hash codec text = Some h))
   \<and> ((\<exists>kind d. chain_post codec client transport token i endpoint body digest = PostRejected kind d) \<longleftrightarrow>
     (\<exists>response parsed.
        post_answer client transport token i endpoint body = Some (TransportResponse response)
        \<and> http_status response = 422 \<and> decoded codec digest response parsed \<and> result_code parsed \<noteq> 0
        \<and> (result_tx_hash parsed \<in> {None, Some []}
            \<or> (\<exists>text h. result_tx_hash parsed = Some text \<and> normalize_candidate_hash codec text = Some h))))
   \<and> (chain_post codec client transport token i endpoint body digest = PostNotDispatchedByServer \<longleftrightarrow>
     (\<exists>response attempt receipt.
        post_answer client transport token i endpoint body = Some (TransportResponse response)
        \<and> validate_json_response response = Inr () \<and> http_status response = 408
        \<and> token = Some attempt \<and> decode_receipt codec (http_body response) = Some receipt
        \<and> receipt = \<lparr>receipt_version = 1, receipt_code = lit ''request_body_timeout'',
                     receipt_dispatch = lit ''not_started'', receipt_attempt = attempt\<rparr>))
   \<and> ((\<exists>m. chain_post codec client transport token i endpoint body digest = PostDefinitelyUnsent m) \<longleftrightarrow>
     post_answer client transport token i endpoint body = Some (TransportTimedOut False)
     \<or> (\<exists>e. post_answer client transport token i endpoint body = Some (TransportError e)
            \<and> transport_kind e = DefinitelyUnsent))
   \<and> ((\<exists>d. chain_post codec client transport token i endpoint body digest = PostLocalFailure d) \<longleftrightarrow>
     post_answer client transport token i endpoint body = None)"
  using chain_post_answer [of client transport token i endpoint body codec digest]
  by (elim disjE exE conjE)
    (simp_all add: post_outcome_accepted post_outcome_rejected post_outcome_not_dispatched
      post_outcome_unsent post_outcome_local)

section \<open>Status lookup\<close>

fun is_pending :: "'a + 'b TransactionStatusObservation \<Rightarrow> bool" where
  "is_pending (Inr StatusPending) = True"
| "is_pending _ = False"

fun is_committed :: "'a + 'b TransactionStatusObservation \<Rightarrow> bool" where
  "is_committed (Inl _) = False"
| "is_committed (Inr StatusPending) = False"
| "is_committed _ = True"

text \<open>
  The specification of the lookup: the first committed answer decides, a pending answer outranks
  failures, and otherwise the last failure is reported.
\<close>

definition combined_status ::
  "LookupFailure \<Rightarrow> (LookupFailure + 'ev TransactionStatusObservation) list
   \<Rightarrow> LookupFailure + 'ev TransactionStatusObservation" where
  "combined_status none answers =
     (case find is_committed answers of
        Some committed \<Rightarrow> committed
      | None \<Rightarrow> if list_ex is_pending answers then Inr StatusPending
                else if answers = [] then Inl none else last answers)"

lemma transaction_status_from_combined:
  "transaction_status_from codec pending last_failure answers =
     (case find is_committed (map (lookup_answer codec) answers) of
        Some committed \<Rightarrow> committed
      | None \<Rightarrow>
          if pending \<or> list_ex is_pending (map (lookup_answer codec) answers) then Inr StatusPending
          else if answers = [] then
            Inl (case last_failure of Some f \<Rightarrow> f | None \<Rightarrow> LookupProtocol (invalid_protocol
              (lit ''vote-chain lookup produced no endpoint result'')))
          else last (map (lookup_answer codec) answers))"
proof (induction answers arbitrary: pending last_failure)
  case (Cons answer answers)
  show ?case
    by (cases "lookup_answer codec answer" rule: is_committed.cases)
      (auto simp: Cons.IH split: option.splits)
qed simp

text \<open>
  A status lookup combines the endpoints' answers as specified: the first endpoint in order
  that reports the transaction committed decides the result, a pending report outranks every
  failure, and only when every endpoint failed is the last failure returned.
\<close>

theorem transaction_status_exact:
  "transaction_status codec client transport h =
     combined_status
       (LookupProtocol (invalid_protocol (lit ''vote-chain lookup produced no endpoint result'')))
       (map (\<lambda>base_url. lookup_answer codec (transport (chain_request
               (join_chain_url base_url [lit ''tx'', hex_encode codec h]) False
               (lookup_timeout (client_timing client)))))
          (client_endpoints client))"
  by (simp add: transaction_status_def transaction_status_from_combined combined_status_def o_def
      split: option.splits)

section \<open>The coordinator's assumptions\<close>

definition lookup_progress ::
  "LookupFailure + 'ev TransactionStatusObservation \<Rightarrow> 'ev LookupProgress" where
  "lookup_progress status =
     (case status of Inl failure \<Rightarrow> LookupFailed failure | Inr observation \<Rightarrow> LookupObserved observation)"

lemma wf_post_outcome: "wf_outcome (post_outcome codec endpoint digest token answer)"
  by (simp add: post_outcome_def wf_parse_post_response split: TransportAnswer.split)

lemma wf_chain_post: "wf_outcome (chain_post codec client transport token i endpoint body digest)"
  by (simp add: chain_post_def wf_post_outcome)

lemma wf_submit_serialized:
  "wf_outcome (submit_serialized codec client transport token i noun endpoint serialized digest)"
  by (simp add: submit_serialized_def wf_chain_post split: sum.split)

lemmas submit_defs = submit_delegation_with_dispatch_def submit_vote_with_dispatch_def
  submit_vote_batch_with_dispatch_def submit_delegate_and_vote_batch_with_dispatch_def

lemma wf_parse_status_response:
  "parse_status_response codec response = Inl d \<Longrightarrow> wf_diagnostic d"
  by (auto simp: parse_status_response_def and_then_def ok_or_def Let_def dest: wf_route_answer
      split: sum.splits option.splits if_splits)

lemma wf_lookup_answer: "wf_progress (lookup_progress (lookup_answer codec answer))"
  by (auto simp: lookup_answer_def lookup_progress_def map_err_def dest: wf_parse_status_response
      split: TransportAnswer.split sum.split)

lemma wf_transaction_status_from:
  "(\<forall>f. last_failure = Some f \<longrightarrow> wf_progress (LookupFailed f :: 'ev CommittedTransaction LookupProgress))
   \<Longrightarrow> wf_progress (lookup_progress (transaction_status_from (codec :: 'ev protocol_codec) pending last_failure answers))"
proof (induction answers arbitrary: pending last_failure)
  case Nil
  then show ?case
    by (auto simp: lookup_progress_def split: option.split)
next
  case (Cons answer answers)
  show ?case
    using Cons.prems Cons.IH wf_lookup_answer [of codec answer]
    by (cases "lookup_answer codec answer" rule: is_committed.cases) (auto simp: lookup_progress_def)
qed


section \<open>Endpoint sets\<close>

lemma canonical_endpoints_exact:
  "distinct known \<Longrightarrow> canonical_endpoints lib net known endpoints = Inr result \<longleftrightarrow>
     (\<exists>fresh. result = known @ fresh \<and> distinct result
        \<and> map (\<lambda>e. canonicalize_chain_base_url lib e net) endpoints = map Inr fresh)"
proof (induction endpoints arbitrary: known)
  case (Cons endpoint endpoints)
  show ?case
  proof (cases "canonicalize_chain_base_url lib endpoint net")
    case (Inr e)
    show ?thesis
    proof (cases "e \<in> set known")
      case False
      then have "distinct (known @ [e])"
        using Cons.prems by simp
      from Cons.IH [OF this] show ?thesis
        using False Inr by (auto simp: and_then_def Cons_eq_map_conv)
    qed (use Inr in \<open>auto simp: and_then_def\<close>)
  qed (auto simp: and_then_def)
qed auto

text \<open>
  A client is built exactly for a valid timing and between one and a hundred endpoints that
  all canonicalize, to pairwise different URLs; its endpoints are those URLs in the given order.
\<close>

theorem endpoint_set_exact:
  "with_timing lib net endpoints timing = Inr client \<longleftrightarrow>
     timing_new (post_timeout timing) (lookup_timeout timing) = Inr timing
     \<and> 1 \<le> length endpoints \<and> length endpoints \<le> 100
     \<and> map (\<lambda>e. canonicalize_chain_base_url lib e net) endpoints = map Inr (client_endpoints client)
     \<and> distinct (client_endpoints client) \<and> client_timing client = timing"
proof -
  have timing: "(\<exists>t. timing_new (post_timeout timing) (lookup_timeout timing) = Inr t)
      \<longleftrightarrow> timing_new (post_timeout timing) (lookup_timeout timing) = Inr timing"
    by (simp add: timing_new_def)
  show ?thesis
    using timing canonical_endpoints_exact [of "[]" lib net endpoints "client_endpoints client"]
    by (cases client) (auto simp: with_timing_def and_then_def MAX_CHAIN_ENDPOINTS_def Suc_le_eq
        split: sum.splits)
qed

lemma hex_value_less: "hex_value c = Some v \<Longrightarrow> v < 16"
  by (auto simp: hex_value_def split: if_splits)

lemma hex_value_upper: "v < 16 \<Longrightarrow> hex_value (upper_hex v) = Some v"
  by (auto simp: hex_value_def upper_hex_def)

lemma unreserved_not_percent: "is_unreserved v \<Longrightarrow> v \<noteq> 37"
  by (auto simp: is_unreserved_def)

text \<open>
  Percent-escape normalization is idempotent: a normalized path is its own normal form, so
  two spellings of one path give one canonical endpoint.
\<close>

theorem normalize_percent_escapes_idem:
  assumes "normalize_percent_escapes s = Some t"
  shows "normalize_percent_escapes t = Some t"
  using assms
proof (induction s arbitrary: t rule: normalize_percent_escapes.induct)
  case (2 c s)
  show ?case
  proof (cases "c = 37")
    case True
    obtain h l rest high low u where s: "s = h # l # rest" "hex_value h = Some high"
        "hex_value l = Some low" "normalize_percent_escapes rest = Some u"
      and t: "t = (if is_unreserved (high * 16 + low) then [high * 16 + low]
                   else [37, upper_hex high, upper_hex low]) @ u"
      using 2(3) True by (auto simp: Let_def split: list.splits option.splits)
    have "normalize_percent_escapes u = Some u"
      using 2(2) True s by (simp add: Let_def)
    then show ?thesis
      using s t hex_value_less unreserved_not_percent [of "high * 16 + low"]
      by (auto simp: hex_value_upper Let_def)
  qed (use 2 in auto)
qed simp

theorem normalize_percent_escapes_idem_witness:
  "normalize_percent_escapes (lit ''/%7euser/%2fa'') = Some (lit ''/~user/%2Fa'')
   \<and> normalize_percent_escapes (lit ''/~user/%2Fa'') = Some (lit ''/~user/%2Fa'')"
proof
  show *: "normalize_percent_escapes (lit ''/%7euser/%2fa'') = Some (lit ''/~user/%2Fa'')"
    by (simp add: lit_def hex_value_def upper_hex_def is_unreserved_def)
  show "normalize_percent_escapes (lit ''/~user/%2Fa'') = Some (lit ''/~user/%2Fa'')"
    by (rule normalize_percent_escapes_idem [OF *])
qed

end
