(* ===== verification/Submission_Confirmation.thy ===== *)
theory Submission_Confirmation
  imports Submission_Store Http_Text
begin

text \<open>
  The validation of committed transaction events against a locked generation
  (\<open>chain_submission/confirmation.rs\<close>): finding the one event of the round, reading its
  attributes, and the checks that tie a delegation, vote or batch event to the generation whose
  confirmation it is taken for.

  The base64 and hex libraries and the \<open>Debug\<close> rendering of strings, which reads Unicode tables,
  are the record \<open>event_codec\<close>.  The texts carried by errors are those of \<open>Display\<close>.
\<close>

section \<open>Events\<close>

record TxEventAttribute =
  attr_key :: unicode
  attr_value :: unicode

record TxEvent =
  event_type :: unicode
  event_attributes :: "TxEventAttribute list"

record event_codec =
  base64_encode :: "bytes \<Rightarrow> unicode"
  base64_decode :: "bytes \<Rightarrow> bytes option"
  hex_encode :: "bytes \<Rightarrow> unicode"
  hex_decode :: "unicode \<Rightarrow> bytes option"
  debug_text :: "unicode \<Rightarrow> unicode"

definition invalid_input :: "unicode \<Rightarrow> VotingError" where
  "invalid_input message = VotingInvalidInput (lit ''Invalid input: '' @ message)"

definition internal_error :: "unicode \<Rightarrow> VotingError" where
  "internal_error message = VotingOtherError (lit ''Internal error: '' @ message)"

text \<open>\<open>Iterator::collect\<close> into a \<open>Result\<close>: the values, or the first error.\<close>

fun collect_results :: "('a \<Rightarrow> 'e + 'b) \<Rightarrow> 'a list \<Rightarrow> 'e + 'b list" where
  "collect_results f [] = Inr []"
| "collect_results f (x # xs) =
     and_then (f x) (\<lambda>y. and_then (collect_results f xs) (\<lambda>ys. Inr (y # ys)))"

section \<open>Attributes\<close>

definition round_id_matches :: "event_codec \<Rightarrow> unicode \<Rightarrow> unicode \<Rightarrow> bool" where
  "round_id_matches codec event_round_id expected_round_id \<longleftrightarrow>
     event_round_id = expected_round_id
     \<or> base64_encode codec (as_bytes event_round_id) = expected_round_id"

definition ROUND_ID_ATTRIBUTES :: "unicode list" where
  "ROUND_ID_ATTRIBUTES = [lit ''vote_round_id'', lit ''round_id'']"

definition round_values :: "TxEvent \<Rightarrow> unicode list" where
  "round_values event =
     map attr_value (filter (\<lambda>attribute. attr_key attribute \<in> set ROUND_ID_ATTRIBUTES)
       (event_attributes event))"

text \<open>
  One iteration over the events of the wanted type; the state is the matching event so far, the
  last foreign round seen and whether an event had no round.
\<close>

definition consider_event ::
  "event_codec \<Rightarrow> string \<Rightarrow> unicode \<Rightarrow> TxEvent option \<times> unicode option \<times> bool \<Rightarrow> TxEvent
   \<Rightarrow> VotingError + TxEvent option \<times> unicode option \<times> bool" where
  "consider_event codec ty round_id seen event =
     (case seen of (matching, wrong_round, missing_round) \<Rightarrow>
        if length (round_values event) > 1
        then Inl (invalid_input
          (lit ty @ lit '' event must contain exactly one round identity attribute''))
        else case round_values event of
            [] \<Rightarrow> Inr (matching, wrong_round, True)
          | v # _ \<Rightarrow>
              if round_id_matches codec v round_id
              then case matching of
                  Some _ \<Rightarrow> Inl (invalid_input (lit ''ambiguous '' @ lit ty
                    @ lit '' events for round '' @ round_id @ lit ''; expected one''))
                | None \<Rightarrow> Inr (Some event, wrong_round, missing_round)
              else Inr (matching, Some v, missing_round))"

definition required_event_for_round ::
  "event_codec \<Rightarrow> TxEvent list \<Rightarrow> string \<Rightarrow> unicode \<Rightarrow> VotingError + TxEvent" where
  "required_event_for_round codec events ty round_id =
     and_then (run_steps (consider_event codec ty round_id) (None, None, False)
                 (filter (\<lambda>event. event_type event = lit ty) events))
       (\<lambda>(matching, wrong_round, missing_round).
          ok_or (invalid_input
            (case wrong_round of
               Some v \<Rightarrow> lit ty @ lit '' round mismatch: expected '' @ round_id @ lit '', got '' @ v
             | None \<Rightarrow>
                 if missing_round then lit ty @ lit '' event is missing its round identity''
                 else lit ''missing '' @ lit ty @ lit '' event for round '' @ round_id))
            matching)"

definition attribute_values :: "TxEvent \<Rightarrow> string \<Rightarrow> unicode list" where
  "attribute_values event key =
     map attr_value (filter (\<lambda>attribute. attr_key attribute = lit key) (event_attributes event))"

definition required_attribute :: "TxEvent \<Rightarrow> string \<Rightarrow> string \<Rightarrow> VotingError + unicode" where
  "required_attribute event ty key =
     (case attribute_values event key of
        [v] \<Rightarrow> Inr v
      | [] \<Rightarrow> Inl (invalid_input
          (lit ''missing '' @ lit ty @ lit '' '' @ lit key @ lit '' in transaction events''))
      | _ \<Rightarrow> Inl (invalid_input (lit ''ambiguous '' @ lit ty @ lit '' '' @ lit key
          @ lit '' attributes in transaction events; expected one'')))"

section \<open>Values\<close>

definition parse_compat_u64 :: "event_codec \<Rightarrow> unicode \<Rightarrow> string \<Rightarrow> VotingError + u64" where
  "parse_compat_u64 codec raw field =
     (let raw = trim raw;
          refused = Inl (invalid_input (lit field
            @ lit '' must be an unsigned 64-bit integer, got '' @ debug_text codec raw)) in
      case parse_u64 raw of
        Some v \<Rightarrow> Inr (of_nat v)
      | None \<Rightarrow>
          if is_ascii raw then refused
          else case parse_u64 (base64_encode codec (as_bytes raw)) of
              Some v \<Rightarrow> Inr (of_nat v)
            | None \<Rightarrow> refused)"

definition parse_csv ::
  "unicode \<Rightarrow> string \<Rightarrow> (unicode \<Rightarrow> VotingError + 'a) \<Rightarrow> VotingError + 'a list" where
  "parse_csv raw field parse =
     (let pieces = map trim (split_on 44 raw) in
      if pieces = [] \<or> list_ex (\<lambda>piece. piece = []) pieces
      then Inl (invalid_input (lit field @ lit '' must be a nonempty comma-separated list''))
      else collect_results parse pieces)"

definition parse_csv_u64 :: "event_codec \<Rightarrow> unicode \<Rightarrow> VotingError + u64 list" where
  "parse_csv_u64 codec raw =
     parse_csv raw ''cast_vote_batch vote_commitment_leaf_indices''
       (\<lambda>piece. parse_compat_u64 codec piece ''cast_vote_batch position'')"

definition parse_csv_u32 :: "event_codec \<Rightarrow> unicode \<Rightarrow> VotingError + u32 list" where
  "parse_csv_u32 codec raw =
     parse_csv raw ''cast_vote_batch proposal_ids'' (\<lambda>piece.
       and_then (parse_compat_u64 codec piece ''cast_vote_batch proposal id'') (\<lambda>proposal_id.
       if unat proposal_id < 2 ^ 32 then Inr (of_nat (unat proposal_id))
       else Inl (invalid_input (lit ''cast_vote_batch proposal id does not fit u32''))))"

definition parse_canonical_hex32 :: "event_codec \<Rightarrow> unicode \<Rightarrow> string \<Rightarrow> VotingError + bytes" where
  "parse_canonical_hex32 codec raw field =
     (let refused = invalid_input (lit field @ lit '' must be 32-byte canonical lowercase hex'') in
      if length (as_bytes raw) \<noteq> 64 \<or> \<not> list_all canonical_hex_byte (as_bytes raw)
      then Inl refused
      else and_then (ok_or refused (hex_decode codec raw)) (\<lambda>decoded_bytes.
        if length decoded_bytes = 32 then Inr decoded_bytes else Inl refused))"

definition parse_csv_strings :: "event_codec \<Rightarrow> unicode \<Rightarrow> VotingError + unicode list" where
  "parse_csv_strings codec raw =
     parse_csv raw ''cast_vote_batch van_nullifiers'' (\<lambda>piece.
       and_then (parse_canonical_hex32 codec piece ''cast_vote_batch VAN nullifier'') (\<lambda>_.
       Inr piece))"

definition confirmation_error :: "ChainSubmissionConfirmationError \<Rightarrow> VotingError" where
  "confirmation_error e =
     invalid_input (lit ''chain tree positions must be below the commitment-tree capacity'')"

section \<open>Confirmations\<close>

text \<open>
  \<open>None\<close> is the \<open>unreachable!\<close> of the code: a batch layout whose request is not a batch.
\<close>

fun batch_votes :: "ChainSubmissionRequest \<Rightarrow> bytes list option" where
  "batch_votes (VoteBatchRequest body nullifiers) = Some nullifiers"
| "batch_votes (DelegateAndVoteBatchRequest body nullifiers gov) = Some nullifiers"
| "batch_votes _ = None"

datatype ConfirmationRefusal = ConfirmationPanic | ConfirmationRefused VotingError

definition refusing :: "VotingError + 'a \<Rightarrow> ConfirmationRefusal + 'a" where
  "refusing r = map_err ConfirmationRefused r"

definition expected_nullifiers :: "event_codec \<Rightarrow> bytes list \<Rightarrow> VotingError + unicode list" where
  "expected_nullifiers codec votes =
     collect_results (\<lambda>van_nullifier.
       and_then (ok_or (internal_error (lit ''derived batch nullifier is not canonical base64''))
                   (base64_decode codec van_nullifier)) (\<lambda>decoded_bytes.
       if length decoded_bytes \<noteq> 32
       then Inl (internal_error (lit ''derived batch nullifier has invalid length''))
       else Inr (hex_encode codec decoded_bytes))) votes"

definition check_nullifier_count ::
  "event_codec \<Rightarrow> TxEvent \<Rightarrow> string \<Rightarrow> ChainSubmissionRequest \<Rightarrow> VotingError + unit" where
  "check_nullifier_count codec event batch_event request =
     (case request of
        DelegateAndVoteBatchRequest body nullifiers gov \<Rightarrow>
          and_then (required_attribute event batch_event ''nullifier_count'') (\<lambda>raw.
          and_then (parse_compat_u64 codec raw ''combined delegation nullifier count'') (\<lambda>reported.
          if unat reported \<noteq> gov
          then Inl (invalid_input
            (lit ''combined delegation nullifier count does not match the locked generation''))
          else Inr ()))
      | _ \<Rightarrow> Inr ())"

definition adjacent_positions :: "u64 \<Rightarrow> u64 list \<Rightarrow> bool" where
  "adjacent_positions van positions \<longleftrightarrow>
     \<not> list_ex (\<lambda>(index, position).
         unat van + (index + 1) \<ge> 2 ^ 64 \<or> unat position \<noteq> unat van + (index + 1))
       (enumerate 0 positions)"

text \<open>The checks of a batch event up to its actions, before the positions are read.\<close>

definition check_batch_event ::
  "event_codec \<Rightarrow> TxEvent \<Rightarrow> string \<Rightarrow> DerivedChainSubmission \<Rightarrow> bytes \<Rightarrow> nat
   \<Rightarrow> VotingError + unit" where
  "check_batch_event codec event batch_event derived digest commitment_count =
     and_then (check_nullifier_count codec event batch_event (wire_request derived)) (\<lambda>_.
     and_then (required_attribute event batch_event ''batch_digest'') (\<lambda>raw.
     and_then (parse_canonical_hex32 codec raw ''cast_vote_batch batch_digest'') (\<lambda>event_digest.
     and_then (ensure (event_digest = digest) (invalid_input
       (lit ''cast_vote_batch digest does not match the locked generation''))) (\<lambda>_.
     and_then (required_attribute event batch_event ''batch_size'') (\<lambda>raw.
     and_then (parse_compat_u64 codec raw ''cast_vote_batch batch_size'') (\<lambda>batch_size.
     and_then (ensure (unat batch_size \<noteq> 0 \<and> unat batch_size \<le> MAX_VOTE_BATCH_ACTIONS
         \<and> unat batch_size = commitment_count) (invalid_input
       (lit ''cast_vote_batch size does not match the locked generation''))) (\<lambda>_.
     and_then (required_attribute event batch_event ''proposal_ids'') (\<lambda>raw.
     and_then (parse_csv_u32 codec raw) (\<lambda>proposal_ids.
     ensure (proposal_ids = ordered_proposal_ids (bound derived)) (invalid_input
       (lit ''cast_vote_batch proposal order does not match the locked generation'')))))))))))"

definition check_batch_nullifiers ::
  "event_codec \<Rightarrow> TxEvent \<Rightarrow> string \<Rightarrow> bytes list \<Rightarrow> VotingError + unit" where
  "check_batch_nullifiers codec event batch_event votes =
     and_then (expected_nullifiers codec votes) (\<lambda>wanted.
     and_then (required_attribute event batch_event ''van_nullifiers'') (\<lambda>raw.
     and_then (parse_csv_strings codec raw) (\<lambda>event_nullifiers.
     ensure (event_nullifiers = wanted) (invalid_input
       (lit ''cast_vote_batch nullifier order does not match the locked generation'')))))"

definition read_batch_positions ::
  "event_codec \<Rightarrow> TxEvent \<Rightarrow> string \<Rightarrow> nat \<Rightarrow> VotingError + u64 \<times> u64 list" where
  "read_batch_positions codec event batch_event batch_size =
     and_then (required_attribute event batch_event ''final_van_leaf_index'') (\<lambda>raw.
     and_then (parse_compat_u64 codec raw ''cast_vote_batch final VAN position'') (\<lambda>van.
     and_then (required_attribute event batch_event ''vote_commitment_leaf_indices'') (\<lambda>raw.
     and_then (parse_csv_u64 codec raw) (\<lambda>positions.
     if length positions \<noteq> batch_size \<or> \<not> adjacent_positions van positions
     then Inl (invalid_input
       (lit ''cast_vote_batch positions must be the complete adjacent action layout''))
     else Inr (van, positions)))))"

definition validate_batch_confirmation ::
  "event_codec \<Rightarrow> DerivedChainSubmission \<Rightarrow> CandidateTransactionHash \<Rightarrow> TxEvent list \<Rightarrow> unicode
   \<Rightarrow> bytes \<Rightarrow> nat \<Rightarrow> ConfirmationRefusal + ValidatedChainSubmissionConfirmation" where
  "validate_batch_confirmation codec derived transaction_hash events round_id digest commitment_count =
     (let batch_event = (if is_combined (target (gen_identity (derived_generation derived)))
                         then ''delegate_and_cast_vote_batch'' else ''cast_vote_batch'') in
      and_then (refusing (required_event_for_round codec events batch_event round_id)) (\<lambda>event.
      and_then (refusing (check_batch_event codec event batch_event derived digest commitment_count)) (\<lambda>_.
      and_then (ok_or ConfirmationPanic (batch_votes (wire_request derived))) (\<lambda>votes.
      and_then (refusing (check_batch_nullifiers codec event batch_event votes)) (\<lambda>_.
      and_then (refusing (read_batch_positions codec event batch_event commitment_count))
        (\<lambda>(van, positions).
      refusing (map_err confirmation_error
        (confirmation_from_hash transaction_hash van positions))))))))"

definition validate_delegation_confirmation ::
  "event_codec \<Rightarrow> CandidateTransactionHash \<Rightarrow> TxEvent list \<Rightarrow> unicode
   \<Rightarrow> VotingError + ValidatedChainSubmissionConfirmation" where
  "validate_delegation_confirmation codec transaction_hash events round_id =
     and_then (required_event_for_round codec events ''delegate_vote'' round_id) (\<lambda>event.
     and_then (required_attribute event ''delegate_vote'' ''leaf_index'') (\<lambda>raw.
     and_then (parse_compat_u64 codec raw ''delegate_vote leaf_index'') (\<lambda>van.
     map_err confirmation_error (confirmation_from_hash transaction_hash van []))))"

definition validate_vote_confirmation ::
  "event_codec \<Rightarrow> CandidateTransactionHash \<Rightarrow> TxEvent list \<Rightarrow> unicode
   \<Rightarrow> VotingError + ValidatedChainSubmissionConfirmation" where
  "validate_vote_confirmation codec transaction_hash events round_id =
     and_then (required_event_for_round codec events ''cast_vote'' round_id) (\<lambda>event.
     and_then (required_attribute event ''cast_vote'' ''leaf_index'') (\<lambda>raw.
     let positions = map trim (split_on 44 raw) in
     if length positions \<noteq> 2
     then Inl (invalid_input
       (lit ''cast_vote leaf_index must contain VAN and vote-commitment positions''))
     else
       and_then (parse_compat_u64 codec (positions ! 0) ''cast_vote VAN position'') (\<lambda>van.
       and_then (parse_compat_u64 codec (positions ! 1) ''cast_vote commitment position'') (\<lambda>vc.
       map_err confirmation_error (confirmation_from_hash transaction_hash van [vc])))))"

definition validate_hash_confirmation ::
  "event_codec \<Rightarrow> DerivedChainSubmission \<Rightarrow> CandidateTransactionHash \<Rightarrow> TxEvent list
   \<Rightarrow> ConfirmationRefusal + ValidatedChainSubmissionConfirmation" where
  "validate_hash_confirmation codec derived transaction_hash events =
     (let i = gen_identity (derived_generation derived);
          round_id = hex_encode codec (vote_round_id i) in
      case (target i, expected_layout (bound derived)) of
        (Delegation, DelegationLayout _) \<Rightarrow>
          refusing (validate_delegation_confirmation codec transaction_hash events round_id)
      | (Vote _, VoteLayout _ _) \<Rightarrow>
          refusing (validate_vote_confirmation codec transaction_hash events round_id)
      | (VoteBatch digest, VoteBatchLayout _ commitments) \<Rightarrow>
          validate_batch_confirmation codec derived transaction_hash events round_id digest
            (length commitments)
      | (DelegateAndVoteBatch digest, VoteBatchLayout _ commitments) \<Rightarrow>
          validate_batch_confirmation codec derived transaction_hash events round_id digest
            (length commitments)
      | _ \<Rightarrow> Inl (ConfirmationRefused (internal_error
          (lit ''chain submission identity and expected layout disagree''))))"

definition validate_imported_delegation_confirmation ::
  "event_codec \<Rightarrow> BoundGeneration \<Rightarrow> CandidateTransactionHash \<Rightarrow> TxEvent list
   \<Rightarrow> VotingError + ValidatedChainSubmissionConfirmation" where
  "validate_imported_delegation_confirmation codec locked transaction_hash events =
     (case (target (gen_identity (generation locked)), expected_layout locked) of
        (Delegation, DelegationLayout _) \<Rightarrow>
          validate_delegation_confirmation codec transaction_hash events
            (hex_encode codec (vote_round_id (gen_identity (generation locked))))
      | _ \<Rightarrow> Inl (invalid_input
          (lit ''imported delegation confirmation has an invalid generation layout'')))"

end
