(* ===== verification/Submission_Confirmation_Exact.thy ===== *)
theory Submission_Confirmation_Exact
  imports Submission_Confirmation Submission_Store_Safety
begin

text \<open>
  What a validated hash confirmation says about the events it was read from, and that the events
  the chain emits for a generation are accepted.
\<close>

section \<open>The event of a round\<close>

definition claims_round :: "event_codec \<Rightarrow> unicode \<Rightarrow> TxEvent \<Rightarrow> bool" where
  "claims_round codec round_id event \<longleftrightarrow> list_ex (\<lambda>v. round_id_matches codec v round_id) (round_values event)"

lemma consider_event_ok:
  "consider_event codec ty round_id (m, w, b) event = Inr (m', w', b') \<Longrightarrow>
     length (round_values event) \<le> 1
     \<and> (if claims_round codec round_id event then m = None \<and> m' = Some event else m' = m)"
  by (cases "round_values event")
    (auto simp add: consider_event_def claims_round_def split: option.splits if_splits list.splits)

lemma consider_event_accepts:
  assumes "length (round_values event) \<le> 1" "claims_round codec round_id event \<Longrightarrow> m = None"
  shows "\<exists>w' b'. consider_event codec ty round_id (m, w, b) event
           = Inr (if claims_round codec round_id event then Some event else m, w', b')"
  using assms
  by (cases "round_values event")
    (auto simp add: consider_event_def claims_round_def split: option.splits)

lemma consider_events_ok:
  "run_steps (consider_event codec ty round_id) (m, w, b) es = Inr (m', w', b') \<Longrightarrow>
     (\<forall>e \<in> set es. length (round_values e) \<le> 1)
     \<and> (case m of
          None \<Rightarrow> filter (claims_round codec round_id) es = (case m' of None \<Rightarrow> [] | Some e \<Rightarrow> [e])
        | Some e \<Rightarrow> m' = m \<and> filter (claims_round codec round_id) es = [])"
proof (induction es arbitrary: m w b)
  case Nil
  then show ?case
    by (cases m) auto
next
  case (Cons e es)
  then obtain m1 w1 b1 where step: "consider_event codec ty round_id (m, w, b) e = Inr (m1, w1, b1)"
    and rest: "run_steps (consider_event codec ty round_id) (m1, w1, b1) es = Inr (m', w', b')"
    by (auto simp add: and_then_def split: sum.splits)
  from Cons.IH [OF rest] consider_event_ok [OF step] show ?case
    by (cases m; cases m1) (auto split: if_splits)
qed

lemma consider_events_accept:
  assumes "\<forall>e \<in> set es. length (round_values e) \<le> 1"
    and "filter (claims_round codec round_id) es = (case m of None \<Rightarrow> [event] | Some e \<Rightarrow> [])"
  shows "\<exists>w' b'. run_steps (consider_event codec ty round_id) (m, w, b) es
           = Inr (case m of None \<Rightarrow> Some event | Some e \<Rightarrow> m, w', b')"
  using assms
proof (induction es arbitrary: m w b)
  case Nil
  then show ?case
    by (cases m) auto
next
  case (Cons e es)
  then obtain w1 b1 where step: "consider_event codec ty round_id (m, w, b) e
      = Inr (if claims_round codec round_id e then Some e else m, w1, b1)"
    using consider_event_accepts [of e codec round_id m ty w b] by (cases m) (auto split: if_splits)
  from Cons.IH [of "if claims_round codec round_id e then Some e else m" w1 b1] Cons.prems step
  show ?case
    by (cases m) (auto split: if_splits)
qed

text \<open>
  The event taken is the only one of its type that names the round, and no event of that type
  names two rounds.
\<close>

lemma required_event_iff:
  "required_event_for_round codec events ty round_id = Inr event \<longleftrightarrow>
     (let typed = filter (\<lambda>e. event_type e = lit ty) events in
      (\<forall>e \<in> set typed. length (round_values e) \<le> 1)
      \<and> filter (claims_round codec round_id) typed = [event])"
proof
  assume "required_event_for_round codec events ty round_id = Inr event"
  then obtain w b where "run_steps (consider_event codec ty round_id) (None, None, False)
      (filter (\<lambda>e. event_type e = lit ty) events) = Inr (Some event, w, b)"
    by (auto simp add: required_event_for_round_def and_then_def ok_or_def split: sum.splits option.splits)
  from consider_events_ok [OF this]
  show "let typed = filter (\<lambda>e. event_type e = lit ty) events in
      (\<forall>e \<in> set typed. length (round_values e) \<le> 1)
      \<and> filter (claims_round codec round_id) typed = [event]"
    by (simp add: Let_def)
next
  assume "let typed = filter (\<lambda>e. event_type e = lit ty) events in
      (\<forall>e \<in> set typed. length (round_values e) \<le> 1)
      \<and> filter (claims_round codec round_id) typed = [event]"
  then have single: "\<forall>e \<in> set (filter (\<lambda>e. event_type e = lit ty) events). length (round_values e) \<le> 1"
    and unique: "filter (claims_round codec round_id) (filter (\<lambda>e. event_type e = lit ty) events)
        = (case None of None \<Rightarrow> [event] | Some e \<Rightarrow> [])"
    by (simp_all add: Let_def)
  obtain w b where "run_steps (consider_event codec ty round_id) (None, None, False)
      (filter (\<lambda>e. event_type e = lit ty) events) = Inr (Some event, w, b)"
    using consider_events_accept [OF single unique, where w = None and b = False and ty = ty] by auto
  then show "required_event_for_round codec events ty round_id = Inr event"
    by (simp add: required_event_for_round_def ok_or_def)
qed

lemma required_attribute_iff:
  "required_attribute event ty key = Inr v \<longleftrightarrow> attribute_values event key = [v]"
  by (auto simp add: required_attribute_def split: list.splits)

section \<open>Soundness\<close>

lemma refusing_ok [simp]: "refusing r = Inr x \<longleftrightarrow> r = Inr x"
  by (cases r) (simp_all add: refusing_def map_err_def)

lemma adjacent_positions_iff:
  "adjacent_positions van positions \<longleftrightarrow>
     (\<forall>k < length positions. unat (positions ! k) = unat van + (k + 1))"
proof -
  have "adjacent_positions van positions \<longleftrightarrow>
     (\<forall>k < length positions. unat van + (k + 1) < 2 ^ 64 \<and> unat (positions ! k) = unat van + (k + 1))"
    by (force simp add: adjacent_positions_def list_ex_iff in_set_enumerate_eq not_le)
  moreover have "unat (p :: u64) < 2 ^ 64" for p
    using unsigned_less [of p] by simp
  ultimately show ?thesis
    by metis
qed

text \<open>The event type the chain reports for a target.\<close>

fun reported_event :: "ChainSubmissionTarget \<Rightarrow> string" where
  "reported_event Delegation = ''delegate_vote''"
| "reported_event (Vote _) = ''cast_vote''"
| "reported_event (VoteBatch _) = ''cast_vote_batch''"
| "reported_event (DelegateAndVoteBatch _) = ''delegate_and_cast_vote_batch''"

lemma from_hash_ok:
  "confirmation_from_hash h van vcs = Inr c \<longleftrightarrow>
     van < TREE_CAPACITY \<and> list_all (\<lambda>p. p < TREE_CAPACITY) vcs
     \<and> c = ValidatedHash \<lparr>conf_source = SourceHash, conf_transaction_hash = Some h,
              final_van_position = van, vote_commitment_positions = vcs\<rparr>"
  by (auto simp add: confirmation_from_hash_def validate_tree_positions_def list_all_iff list_ex_iff
      not_le dest: leD split: if_splits)

lemma required_event_unique:
  assumes "required_event_for_round codec events ty round_id = Inr event"
  shows "filter (\<lambda>e. event_type e = lit ty \<and> claims_round codec round_id e) events = [event]"
  using assms by (simp add: required_event_iff Let_def conj_commute)

text \<open>What the checks of a batch event tie to the locked generation.\<close>

definition batch_event_matches :: "event_codec \<Rightarrow> DerivedChainSubmission \<Rightarrow> bytes \<Rightarrow> TxEvent \<Rightarrow> bool" where
  "batch_event_matches codec derived digest event \<longleftrightarrow>
     (\<exists>raw. attribute_values event ''batch_digest'' = [raw] \<and> hex_decode codec raw = Some digest)
     \<and> (\<exists>raw. attribute_values event ''proposal_ids'' = [raw]
          \<and> parse_csv_u32 codec raw = Inr (ordered_proposal_ids (bound derived)))
     \<and> (\<exists>raw votes nullifiers. attribute_values event ''van_nullifiers'' = [raw]
          \<and> batch_votes (wire_request derived) = Some votes
          \<and> expected_nullifiers codec votes = Inr nullifiers \<and> parse_csv_strings codec raw = Inr nullifiers)"

lemma canonical_hex32_decodes: "parse_canonical_hex32 codec raw field = Inr b \<Longrightarrow> hex_decode codec raw = Some b"
  by (auto simp add: parse_canonical_hex32_def Let_def ok_or_def split: if_splits option.splits)

lemma check_batch_event_ok:
  assumes "check_batch_event codec event ty derived digest n = Inr ()"
  shows "(\<exists>raw. attribute_values event ''batch_digest'' = [raw] \<and> hex_decode codec raw = Some digest)
    \<and> (\<exists>raw. attribute_values event ''proposal_ids'' = [raw]
         \<and> parse_csv_u32 codec raw = Inr (ordered_proposal_ids (bound derived)))
    \<and> 0 < n \<and> n \<le> MAX_VOTE_BATCH_ACTIONS"
  using assms unfolding check_batch_event_def
  by (auto simp add: required_attribute_iff dest: canonical_hex32_decodes)

lemma batch_confirmation_ok:
  assumes "validate_batch_confirmation codec derived h events round_id digest n = Inr c"
    and "ty = (if is_combined (target (gen_identity (derived_generation derived)))
               then ''delegate_and_cast_vote_batch'' else ''cast_vote_batch'')"
  shows "\<exists>event van vcs. required_event_for_round codec events ty round_id = Inr event
     \<and> confirmation_from_hash h van vcs = Inr c
     \<and> batch_event_matches codec derived digest event
     \<and> length vcs = n \<and> n \<le> MAX_VOTE_BATCH_ACTIONS \<and> adjacent_positions van vcs"
proof -
  obtain event votes van vcs where
    event: "required_event_for_round codec events ty round_id = Inr event"
    and checked: "check_batch_event codec event ty derived digest n = Inr ()"
    and votes: "batch_votes (wire_request derived) = Some votes"
    and nullifiers: "check_batch_nullifiers codec event ty votes = Inr ()"
    and positions: "read_batch_positions codec event ty n = Inr (van, vcs)"
    and built: "confirmation_from_hash h van vcs = Inr c"
    using assms(1) unfolding validate_batch_confirmation_def Let_def assms(2) [symmetric]
    by (auto simp add: ok_or_def split: option.splits)
  have "length vcs = n" "adjacent_positions van vcs"
    using positions by (auto simp add: read_batch_positions_def split: if_splits)
  moreover have "batch_event_matches codec derived digest event"
    using check_batch_event_ok [OF checked] votes nullifiers
    by (auto simp add: batch_event_matches_def check_batch_nullifiers_def required_attribute_iff)
  ultimately show ?thesis
    using event built check_batch_event_ok [OF checked] by blast
qed

lemma delegation_confirmation_ok:
  "validate_delegation_confirmation codec h events round_id = Inr c \<Longrightarrow>
     \<exists>event van. required_event_for_round codec events ''delegate_vote'' round_id = Inr event
       \<and> confirmation_from_hash h van [] = Inr c"
  by (auto simp add: validate_delegation_confirmation_def)

lemma vote_confirmation_ok:
  "validate_vote_confirmation codec h events round_id = Inr c \<Longrightarrow>
     \<exists>event van vc. required_event_for_round codec events ''cast_vote'' round_id = Inr event
       \<and> confirmation_from_hash h van [vc] = Inr c"
  by (auto simp add: validate_vote_confirmation_def Let_def split: if_splits)

lemma hash_confirmation_shape:
  assumes "validate_hash_confirmation codec derived h events = Inr c"
    and "i = gen_identity (derived_generation derived)"
  shows "\<exists>event van vcs.
     required_event_for_round codec events (reported_event (target i))
       (hex_encode codec (vote_round_id i)) = Inr event
     \<and> c = ValidatedHash \<lparr>conf_source = SourceHash, conf_transaction_hash = Some h,
              final_van_position = van, vote_commitment_positions = vcs\<rparr>
     \<and> wf_confirmation c
     \<and> length (layout_leaves (expected_layout (bound derived))) = length vcs + 1
     \<and> length vcs \<le> MAX_VOTE_BATCH_ACTIONS
     \<and> (\<forall>digest. batch_digest (target i) = Some digest \<longrightarrow>
          batch_event_matches codec derived digest event \<and> adjacent_positions van vcs)"
proof -
  have small: "1 \<le> MAX_VOTE_BATCH_ACTIONS"
    by (simp add: MAX_VOTE_BATCH_ACTIONS_def MAX_PROPOSAL_ID_def)
  have "\<exists>event van vcs. required_event_for_round codec events (reported_event (target i))
        (hex_encode codec (vote_round_id i)) = Inr event
      \<and> confirmation_from_hash h van vcs = Inr c
      \<and> length (layout_leaves (expected_layout (bound derived))) = length vcs + 1
      \<and> length vcs \<le> MAX_VOTE_BATCH_ACTIONS
      \<and> (\<forall>digest. batch_digest (target i) = Some digest \<longrightarrow>
            batch_event_matches codec derived digest event \<and> adjacent_positions van vcs)"
    using assms(1) small unfolding validate_hash_confirmation_def Let_def assms(2) [symmetric]
    by (cases "target i"; cases "expected_layout (bound derived)")
      (force dest!: delegation_confirmation_ok vote_confirmation_ok
         batch_confirmation_ok [OF _ refl] simp add: assms(2) [symmetric])+
  then show ?thesis
    using confirmation_from_wf(1) from_hash_ok by (elim exE conjE) (intro exI conjI; auto simp add: from_hash_ok)
qed

text \<open>
  C23.  A hash confirmation is evidence about exactly the locked generation: the events hold exactly
  one event of the target's type that names the generation's round, the confirmation carries the
  queried hash and positions inside the commitment tree, one for every leaf of the generation's
  layout.  For a batch the event repeats the generation's digest, proposals and nullifiers in
  order, and the commitments follow the final authority note without a gap.
\<close>

theorem hash_confirmation_sound:
  assumes "validate_hash_confirmation codec derived h events = Inr c"
  shows "\<exists>event van vcs.
     filter (\<lambda>e. event_type e = lit (reported_event (target (gen_identity (derived_generation derived))))
        \<and> claims_round codec (hex_encode codec (vote_round_id (gen_identity (derived_generation derived)))) e)
       events = [event]
     \<and> c = ValidatedHash \<lparr>conf_source = SourceHash, conf_transaction_hash = Some h,
              final_van_position = van, vote_commitment_positions = vcs\<rparr>
     \<and> wf_confirmation c
     \<and> length (layout_leaves (expected_layout (bound derived))) = length vcs + 1
     \<and> length vcs \<le> MAX_VOTE_BATCH_ACTIONS
     \<and> (\<forall>digest. batch_digest (target (gen_identity (derived_generation derived))) = Some digest \<longrightarrow>
          batch_event_matches codec derived digest event
          \<and> (\<forall>k < length vcs. unat (vcs ! k) = unat van + (k + 1)))"
  using hash_confirmation_shape [OF assms refl] required_event_unique
  unfolding adjacent_positions_iff by blast

section \<open>Rendered values are read back\<close>

lemma lit_append [simp]: "lit (s @ t) = lit s @ lit t"
  by (simp add: lit_def)

definition digits :: "unicode \<Rightarrow> bool" where
  "digits s \<longleftrightarrow> s \<noteq> [] \<and> list_all (\<lambda>c. 48 \<le> c \<and> c \<le> 57) s"

lemma lit_decimal:
  "digits (lit (decimal n)) \<and> foldl (\<lambda>acc c. acc * 10 + (c - 48)) 0 (lit (decimal n)) = n"
proof (induction n rule: less_induct)
  case (less n)
  show ?case
  proof (cases "n < 10")
    case True
    then show ?thesis
      by (simp add: decimal.simps [of n] lit_def digits_def)
  next
    case False
    then have "digits (lit (decimal (n div 10)))
        \<and> foldl (\<lambda>acc c. acc * 10 + (c - 48)) 0 (lit (decimal (n div 10))) = n div 10"
      by (intro less.IH) simp
    moreover have "lit (decimal n) = lit (decimal (n div 10)) @ [48 + n mod 10]"
      using False by (simp add: decimal.simps [of n] lit_def)
    moreover have "n mod 10 < 10"
      by simp
    ultimately show ?thesis
      by (auto simp add: digits_def)
  qed
qed

lemma trim_visible: "list_all (\<lambda>c. \<not> is_whitespace c) s \<Longrightarrow> trim s = s"
proof -
  have start: "trim_start t = t" if "list_all (\<lambda>c. \<not> is_whitespace c) t" for t
    using that by (cases t) (simp_all add: trim_start_def)
  have finish: "trim_end t = t" if "list_all (\<lambda>c. \<not> is_whitespace c) t" for t
    using that start [of "rev t"] by (simp add: trim_end_def trim_start_def list_all_iff)
  assume "list_all (\<lambda>c. \<not> is_whitespace c) s"
  then show "trim s = s"
    by (simp add: trim_def start finish)
qed

lemma digits_visible: "digits s \<Longrightarrow> list_all (\<lambda>c. \<not> is_whitespace c) s \<and> 44 \<notin> set s"
  by (auto simp add: digits_def list_all_iff is_whitespace_def)

lemma parse_u64_decimal: "n < 2 ^ 64 \<Longrightarrow> parse_u64 (lit (decimal n)) = Some n"
  using lit_decimal [of n]
  by (cases "lit (decimal n)") (auto simp add: parse_u64_def digits_def Let_def)

lemma parse_compat_decimal [simp]:
  "n < 2 ^ 64 \<Longrightarrow> parse_compat_u64 codec (lit (decimal n)) field = Inr (of_nat n)"
  using lit_decimal [of n]
  by (simp add: parse_compat_u64_def trim_visible digits_visible parse_u64_decimal)

fun comma_separated :: "unicode list \<Rightarrow> unicode" where
  "comma_separated [] = []"
| "comma_separated [piece] = piece"
| "comma_separated (piece # pieces) = piece @ 44 # comma_separated pieces"

lemma split_on_piece: "44 \<notin> set piece \<Longrightarrow> split_on 44 piece = [piece]"
  by (induction piece) auto

lemma split_on_pieces: "44 \<notin> set piece \<Longrightarrow> split_on 44 (piece @ 44 # s) = piece # split_on 44 s"
  by (induction piece) auto

lemma split_comma_separated:
  "\<lbrakk>pieces \<noteq> []; \<forall>piece \<in> set pieces. 44 \<notin> set piece\<rbrakk> \<Longrightarrow> split_on 44 (comma_separated pieces) = pieces"
  by (induction pieces rule: comma_separated.induct) (simp_all add: split_on_piece split_on_pieces)

lemma collect_results_map:
  "(\<And>x. x \<in> set xs \<Longrightarrow> f (g x) = Inr (k x)) \<Longrightarrow> collect_results f (map g xs) = Inr (map k xs)"
  by (induction xs) auto

lemma parse_csv_rendered:
  assumes "xs \<noteq> []"
    and "\<And>x. x \<in> set xs \<Longrightarrow> g x \<noteq> [] \<and> list_all (\<lambda>c. \<not> is_whitespace c) (g x) \<and> 44 \<notin> set (g x)"
    and "\<And>x. x \<in> set xs \<Longrightarrow> f (g x) = Inr (k x)"
  shows "parse_csv (comma_separated (map g xs)) field f = Inr (map k xs)"
proof -
  have "map trim (split_on 44 (comma_separated (map g xs))) = map g xs"
    using assms(1,2) by (simp add: split_comma_separated trim_visible)
  moreover have "g x \<noteq> []" if "x \<in> set xs" for x
    using assms(2) that by blast
  then have "[] \<notin> set (map g xs)"
    by (auto dest: sym)
  ultimately show ?thesis
    using assms(1,3) by (simp add: parse_csv_def Let_def list_ex_iff collect_results_map)
qed

section \<open>The events the chain reports\<close>

text \<open>
  The hex library renders 32 bytes as 64 lowercase digits and reads them back.
\<close>

definition hex_faithful :: "event_codec \<Rightarrow> bool" where
  "hex_faithful codec \<longleftrightarrow>
     (\<forall>b. length b = 32 \<longrightarrow>
        length (hex_encode codec b) = 64
        \<and> list_all (\<lambda>c. 48 \<le> c \<and> c \<le> 57 \<or> 97 \<le> c \<and> c \<le> 102) (hex_encode codec b)
        \<and> hex_decode codec (hex_encode codec b) = Some b)"

text \<open>
  A generation as derivation builds it: target, layout and request belong together, and a batch
  has its members' nullifiers and proposals.
\<close>

fun batch_shape :: "event_codec \<Rightarrow> DerivedChainSubmission \<Rightarrow> bytes \<Rightarrow> bytes list \<Rightarrow> bool" where
  "batch_shape codec derived digest commitments \<longleftrightarrow>
     length digest = 32 \<and> 0 < length commitments \<and> length commitments \<le> MAX_VOTE_BATCH_ACTIONS
     \<and> ordered_proposal_ids (bound derived) \<noteq> []
     \<and> (case batch_votes (wire_request derived) of
          None \<Rightarrow> False
        | Some votes \<Rightarrow> votes \<noteq> []
            \<and> list_all (\<lambda>v. \<exists>b. base64_decode codec v = Some b \<and> length b = 32) votes)"

definition derived_shape :: "event_codec \<Rightarrow> DerivedChainSubmission \<Rightarrow> bool" where
  "derived_shape codec derived \<longleftrightarrow>
     length (vote_round_id (gen_identity (derived_generation derived))) = 32
     \<and> (case (target (gen_identity (derived_generation derived)), expected_layout (bound derived)) of
          (Delegation, DelegationLayout _) \<Rightarrow> True
        | (Vote _, VoteLayout _ _) \<Rightarrow> True
        | (VoteBatch digest, VoteBatchLayout _ commitments) \<Rightarrow>
            batch_shape codec derived digest commitments
            \<and> (\<exists>body votes. wire_request derived = VoteBatchRequest body votes)
        | (DelegateAndVoteBatch digest, VoteBatchLayout _ commitments) \<Rightarrow>
            batch_shape codec derived digest commitments
            \<and> (\<exists>body votes gov. wire_request derived = DelegateAndVoteBatchRequest body votes gov \<and> gov < 2 ^ 64)
        | _ \<Rightarrow> False)"

definition attribute :: "string \<Rightarrow> unicode \<Rightarrow> TxEventAttribute" where
  "attribute key v = \<lparr>attr_key = lit key, attr_value = v\<rparr>"

definition decimals :: "nat list \<Rightarrow> unicode" where
  "decimals ns = comma_separated (map (\<lambda>n. lit (decimal n)) ns)"

fun nullifier_count_attributes :: "ChainSubmissionRequest \<Rightarrow> TxEventAttribute list" where
  "nullifier_count_attributes (DelegateAndVoteBatchRequest body votes gov) =
     [attribute ''nullifier_count'' (lit (decimal gov))]"
| "nullifier_count_attributes _ = []"

definition decoded_nullifiers :: "event_codec \<Rightarrow> ChainSubmissionRequest \<Rightarrow> bytes list" where
  "decoded_nullifiers codec request =
     map (\<lambda>v. the (base64_decode codec v)) (the (batch_votes request))"

definition batch_attributes :: "event_codec \<Rightarrow> DerivedChainSubmission \<Rightarrow> bytes \<Rightarrow> nat \<Rightarrow> nat \<Rightarrow> TxEventAttribute list" where
  "batch_attributes codec derived digest n van =
     nullifier_count_attributes (wire_request derived)
     @ [attribute ''batch_digest'' (hex_encode codec digest),
        attribute ''batch_size'' (lit (decimal n)),
        attribute ''proposal_ids'' (decimals (map unat (ordered_proposal_ids (bound derived)))),
        attribute ''van_nullifiers''
          (comma_separated (map (hex_encode codec) (decoded_nullifiers codec (wire_request derived)))),
        attribute ''final_van_leaf_index'' (lit (decimal van)),
        attribute ''vote_commitment_leaf_indices'' (decimals [van + 1..<van + 1 + n])]"

text \<open>The event of a generation whose final authority note is the leaf \<open>van\<close>.\<close>

definition chain_event :: "event_codec \<Rightarrow> DerivedChainSubmission \<Rightarrow> nat \<Rightarrow> TxEvent" where
  "chain_event codec derived van =
     (let i = gen_identity (derived_generation derived);
          n = length (layout_leaves (expected_layout (bound derived))) - 1 in
      \<lparr>event_type = lit (reported_event (target i)),
       event_attributes =
         attribute ''vote_round_id'' (hex_encode codec (vote_round_id i))
         # (case batch_digest (target i) of
              Some digest \<Rightarrow> batch_attributes codec derived digest n van
            | None \<Rightarrow> [attribute ''leaf_index'' (decimals [van..<van + 1 + n])])\<rparr>)"

lemma as_bytes_hex:
  assumes "list_all (\<lambda>c. 48 \<le> c \<and> c \<le> 57 \<or> 97 \<le> c \<and> c \<le> 102) s"
  shows "length (as_bytes s) = length s \<and> list_all canonical_hex_byte (as_bytes s)"
proof -
  have "is_ascii s"
    using assms by (auto simp add: is_ascii_def list_all_iff)
  moreover have "canonical_hex_byte (of_nat c)" if "c \<in> set s" for c
  proof -
    have "48 \<le> c \<and> c \<le> 57 \<or> 97 \<le> c \<and> c \<le> 102"
      using assms that by (auto simp add: list_all_iff)
    then show ?thesis
      by (auto simp add: canonical_hex_byte_def word_le_nat_alt unat_of_nat)
  qed
  ultimately show ?thesis
    by (simp add: as_bytes_ascii list_all_iff)
qed

lemma parse_canonical_hex32_encoded:
  "\<lbrakk>hex_faithful codec; length b = 32\<rbrakk> \<Longrightarrow> parse_canonical_hex32 codec (hex_encode codec b) field = Inr b"
  unfolding hex_faithful_def by (simp add: parse_canonical_hex32_def as_bytes_hex)

lemma hex_visible:
  "\<lbrakk>hex_faithful codec; length b = 32\<rbrakk> \<Longrightarrow>
     hex_encode codec b \<noteq> [] \<and> list_all (\<lambda>c. \<not> is_whitespace c) (hex_encode codec b)
     \<and> 44 \<notin> set (hex_encode codec b)"
  unfolding hex_faithful_def by (force simp add: list_all_iff is_whitespace_def)

lemma lit_eq_iff [simp]: "lit s = lit t \<longleftrightarrow> s = t"
  by (auto simp add: lit_def inj_map_eq_map inj_on_def)

lemma decimals_u64:
  assumes "ns \<noteq> []" "\<forall>n \<in> set ns. n < 2 ^ 64"
  shows "parse_csv_u64 codec (decimals ns) = Inr (map of_nat ns)"
  unfolding parse_csv_u64_def decimals_def
  using assms lit_decimal digits_visible by (intro parse_csv_rendered) (auto simp add: digits_def)

lemma decimals_u32:
  assumes "ids \<noteq> []"
  shows "parse_csv_u32 codec (decimals (map unat ids)) = Inr ids"
proof -
  have small: "unat (p :: u32) < 2 ^ 32" for p
    using unsigned_less [of p] by simp
  have "parse_csv_u32 codec (comma_separated (map (\<lambda>p. lit (decimal (unat p))) ids)) = Inr (map id ids)"
    unfolding parse_csv_u32_def
  proof (rule parse_csv_rendered)
    fix p :: u32
    show "lit (decimal (unat p)) \<noteq> [] \<and> list_all (\<lambda>c. \<not> is_whitespace c) (lit (decimal (unat p)))
        \<and> 44 \<notin> set (lit (decimal (unat p)))"
      using lit_decimal [of "unat p"] digits_visible by (auto simp add: digits_def)
    show "and_then (parse_compat_u64 codec (lit (decimal (unat p))) ''cast_vote_batch proposal id'')
        (\<lambda>proposal_id. if unat proposal_id < 2 ^ 32 then Inr (of_nat (unat proposal_id))
          else Inl (invalid_input (lit ''cast_vote_batch proposal id does not fit u32''))) = Inr (id p)"
    proof -
      have "unat (of_nat (unat p) :: u64) = unat p"
        using small [of p] by (simp only: unat_of_nat) simp
      moreover have "parse_compat_u64 codec (lit (decimal (unat p))) field = Inr (of_nat (unat p))" for field
        using small [of p] by (intro parse_compat_decimal) simp
      ultimately show ?thesis
        using small [of p] by (simp only: and_then_simps) simp
    qed
  qed (use assms in simp)
  then show ?thesis
    by (simp add: decimals_def comp_def)
qed

lemma nullifiers_read_back:
  assumes "hex_faithful codec" "votes \<noteq> []"
    and "list_all (\<lambda>v. \<exists>b. base64_decode codec v = Some b \<and> length b = 32) votes"
  shows "expected_nullifiers codec votes
           = Inr (map (hex_encode codec) (map (\<lambda>v. the (base64_decode codec v)) votes))
    \<and> parse_csv_strings codec
        (comma_separated (map (hex_encode codec) (map (\<lambda>v. the (base64_decode codec v)) votes)))
          = Inr (map (hex_encode codec) (map (\<lambda>v. the (base64_decode codec v)) votes))"
proof
  have decoded: "\<exists>b. base64_decode codec v = Some b \<and> length b = 32" if "v \<in> set votes" for v
    using assms(3) that by (simp add: list_all_iff)
  have "collect_results f votes = Inr (map k votes)" if "\<And>v. v \<in> set votes \<Longrightarrow> f v = Inr (k v)"
    for f :: "bytes \<Rightarrow> VotingError + unicode" and k
    using collect_results_map [of votes f id k] that by simp
  note collected = this
  show "expected_nullifiers codec votes
      = Inr (map (hex_encode codec) (map (\<lambda>v. the (base64_decode codec v)) votes))"
    unfolding expected_nullifiers_def map_map comp_def
    by (rule collected) (auto dest!: decoded)
  show "parse_csv_strings codec
        (comma_separated (map (hex_encode codec) (map (\<lambda>v. the (base64_decode codec v)) votes)))
          = Inr (map (hex_encode codec) (map (\<lambda>v. the (base64_decode codec v)) votes))"
    unfolding parse_csv_strings_def
  proof (rule parse_csv_rendered)
    fix b
    assume "b \<in> set (map (\<lambda>v. the (base64_decode codec v)) votes)"
    then have "length b = 32"
      using decoded by fastforce
    with assms(1) show "hex_encode codec b \<noteq> []
        \<and> list_all (\<lambda>c. \<not> is_whitespace c) (hex_encode codec b) \<and> 44 \<notin> set (hex_encode codec b)"
      by (rule hex_visible)
    from \<open>length b = 32\<close> assms(1)
    show "and_then (parse_canonical_hex32 codec (hex_encode codec b) ''cast_vote_batch VAN nullifier'')
        (\<lambda>_. Inr (hex_encode codec b)) = Inr (hex_encode codec b)"
      by (simp add: parse_canonical_hex32_encoded)
  qed (use assms(2) in simp)
qed

lemma chain_event_found:
  assumes "\<forall>e \<in> set before \<union> set after. event_type e \<noteq> event_type (chain_event codec derived van)"
    and i: "i = gen_identity (derived_generation derived)"
  shows "required_event_for_round codec (before @ chain_event codec derived van # after)
           (reported_event (target i)) (hex_encode codec (vote_round_id i))
         = Inr (chain_event codec derived van)"
proof -
  have type: "event_type (chain_event codec derived van) = lit (reported_event (target i))"
    by (simp add: chain_event_def Let_def i)
  have "round_values (chain_event codec derived van) = [hex_encode codec (vote_round_id i)]"
    by (cases "wire_request derived")
      (simp_all add: chain_event_def Let_def i round_values_def ROUND_ID_ATTRIBUTES_def
        batch_attributes_def attribute_def split: option.splits)
  moreover from this have "claims_round codec (hex_encode codec (vote_round_id i)) (chain_event codec derived van)"
    by (simp add: claims_round_def round_id_matches_def)
  moreover have "filter (\<lambda>e. event_type e = lit (reported_event (target i)))
      (before @ chain_event codec derived van # after) = [chain_event codec derived van]"
    using assms(1) by (simp add: type filter_empty_conv)
  ultimately show ?thesis
    by (simp add: required_event_iff)
qed

lemma positions_in_tree:
  assumes "n < 2 ^ 24"
  shows "(of_nat n :: u64) < TREE_CAPACITY" "unat (of_nat n :: u64) = n"
proof -
  show "unat (of_nat n :: u64) = n"
    using assms by (simp add: unat_of_nat)
  then show "(of_nat n :: u64) < TREE_CAPACITY"
    using assms by (simp add: word_less_nat_alt unat_TREE_CAPACITY)
qed

lemma reported_positions_valid:
  assumes "van + n < 2 ^ 24"
  shows "confirmation_from_hash h (of_nat van) (map of_nat [van + 1..<van + 1 + n])
    = Inr (ValidatedHash \<lparr>conf_source = SourceHash, conf_transaction_hash = Some h,
             final_van_position = of_nat van,
             vote_commitment_positions = map of_nat [van + 1..<van + 1 + n]\<rparr>)"
    and "adjacent_positions (of_nat van) (map of_nat [van + 1..<van + 1 + n])"
  using assms by (auto simp add: from_hash_ok list_all_iff adjacent_positions_iff positions_in_tree
      simp del: of_nat_add of_nat_Suc upt_Suc)

lemma batch_event_attributes:
  assumes "batch_digest (target (gen_identity (derived_generation derived))) = Some digest"
    and "expected_layout (bound derived) = VoteBatchLayout v commitments"
  shows "attribute_values (chain_event codec derived van) ''batch_digest'' = [hex_encode codec digest]"
    "attribute_values (chain_event codec derived van) ''batch_size'' = [lit (decimal (length commitments))]"
    "attribute_values (chain_event codec derived van) ''proposal_ids''
       = [decimals (map unat (ordered_proposal_ids (bound derived)))]"
    "attribute_values (chain_event codec derived van) ''van_nullifiers''
       = [comma_separated (map (hex_encode codec) (decoded_nullifiers codec (wire_request derived)))]"
    "attribute_values (chain_event codec derived van) ''final_van_leaf_index'' = [lit (decimal van)]"
    "attribute_values (chain_event codec derived van) ''vote_commitment_leaf_indices''
       = [decimals [van + 1..<van + 1 + length commitments]]"
    "attribute_values (chain_event codec derived van) ''nullifier_count''
       = map attr_value (nullifier_count_attributes (wire_request derived))"
  using assms
  by (cases "wire_request derived"; simp add: chain_event_def Let_def attribute_values_def
      batch_attributes_def attribute_def)+

lemma batch_event_accepted:
  assumes hex: "hex_faithful codec" and shape: "batch_shape codec derived digest commitments"
    and digest: "batch_digest (target (gen_identity (derived_generation derived))) = Some digest"
    and layout: "expected_layout (bound derived) = VoteBatchLayout v commitments"
    and small: "\<And>body votes gov. wire_request derived = DelegateAndVoteBatchRequest body votes gov \<Longrightarrow> gov < 2 ^ 64"
    and van: "van + length commitments < 2 ^ 24"
  shows "check_batch_event codec (chain_event codec derived van) ty derived digest (length commitments) = Inr ()"
    and "check_batch_nullifiers codec (chain_event codec derived van) ty
           (the (batch_votes (wire_request derived))) = Inr ()"
    and "read_batch_positions codec (chain_event codec derived van) ty (length commitments)
           = Inr (of_nat van, map of_nat [van + 1..<van + 1 + length commitments])"
proof -
  note attributes = batch_event_attributes [OF digest layout]
  obtain votes where votes: "batch_votes (wire_request derived) = Some votes" "votes \<noteq> []"
    "list_all (\<lambda>v. \<exists>b. base64_decode codec v = Some b \<and> length b = 32) votes"
    using shape by (auto split: option.splits)
  have sizes: "length digest = 32" "0 < length commitments" "length commitments \<le> MAX_VOTE_BATCH_ACTIONS"
    "ordered_proposal_ids (bound derived) \<noteq> []" "length commitments < 2 ^ 24"
    using shape van by auto
  have "check_nullifier_count codec (chain_event codec derived van) ty (wire_request derived) = Inr ()"
    using small attributes(7) positions_in_tree
    by (cases "wire_request derived")
      (auto simp add: check_nullifier_count_def required_attribute_def attribute_def unat_of_nat)
  then show "check_batch_event codec (chain_event codec derived van) ty derived digest (length commitments) = Inr ()"
    using sizes hex attributes
    by (simp add: check_batch_event_def required_attribute_def parse_canonical_hex32_encoded decimals_u32
        positions_in_tree)
  show "check_batch_nullifiers codec (chain_event codec derived van) ty
          (the (batch_votes (wire_request derived))) = Inr ()"
    using attributes(4) votes nullifiers_read_back [OF hex votes(2,3)]
    by (simp add: check_batch_nullifiers_def required_attribute_def decoded_nullifiers_def)
  have "parse_csv_u64 codec (decimals [van + 1..<van + 1 + length commitments])
      = Inr (map of_nat [van + 1..<van + 1 + length commitments])"
    using sizes van by (intro decimals_u64) (auto simp add: Suc_le_eq)
  then show "read_batch_positions codec (chain_event codec derived van) ty (length commitments)
      = Inr (of_nat van, map of_nat [van + 1..<van + 1 + length commitments])"
    using attributes(5,6) van reported_positions_valid(2) [OF van]
    by (simp add: read_batch_positions_def required_attribute_def del: upt_Suc)
qed

lemma single_event_attributes:
  assumes "batch_digest (target (gen_identity (derived_generation derived))) = None"
  shows "attribute_values (chain_event codec derived van) ''leaf_index''
    = [decimals [van..<van + length (layout_leaves (expected_layout (bound derived)))]]"
  using assms by (cases "expected_layout (bound derived)")
    (simp_all add: chain_event_def Let_def attribute_values_def attribute_def)

text \<open>
  C24.  The event the chain reports for a generation confirms it: wherever it stands among events of
  other types, its rendered digest, size, proposals, nullifiers and positions are read back and the
  confirmation carries the reported positions, for every final authority note whose leaves fit the
  tree.
\<close>

theorem reported_event_confirms:
  assumes "hex_faithful codec" "derived_shape codec derived"
    and "van + length (layout_leaves (expected_layout (bound derived))) \<le> 2 ^ 24"
    and "\<forall>e \<in> set before \<union> set after. event_type e \<noteq> event_type (chain_event codec derived van)"
  shows "validate_hash_confirmation codec derived h (before @ chain_event codec derived van # after)
    = Inr (ValidatedHash \<lparr>conf_source = SourceHash, conf_transaction_hash = Some h,
        final_van_position = of_nat van,
        vote_commitment_positions =
          map of_nat [van + 1..<van + length (layout_leaves (expected_layout (bound derived)))]\<rparr>)"
proof -
  define i where "i = gen_identity (derived_generation derived)"
  note found = chain_event_found [OF assms(4) i_def]
  note folded = i_def [symmetric]
  show ?thesis
  proof (cases "batch_digest (target i)")
    case None
    note leaf = single_event_attributes [OF None [unfolded i_def], of codec van]
    from None assms(2) consider
        (delegation) x where "target i = Delegation" "expected_layout (bound derived) = DelegationLayout x"
      | (vote) p x y where "target i = Vote p" "expected_layout (bound derived) = VoteLayout x y"
      by (cases "target i"; cases "expected_layout (bound derived)") (auto simp add: derived_shape_def folded)
    then show ?thesis
    proof cases
      case delegation
      then show ?thesis
        using found leaf assms(3) reported_positions_valid(1) [of van 0 h]
        by (simp add: validate_hash_confirmation_def validate_delegation_confirmation_def folded
            required_attribute_def decimals_def)
    next
      case vote
      have visible: "44 \<notin> set (lit (decimal n))" "trim (lit (decimal n)) = lit (decimal n)" for n
        using lit_decimal [of n] digits_visible by (auto intro: trim_visible)
      have "split_on 44 (decimals [van, Suc van]) = [lit (decimal van), lit (decimal (Suc van))]"
        by (simp add: decimals_def visible split_on_piece split_on_pieces)
      with vote visible show ?thesis
        using found leaf assms(3) reported_positions_valid(1) [of van 1 h]
        by (simp add: validate_hash_confirmation_def validate_vote_confirmation_def folded
            required_attribute_def del: split_on.simps)
    qed
  next
    case (Some digest)
    from Some assms(2) obtain v commitments where layout: "expected_layout (bound derived) = VoteBatchLayout v commitments"
      and shape: "batch_shape codec derived digest commitments"
      and gov: "\<And>body votes gov. wire_request derived = DelegateAndVoteBatchRequest body votes gov \<Longrightarrow> gov < 2 ^ 64"
      by (cases "target i"; cases "expected_layout (bound derived)") (auto simp add: derived_shape_def folded)
    have van: "van + length commitments < 2 ^ 24"
      using assms(3) layout by simp
    note accepted = batch_event_accepted [OF assms(1) shape Some [unfolded i_def] layout gov van]
    obtain votes where votes: "batch_votes (wire_request derived) = Some votes"
      using shape by (auto split: option.splits)
    have "validate_batch_confirmation codec derived h (before @ chain_event codec derived van # after)
        (hex_encode codec (vote_round_id i)) digest (length commitments)
      = Inr (ValidatedHash \<lparr>conf_source = SourceHash, conf_transaction_hash = Some h,
          final_van_position = of_nat van,
          vote_commitment_positions = map of_nat [van + 1..<van + 1 + length commitments]\<rparr>)"
      using found accepted votes Some reported_positions_valid(1) [OF van, of h]
      by (cases "target i")
        (simp_all add: validate_batch_confirmation_def folded Let_def refusing_def del: upt_Suc)
    then show ?thesis
      using Some layout by (cases "target i") (simp_all add: validate_hash_confirmation_def folded del: upt_Suc)
  qed
qed

definition hex_code :: "nat \<Rightarrow> nat" where
  "hex_code n = (if n < 10 then 48 + n else 87 + n)"

definition hex_value :: "nat \<Rightarrow> nat option" where
  "hex_value c =
     (if 48 \<le> c \<and> c \<le> 57 then Some (c - 48) else if 97 \<le> c \<and> c \<le> 102 then Some (c - 87) else None)"

fun hex_pairs :: "unicode \<Rightarrow> bytes option" where
  "hex_pairs [] = Some []"
| "hex_pairs (a # b # rest) =
     (case (hex_value a, hex_value b, hex_pairs rest) of
        (Some high, Some low, Some bytes) \<Rightarrow> Some (of_nat (16 * high + low) # bytes)
      | _ \<Rightarrow> None)"
| "hex_pairs _ = None"

definition sample_codec :: event_codec where
  "sample_codec =
     \<lparr>base64_encode = (\<lambda>_. []), base64_decode = Some,
      hex_encode = (\<lambda>b. concat (map (\<lambda>w. [hex_code (unat w div 16), hex_code (unat w mod 16)]) b)),
      hex_decode = hex_pairs, debug_text = id\<rparr>"

lemma hex_value_code: "n < 16 \<Longrightarrow> hex_value (hex_code n) = Some n"
  by (auto simp add: hex_value_def hex_code_def)

lemma hex_faithful_sample: "hex_faithful sample_codec"
proof -
  have "unat (w :: u8) < 256" for w
    using unsigned_less [of w] by simp
  then have small: "unat (w :: u8) div 16 < 16" for w
    by (simp add: less_mult_imp_div_less)
  have code: "48 \<le> hex_code n \<and> hex_code n \<le> 57 \<or> 97 \<le> hex_code n \<and> hex_code n \<le> 102" if "n < 16" for n
    using that by (auto simp add: hex_code_def)
  have "hex_pairs (hex_encode sample_codec b) = Some b" for b
    by (induction b) (simp_all add: sample_codec_def hex_value_code small)
  moreover have "length (hex_encode sample_codec b) = 2 * length b" for b
    by (induction b) (simp_all add: sample_codec_def)
  moreover have "list_all (\<lambda>c. 48 \<le> c \<and> c \<le> 57 \<or> 97 \<le> c \<and> c \<le> 102) (hex_encode sample_codec b)" for b
    by (induction b) (simp_all add: sample_codec_def code small)
  ultimately show ?thesis
    by (simp add: hex_faithful_def) (simp add: sample_codec_def)
qed

definition sample_batch_generation :: DerivedChainSubmission where
  "sample_batch_generation =
     \<lparr>bound = \<lparr>generation = \<lparr>gen_identity = sample_identity\<lparr>target := VoteBatch (replicate 32 9)\<rparr>,
                               gen_digest = replicate 32 0\<rparr>,
               expected_layout = VoteBatchLayout (replicate 32 1) [replicate 32 2, replicate 32 3],
               ordered_proposal_ids = [4, 2]\<rparr>,
      wire_request = VoteBatchRequest [] [replicate 32 5, replicate 32 6]\<rparr>"

text \<open>
  The validators a domain may use: what they accept satisfies what the store relies on, and they
  never run into the code's \<open>unreachable!\<close> for a generation that derivation builds.
\<close>

lemma event_validation_sound_domain:
  assumes "\<And>d request derived. ops_derive ops d request = Inr derived \<Longrightarrow>
      gen_identity (derived_generation derived) = derivation_identity request
      \<and> length (gen_digest (derived_generation derived)) = 32 \<and> wf_hash (imported_candidate derived)"
    and "\<And>imported derived h events c. ops_validate_confirmation ops imported derived h events = Inr c \<Longrightarrow>
      (if imported then validate_imported_delegation_confirmation codec (bound derived) h events = Inr c
       else validate_hash_confirmation codec derived h events = Inr c)"
  shows "sound_domain ops"
proof -
  have "wf_confirmation c \<and> length (vote_commitment_positions (confirmation c)) < 2 ^ 32"
    if "validate_hash_confirmation codec derived h events = Inr c" for derived h events c
    using hash_confirmation_shape [OF that] by (auto simp add: MAX_VOTE_BATCH_ACTIONS_def MAX_PROPOSAL_ID_def)
  moreover have "wf_confirmation c \<and> length (vote_commitment_positions (confirmation c)) < 2 ^ 32"
    if "validate_imported_delegation_confirmation codec locked h events = Inr c" for locked h events c
    using that by (auto simp add: validate_imported_delegation_confirmation_def from_hash_ok
        dest!: delegation_confirmation_ok split: ChainSubmissionTarget.splits ExpectedTreeLayout.splits)
  ultimately show ?thesis
    using assms unfolding sound_domain_def by (metis (full_types))
qed

lemma validate_hash_confirmation_no_panic:
  assumes "derived_shape codec derived"
  shows "validate_hash_confirmation codec derived h events \<noteq> Inl ConfirmationPanic"
proof -
  have refused: "refusing r \<noteq> Inl ConfirmationPanic" for r :: "VotingError + 'a"
    by (cases r) (simp_all add: refusing_def)
  show ?thesis
    using assms
    by (auto simp add: validate_hash_confirmation_def derived_shape_def validate_batch_confirmation_def
        Let_def and_then_eq_Inl refused
        split: ChainSubmissionTarget.splits ExpectedTreeLayout.splits option.splits)
qed

theorem reported_event_confirms_witness:
  "validate_hash_confirmation sample_codec sample_batch_generation [7]
     [chain_event sample_codec sample_batch_generation 40]
   = Inr (ValidatedHash \<lparr>conf_source = SourceHash, conf_transaction_hash = Some [7],
       final_van_position = 40, vote_commitment_positions = [41, 42]\<rparr>)"
proof -
  have "derived_shape sample_codec sample_batch_generation"
    by (simp add: derived_shape_def sample_batch_generation_def sample_identity_def sample_codec_def
        MAX_VOTE_BATCH_ACTIONS_def MAX_PROPOSAL_ID_def)
  moreover have "layout_leaves (expected_layout (bound sample_batch_generation))
      = [replicate 32 1, replicate 32 2, replicate 32 3]"
    by (simp add: sample_batch_generation_def)
  ultimately show ?thesis
    using reported_event_confirms [OF hex_faithful_sample, of sample_batch_generation 40 "[]" "[]" "[7]"]
    by (simp add: upt_rec)
qed

definition sample_delegation_generation :: DerivedChainSubmission where
  "sample_delegation_generation =
     \<lparr>bound = \<lparr>generation = \<lparr>gen_identity = sample_identity\<lparr>vote_round_id := [], target := Delegation\<rparr>,
                               gen_digest = []\<rparr>,
               expected_layout = DelegationLayout [], ordered_proposal_ids = []\<rparr>,
      wire_request = DelegationRequest []\<rparr>"

definition sample_delegate_event :: TxEvent where
  "sample_delegate_event = \<lparr>event_type = lit ''delegate_vote'', event_attributes =
     [\<lparr>attr_key = lit ''round_id'', attr_value = []\<rparr>,
      \<lparr>attr_key = lit ''leaf_index'', attr_value = lit ''5''\<rparr>]\<rparr>"

theorem hash_confirmation_sound_witness:
  "\<exists>c. validate_hash_confirmation sample_codec sample_delegation_generation [7] [sample_delegate_event] = Inr c
     \<and> wf_confirmation c \<and> vote_commitment_positions (confirmation c) = []"
proof -
  have "validate_hash_confirmation sample_codec sample_delegation_generation [7] [sample_delegate_event]
      = Inr (ValidatedHash \<lparr>conf_source = SourceHash, conf_transaction_hash = Some [7],
          final_van_position = 5, vote_commitment_positions = []\<rparr>)"
    by (simp add: validate_hash_confirmation_def validate_delegation_confirmation_def
        sample_delegation_generation_def sample_delegate_event_def sample_identity_def sample_codec_def
        required_event_for_round_def consider_event_def round_values_def ROUND_ID_ATTRIBUTES_def
        round_id_matches_def required_attribute_def attribute_values_def parse_compat_u64_def
        lit_def trim_def trim_start_def trim_end_def is_whitespace_def parse_u64_def
        confirmation_from_hash_def validate_tree_positions_def TREE_CAPACITY_def TREE_DEPTH_def refusing_def)
  from hash_confirmation_sound [OF this] this show ?thesis
    by (auto simp add: sample_delegation_generation_def)
qed

end
