(* ===== verification/Voting_Types.thy ===== *)
theory Voting_Types
  imports Voting_Prelude
begin

text \<open>
  The shared types of the SDK (\<open>types.rs\<close>, \<open>governance.rs\<close>): errors, notes and the ballot constants.
  Of \<open>VotingError\<close> only the variants the modelled code returns are listed.
\<close>

datatype DelegationSetupField = PaddedNoteSecrets | PcztSighash | Tx1Effects | DelegationPczt

datatype VotingError =
    DelegationPcztUnavailable unicode u32
  | InvalidInput unicode
  | KeystoneSignatureConflict u32
  | ProofFailed unicode
  | Busy unicode
  | Storage unicode
  | Internal unicode
  | InsufficientEligibility nat nat "nat option" nat nat
  | NoSpendableNotes nat
  | SetupAlreadyPersisted unicode u32 DelegationSetupField
  | DbBusy unicode
  | PirUnavailable "unicode option" "u16 option" bool unicode
  | DelegationTargetMismatch u32 bool bool
  | DelegationAlreadyBroadcast u32 unicode

fun voting_error_retryable :: "VotingError \<Rightarrow> bool" where
  "voting_error_retryable (Busy _) = True"
| "voting_error_retryable (DbBusy _) = True"
| "voting_error_retryable (PirUnavailable _ _ retryable _) = retryable"
| "voting_error_retryable _ = False"

fun with_snapshot_height :: "VotingError \<Rightarrow> nat \<Rightarrow> VotingError" where
  "with_snapshot_height (InsufficientEligibility required selected None slots selected_notes) height =
     InsufficientEligibility required selected (Some height) slots selected_notes"
| "with_snapshot_height other height = other"

record NoteInfo =
  note_commitment :: bytes
  note_nullifier :: bytes
  note_value :: u64
  note_position :: u64
  note_diversifier :: bytes
  note_rho :: bytes
  note_rseed :: bytes
  note_scope :: u32
  note_ufvk_str :: unicode

definition BALLOT_DIVISOR :: nat where
  "BALLOT_DIVISOR = 12500000"

definition BUNDLE_NOTE_SLOTS :: nat where
  "BUNDLE_NOTE_SLOTS = 5"

definition validate_32_bytes :: "bytes \<Rightarrow> unicode \<Rightarrow> VotingError + unit" where
  "validate_32_bytes v name =
     ensure (length v = 32)
       (InvalidInput (name @ lit '' must be 32 bytes, got '' @ lit (decimal (length v))))"

fun validate_notes_from :: "nat \<Rightarrow> NoteInfo list \<Rightarrow> VotingError + unit" where
  "validate_notes_from i [] = Inr ()"
| "validate_notes_from i (note # notes) =
     and_then (validate_32_bytes (note_commitment note)
                 (lit ''notes['' @ lit (decimal i) @ lit ''].commitment'')) (\<lambda>_.
     and_then (validate_32_bytes (note_nullifier note)
                 (lit ''notes['' @ lit (decimal i) @ lit ''].nullifier'')) (\<lambda>_.
       validate_notes_from (Suc i) notes))"

definition validate_notes_for_round :: "NoteInfo list \<Rightarrow> VotingError + unit" where
  "validate_notes_for_round notes =
     (if notes = [] then Inl (InvalidInput (lit ''notes must not be empty''))
      else validate_notes_from 0 notes)"

lemma validate_notes_from_ok:
  "validate_notes_from i ns = Inr () \<longleftrightarrow>
     (\<forall>note \<in> set ns. length (note_commitment note) = 32 \<and> length (note_nullifier note) = 32)"
  by (induction i ns rule: validate_notes_from.induct) (auto simp: validate_32_bytes_def)

lemma validate_notes_for_round_ok:
  "validate_notes_for_round notes = Inr () \<longleftrightarrow>
     notes \<noteq> []
     \<and> (\<forall>note \<in> set notes. length (note_commitment note) = 32 \<and> length (note_nullifier note) = 32)"
  by (simp add: validate_notes_for_round_def validate_notes_from_ok)

end
