(* ===== verification/Vote_Recovery.thy ===== *)
theory Vote_Recovery
  imports Submission_Identity Voting_Types Http_Text "HOL-Library.Option_ord"
begin

text \<open>
  The recovery material of a signed vote (\<open>vote.rs\<close>): the bundle persisted after a commit, its
  JSON form with the formats that tell single votes, batch members and members of a combined
  batch apart, the digests that the votes sign (\<open>vote_commitment.rs\<close> and
  \<open>delegate_and_vote_batch/authorization.rs\<close>), and the assembly of a batch from its persisted
  members.

  The record \<open>recovery_codec\<close> holds what the code takes from libraries: hex, Pallas canonicity,
  BLAKE2b and serde\<open>_\<close>json.
\<close>

section \<open>Validation of vote fields\<close>

definition MIN_VOTE_OPTIONS :: u32 where
  "MIN_VOTE_OPTIONS = 2"

definition MAX_VOTE_OPTIONS :: u32 where
  "MAX_VOTE_OPTIONS = 8"

abbreviation show_u32 :: "u32 \<Rightarrow> unicode" where
  "show_u32 n \<equiv> lit (decimal (unat n))"

definition validate_proposal_id :: "u32 \<Rightarrow> VotingError + unit" where
  "validate_proposal_id pid =
     ensure (MIN_PROPOSAL_ID \<le> pid \<and> pid \<le> MAX_PROPOSAL_ID)
       (InvalidInput (lit ''proposal_id must be '' @ show_u32 MIN_PROPOSAL_ID @ lit ''..=''
          @ show_u32 MAX_PROPOSAL_ID @ lit '', got '' @ show_u32 pid))"

definition validate_vote_options :: "u32 \<Rightarrow> VotingError + unit" where
  "validate_vote_options num_options =
     ensure (MIN_VOTE_OPTIONS \<le> num_options \<and> num_options \<le> MAX_VOTE_OPTIONS)
       (InvalidInput (lit ''num_options must be '' @ show_u32 MIN_VOTE_OPTIONS @ lit ''..=''
          @ show_u32 MAX_VOTE_OPTIONS @ lit '', got '' @ show_u32 num_options))"

definition validate_vote_decision :: "u32 \<Rightarrow> u32 \<Rightarrow> VotingError + unit" where
  "validate_vote_decision decision num_options =
     and_then (validate_vote_options num_options) (\<lambda>_.
     ensure (decision < num_options)
       (InvalidInput (lit ''vote_decision must be in [0, '' @ show_u32 num_options @ lit ''), got ''
          @ show_u32 decision)))"

section \<open>Recovery bundles\<close>

record EncryptedShare =
  share_c1 :: bytes
  share_c2 :: bytes
  enc_share_index :: u32
  plaintext_value :: u64
  randomness :: bytes

record VoteBatchRecovery =
  batch_delegation_van :: "bytes option"
  recovery_digest :: bytes
  recovery_index :: u32
  recovery_size :: u32

record VoteRecoveryBundle =
  rec_vote_round_id :: unicode
  rec_bundle_index :: u32
  rec_proposal_id :: u32
  rec_vote_decision :: u32
  rec_anchor_height :: u32
  rec_vc_tree_position :: u64
  rec_single_share :: bool
  rec_num_options :: u32
  rec_van_nullifier :: bytes
  rec_vote_authority_note_new :: bytes
  rec_vote_commitment :: bytes
  rec_proof :: bytes
  rec_shares_hash :: bytes
  rec_r_vpk :: bytes
  rec_alpha_v :: bytes
  rec_vote_auth_sig :: bytes
  rec_encrypted_shares :: "EncryptedShare list"
  rec_share_blinds :: "bytes list"
  rec_share_comms :: "bytes list"
  rec_batch :: "VoteBatchRecovery option"

text \<open>
  The JSON document; \<open>EncryptedShareJson\<close> has the fields of \<open>EncryptedShare\<close>.
\<close>

record VoteRecoveryJson =
  json_format :: unicode
  json_vote_round_id :: unicode
  json_bundle_index :: u32
  json_proposal_id :: u32
  json_vote_decision :: u32
  json_anchor_height :: u32
  json_vc_tree_position :: u64
  json_single_share :: bool
  json_num_options :: u32
  json_van_nullifier :: bytes
  json_vote_authority_note_new :: bytes
  json_vote_commitment :: bytes
  json_proof :: bytes
  json_shares_hash :: bytes
  json_r_vpk :: bytes
  json_alpha_v :: bytes
  json_vote_auth_sig :: bytes
  json_encrypted_shares :: "EncryptedShare list"
  json_share_blinds :: "bytes list"
  json_share_comms :: "bytes list"
  json_batch_digest :: "bytes option"
  json_delegation_van :: "bytes option"
  json_batch_index :: "u32 option"
  json_batch_size :: "u32 option"

record recovery_codec =
  rc_hex_encode :: "bytes \<Rightarrow> unicode"
  rc_hex_decode :: "unicode \<Rightarrow> unicode + bytes"
  rc_pallas_canonical :: "bytes \<Rightarrow> bool"
  rc_blake2b :: "bytes \<Rightarrow> bytes"
  rc_from_json :: "unicode \<Rightarrow> unicode + VoteRecoveryJson"
  rc_to_json :: "VoteRecoveryJson \<Rightarrow> unicode + unicode"
  rc_json_markers :: "unicode \<Rightarrow> unicode + (string \<Rightarrow> bool)"
  rc_commitment_json :: "(string \<times> unicode) list \<Rightarrow> unicode + bytes"

definition validate_vote_round_id_hex :: "recovery_codec \<Rightarrow> unicode \<Rightarrow> VotingError + unit" where
  "validate_vote_round_id_hex codec round_id =
     (if length (as_bytes round_id) \<noteq> 64
      then Inl (InvalidInput (lit ''vote_round_id must be 64 lowercase hex characters, got ''
        @ lit (decimal (length (as_bytes round_id)))))
      else if \<not> list_all canonical_hex_byte (as_bytes round_id)
      then Inl (InvalidInput (lit ''vote_round_id must be lowercase hex''))
      else
        and_then (map_err (\<lambda>e. InvalidInput (lit ''vote_round_id is not valid hex: '' @ e))
                    (rc_hex_decode codec round_id)) (\<lambda>decoded_bytes.
        map_err (\<lambda>message. InvalidInput (lit message))
          (validate_vote_round_id_bytes (rc_pallas_canonical codec) decoded_bytes)))"

definition validate_recovery_bundle_vote_fields ::
  "recovery_codec \<Rightarrow> VoteRecoveryBundle \<Rightarrow> VotingError + unit" where
  "validate_recovery_bundle_vote_fields codec bundle =
     and_then (validate_vote_round_id_hex codec (rec_vote_round_id bundle)) (\<lambda>_.
     and_then (validate_proposal_id (rec_proposal_id bundle)) (\<lambda>_.
     validate_vote_decision (rec_vote_decision bundle) (rec_num_options bundle)))"

section \<open>The JSON form\<close>

definition VOTE_RECOVERY_FORMAT :: unicode where
  "VOTE_RECOVERY_FORMAT = lit ''zcash_voting_vote_recovery_v1''"

definition DELEGATE_AND_VOTE_BATCH_RECOVERY_FORMAT :: unicode where
  "DELEGATE_AND_VOTE_BATCH_RECOVERY_FORMAT = lit ''zcash_voting_delegate_cast_recovery_v1''"

definition VOTE_BATCH_RECOVERY_FORMAT :: unicode where
  "VOTE_BATCH_RECOVERY_FORMAT = lit ''zcash_voting_vote_batch_recovery_v1''"

definition json_from_bundle :: "VoteRecoveryBundle \<Rightarrow> VoteRecoveryJson" where
  "json_from_bundle b =
     \<lparr>json_format = (case rec_batch b of
          Some batch \<Rightarrow> if batch_delegation_van batch \<noteq> None
                        then DELEGATE_AND_VOTE_BATCH_RECOVERY_FORMAT else VOTE_BATCH_RECOVERY_FORMAT
        | None \<Rightarrow> VOTE_RECOVERY_FORMAT),
      json_vote_round_id = rec_vote_round_id b, json_bundle_index = rec_bundle_index b,
      json_proposal_id = rec_proposal_id b, json_vote_decision = rec_vote_decision b,
      json_anchor_height = rec_anchor_height b, json_vc_tree_position = rec_vc_tree_position b,
      json_single_share = rec_single_share b, json_num_options = rec_num_options b,
      json_van_nullifier = rec_van_nullifier b,
      json_vote_authority_note_new = rec_vote_authority_note_new b,
      json_vote_commitment = rec_vote_commitment b, json_proof = rec_proof b,
      json_shares_hash = rec_shares_hash b, json_r_vpk = rec_r_vpk b, json_alpha_v = rec_alpha_v b,
      json_vote_auth_sig = rec_vote_auth_sig b, json_encrypted_shares = rec_encrypted_shares b,
      json_share_blinds = rec_share_blinds b, json_share_comms = rec_share_comms b,
      json_batch_digest = map_option recovery_digest (rec_batch b),
      json_delegation_van = Option.bind (rec_batch b) batch_delegation_van,
      json_batch_index = map_option recovery_index (rec_batch b),
      json_batch_size = map_option recovery_size (rec_batch b)\<rparr>"

definition array32 :: "unicode \<Rightarrow> bytes \<Rightarrow> VotingError + bytes" where
  "array32 label v =
     (if length v = 32 then Inr v
      else Inl (Internal (label @ lit '' must be 32 bytes, got '' @ lit (decimal (length v)))))"

definition array64 :: "unicode \<Rightarrow> bytes \<Rightarrow> VotingError + bytes" where
  "array64 label v =
     (if length v = 64 then Inr v
      else Inl (Internal (label @ lit '' must be 64 bytes, got '' @ lit (decimal (length v)))))"

fun array32_from :: "unicode \<Rightarrow> nat \<Rightarrow> bytes list \<Rightarrow> VotingError + bytes list" where
  "array32_from label idx [] = Inr []"
| "array32_from label idx (v # vs) =
     and_then (array32 (label @ lit ''['' @ lit (decimal idx) @ lit '']'') v) (\<lambda>b.
     and_then (array32_from label (Suc idx) vs) (\<lambda>bs. Inr (b # bs)))"

definition array32_vec :: "unicode \<Rightarrow> bytes list \<Rightarrow> VotingError + bytes list" where
  "array32_vec label vs = array32_from label 0 vs"

definition batch_from_json :: "VoteRecoveryJson \<Rightarrow> VotingError + VoteBatchRecovery option" where
  "batch_from_json j =
     (case (json_batch_digest j, json_batch_index j, json_batch_size j) of
        (None, None, None) \<Rightarrow> Inr None
      | (Some digest, Some index, Some members) \<Rightarrow>
          if members = 0 \<or> unat members > MAX_VOTE_BATCH_ACTIONS \<or> index \<ge> members
          then Inl (InvalidInput (lit ''invalid vote batch recovery position index=''
            @ show_u32 index @ lit '', size='' @ show_u32 members))
          else and_then (array32 (lit ''batch_digest'') digest) (\<lambda>digest.
            Inr (Some \<lparr>batch_delegation_van = json_delegation_van j, recovery_digest = digest,
                       recovery_index = index, recovery_size = members\<rparr>))
      | _ \<Rightarrow> Inl (InvalidInput
          (lit ''vote batch recovery metadata must include digest, index, and size together'')))"

definition bundle_try_from :: "recovery_codec \<Rightarrow> VoteRecoveryJson \<Rightarrow> VotingError + VoteRecoveryBundle" where
  "bundle_try_from codec j =
     and_then (validate_vote_round_id_hex codec (json_vote_round_id j)) (\<lambda>_.
     and_then (validate_proposal_id (json_proposal_id j)) (\<lambda>_.
     and_then (validate_vote_decision (json_vote_decision j) (json_num_options j)) (\<lambda>_.
     and_then (batch_from_json j) (\<lambda>batch.
     and_then (array32 (lit ''van_nullifier'') (json_van_nullifier j)) (\<lambda>van_nullifier.
     and_then (array32 (lit ''vote_authority_note_new'') (json_vote_authority_note_new j)) (\<lambda>authority.
     and_then (array32 (lit ''vote_commitment'') (json_vote_commitment j)) (\<lambda>commitment.
     and_then (array32 (lit ''shares_hash'') (json_shares_hash j)) (\<lambda>shares_hash.
     and_then (array32 (lit ''r_vpk'') (json_r_vpk j)) (\<lambda>r_vpk.
     and_then (array32 (lit ''alpha_v'') (json_alpha_v j)) (\<lambda>alpha_v.
     and_then (array64 (lit ''vote_auth_sig'') (json_vote_auth_sig j)) (\<lambda>vote_auth_sig.
     and_then (array32_vec (lit ''share_blinds'') (json_share_blinds j)) (\<lambda>share_blinds.
     and_then (array32_vec (lit ''share_comms'') (json_share_comms j)) (\<lambda>share_comms.
     Inr \<lparr>rec_vote_round_id = json_vote_round_id j, rec_bundle_index = json_bundle_index j,
          rec_proposal_id = json_proposal_id j, rec_vote_decision = json_vote_decision j,
          rec_anchor_height = json_anchor_height j, rec_vc_tree_position = json_vc_tree_position j,
          rec_single_share = json_single_share j, rec_num_options = json_num_options j,
          rec_van_nullifier = van_nullifier, rec_vote_authority_note_new = authority,
          rec_vote_commitment = commitment, rec_proof = json_proof j, rec_shares_hash = shares_hash,
          rec_r_vpk = r_vpk, rec_alpha_v = alpha_v, rec_vote_auth_sig = vote_auth_sig,
          rec_encrypted_shares = json_encrypted_shares j, rec_share_blinds = share_blinds,
          rec_share_comms = share_comms, rec_batch = batch\<rparr>)))))))))))))"

definition serialize_recovery :: "recovery_codec \<Rightarrow> VoteRecoveryBundle \<Rightarrow> VotingError + unicode" where
  "serialize_recovery codec bundle =
     and_then (validate_recovery_bundle_vote_fields codec bundle) (\<lambda>_.
     map_err (\<lambda>e. Internal (lit ''failed to serialize vote recovery bundle: '' @ e))
       (rc_to_json codec (json_from_bundle bundle)))"

text \<open>The match on the format tag; the last named format falls through to the final arm.\<close>

definition check_recovery_format :: "VoteRecoveryJson \<Rightarrow> VotingError + unit" where
  "check_recovery_format j =
     (let has_batch_metadata = json_batch_digest j \<noteq> None \<or> json_batch_index j \<noteq> None
            \<or> json_batch_size j \<noteq> None in
      if json_format j = VOTE_RECOVERY_FORMAT \<and> \<not> has_batch_metadata \<and> json_delegation_van j = None
      then Inr ()
      else if json_format j = VOTE_BATCH_RECOVERY_FORMAT \<and> has_batch_metadata
        \<and> json_delegation_van j = None
      then Inr ()
      else if json_format j = DELEGATE_AND_VOTE_BATCH_RECOVERY_FORMAT \<and> has_batch_metadata
        \<and> json_delegation_van j \<noteq> None \<and> json_anchor_height j = 0
      then Inr ()
      else if json_format j = VOTE_RECOVERY_FORMAT \<or> json_format j = VOTE_BATCH_RECOVERY_FORMAT
      then Inl (InvalidInput (lit ''vote recovery format '' @ json_format j
        @ lit '' does not match its record contents''))
      else Inl (InvalidInput (lit ''unsupported vote recovery format: '' @ json_format j)))"

definition parse_recovery :: "recovery_codec \<Rightarrow> unicode \<Rightarrow> VotingError + VoteRecoveryBundle" where
  "parse_recovery codec json =
     and_then (map_err (\<lambda>e. InvalidInput (lit ''invalid vote recovery JSON: '' @ e))
                 (rc_from_json codec json)) (\<lambda>parsed.
     and_then (check_recovery_format parsed) (\<lambda>_. bundle_try_from codec parsed))"

section \<open>Signed digests\<close>

definition extend_padded32 :: "bytes \<Rightarrow> bytes" where
  "extend_padded32 b = take 32 b @ replicate (32 - length b) 0"

definition extend_u32_padded32 :: "u32 \<Rightarrow> bytes" where
  "extend_u32_padded32 v = rev (be_u32 v) @ replicate 28 0"

definition extend_u64_padded32 :: "u64 \<Rightarrow> bytes" where
  "extend_u64_padded32 v = rev (be_u64 v) @ replicate 24 0"

record CastVoteBatchSighashAction =
  act_r_vpk :: bytes
  act_van_nullifier :: bytes
  act_vote_authority_note_new :: bytes
  act_vote_commitment :: bytes
  act_proposal_id :: u32

definition cast_vote_batch_domain :: bytes where
  "cast_vote_batch_domain = ascii_bytes ''SVOTE_CAST_VOTE_BATCH_SIGHASH_V1''"

definition batch_action_transcript :: "nat \<times> CastVoteBatchSighashAction \<Rightarrow> bytes" where
  "batch_action_transcript = (\<lambda>(index, action).
     extend_u32_padded32 (of_nat index) @ extend_padded32 (act_r_vpk action)
     @ extend_padded32 (act_van_nullifier action) @ extend_padded32 (act_vote_authority_note_new action)
     @ extend_padded32 (act_vote_commitment action) @ extend_u32_padded32 (act_proposal_id action))"

definition cast_vote_batch_transcript :: "bytes \<Rightarrow> u64 \<Rightarrow> CastVoteBatchSighashAction list \<Rightarrow> bytes" where
  "cast_vote_batch_transcript round_bytes anchor_height actions =
     cast_vote_batch_domain @ extend_padded32 round_bytes @ extend_u64_padded32 anchor_height
     @ extend_u32_padded32 (of_nat (length actions))
     @ concat (map batch_action_transcript (enumerate 0 actions))"

definition cast_vote_batch_sighash ::
  "recovery_codec \<Rightarrow> unicode \<Rightarrow> u64 \<Rightarrow> CastVoteBatchSighashAction list \<Rightarrow> VotingError + bytes" where
  "cast_vote_batch_sighash codec round_id anchor_height actions =
     and_then (map_err (\<lambda>e. Internal (lit ''invalid vote_round_id hex: '' @ e))
                 (rc_hex_decode codec round_id)) (\<lambda>round_bytes.
     Inr (rc_blake2b codec (cast_vote_batch_transcript round_bytes anchor_height actions)))"

definition cast_vote_domain :: bytes where
  "cast_vote_domain = ascii_bytes ''SVOTE_CAST_VOTE_SIGHASH_V0''"

definition cast_vote_transcript ::
  "bytes \<Rightarrow> bytes \<Rightarrow> bytes \<Rightarrow> bytes \<Rightarrow> bytes \<Rightarrow> u32 \<Rightarrow> u32 \<Rightarrow> bytes" where
  "cast_vote_transcript round_bytes r_vpk van_nullifier authority commitment pid anchor_height =
     cast_vote_domain @ extend_padded32 round_bytes @ r_vpk @ extend_padded32 van_nullifier
     @ extend_padded32 authority @ extend_padded32 commitment
     @ extend_u32_padded32 pid @ extend_u64_padded32 (ucast anchor_height)"

definition cast_vote_sighash ::
  "recovery_codec \<Rightarrow> unicode \<Rightarrow> bytes \<Rightarrow> bytes \<Rightarrow> bytes \<Rightarrow> bytes \<Rightarrow> u32 \<Rightarrow> u32 \<Rightarrow> VotingError + bytes" where
  "cast_vote_sighash codec round_id r_vpk van_nullifier authority commitment pid anchor_height =
     and_then (map_err (\<lambda>e. Internal (lit ''invalid vote_round_id hex: '' @ e))
                 (rc_hex_decode codec round_id)) (\<lambda>round_bytes.
     Inr (rc_blake2b codec (cast_vote_transcript round_bytes r_vpk van_nullifier authority commitment
            pid anchor_height)))"

definition combined_batch_domain :: bytes where
  "combined_batch_domain = ascii_bytes ''SVOTE_DELEGATE_AND_CAST_VOTE_BATCH_SIGHASH_V1''"

definition append_integer :: "bytes \<Rightarrow> u32 \<Rightarrow> bytes" where
  "append_integer transcript integer = transcript @ rev (be_u32 integer) @ replicate 28 0"

definition append_field :: "bytes \<Rightarrow> bytes \<Rightarrow> VotingError + bytes" where
  "append_field transcript field =
     (if length field \<noteq> 32
      then Inl (InvalidInput (lit ''combined cast effect must contain exactly 32 bytes''))
      else Inr (transcript @ field))"

definition append_action ::
  "bytes \<times> u32 set \<Rightarrow> nat \<times> CastVoteBatchSighashAction \<Rightarrow> VotingError + bytes \<times> u32 set" where
  "append_action = (\<lambda>(transcript, proposals) (index, action).
     and_then (validate_proposal_id (act_proposal_id action)) (\<lambda>_.
     if act_proposal_id action \<in> proposals
     then Inl (InvalidInput (lit ''combined batch contains duplicate proposals''))
     else
       and_then (run_steps append_field (append_integer transcript (of_nat index))
           [act_r_vpk action, act_van_nullifier action, act_vote_authority_note_new action,
            act_vote_commitment action]) (\<lambda>transcript.
       Inr (append_integer transcript (act_proposal_id action),
            insert (act_proposal_id action) proposals))))"

definition delegate_and_vote_batch_sighash ::
  "recovery_codec \<Rightarrow> bytes \<Rightarrow> bytes \<Rightarrow> CastVoteBatchSighashAction list \<Rightarrow> VotingError + bytes" where
  "delegate_and_vote_batch_sighash codec round_bytes delegation_van actions =
     (if actions = [] \<or> length actions > MAX_VOTE_BATCH_ACTIONS
      then Inl (InvalidInput (lit ''combined batch action count is outside the protocol bounds''))
      else
        and_then (run_steps append_action
            (append_integer (combined_batch_domain @ round_bytes @ delegation_van)
               (of_nat (length actions)), {})
            (enumerate 0 actions)) (\<lambda>(transcript, proposals).
        Inr (rc_blake2b codec transcript)))"

section \<open>Assembling a persisted batch\<close>

definition sighash_action :: "VoteRecoveryBundle \<Rightarrow> CastVoteBatchSighashAction" where
  "sighash_action r =
     \<lparr>act_r_vpk = rec_r_vpk r, act_van_nullifier = rec_van_nullifier r,
      act_vote_authority_note_new = rec_vote_authority_note_new r,
      act_vote_commitment = rec_vote_commitment r, act_proposal_id = rec_proposal_id r\<rparr>"

definition member_of :: "bytes \<Rightarrow> VoteRecoveryBundle \<Rightarrow> bool" where
  "member_of digest r =
     (case rec_batch r of None \<Rightarrow> False | Some batch \<Rightarrow> recovery_digest batch = digest)"

definition misplaced_member :: "bytes \<Rightarrow> nat \<Rightarrow> nat \<times> VoteRecoveryBundle \<Rightarrow> bool" where
  "misplaced_member digest expected_size = (\<lambda>(index, r).
     case rec_batch r of
       None \<Rightarrow> True
     | Some batch \<Rightarrow> recovery_digest batch \<noteq> digest \<or> recovery_index batch \<noteq> of_nat index
         \<or> unat (recovery_size batch) \<noteq> expected_size)"

definition delegation_van_of :: "VoteRecoveryBundle \<Rightarrow> bytes option" where
  "delegation_van_of r = Option.bind (rec_batch r) batch_delegation_van"

definition recomputed_digest ::
  "recovery_codec \<Rightarrow> unicode \<Rightarrow> VoteRecoveryBundle list \<Rightarrow> VotingError + bytes" where
  "recomputed_digest codec round_id recoveries =
     (let actions = map sighash_action recoveries in
      case delegation_van_of (hd recoveries) of
        Some van \<Rightarrow>
          and_then (map_err InvalidInput (rc_hex_decode codec round_id)) (\<lambda>decoded_bytes.
          and_then (array32 (lit ''round_id'') decoded_bytes) (\<lambda>round_bytes.
          delegate_and_vote_batch_sighash codec round_bytes van actions))
      | None \<Rightarrow>
          cast_vote_batch_sighash codec round_id (ucast (rec_anchor_height (hd recoveries))) actions)"

definition assemble_vote_batch_recoveries ::
  "recovery_codec \<Rightarrow> unicode \<Rightarrow> u32 \<Rightarrow> bytes \<Rightarrow> VoteRecoveryBundle list
   \<Rightarrow> VotingError + VoteRecoveryBundle list" where
  "assemble_vote_batch_recoveries codec round_id bundle digest candidates =
     (let recoveries = sort_key (\<lambda>r. map_option recovery_index (rec_batch r))
            (filter (member_of digest) candidates) in
      and_then (ok_or (InvalidInput (lit ''vote batch recovery not found for round='' @ round_id
          @ lit '', bundle='' @ show_u32 bundle @ lit '', digest='' @ rc_hex_encode codec digest))
        (Option.bind (case recoveries of [] \<Rightarrow> None | r # _ \<Rightarrow> rec_batch r)
           (\<lambda>batch. Some (unat (recovery_size batch))))) (\<lambda>expected_size.
      if length recoveries \<noteq> expected_size
         \<or> list_ex (misplaced_member digest expected_size) (enumerate 0 recoveries)
      then Inl (InvalidInput (lit ''persisted atomic vote batch is incomplete or out of order''))
      else
        let initial_van = delegation_van_of (hd recoveries) in
        if list_ex (\<lambda>r. delegation_van_of r \<noteq> initial_van
             \<or> initial_van \<noteq> None \<and> rec_anchor_height r \<noteq> 0) recoveries
        then Inl (InvalidInput (lit ''inconsistent combined batch authorization''))
        else
          and_then (recomputed_digest codec round_id recoveries) (\<lambda>recomputed.
          if recomputed \<noteq> digest
          then Inl (InvalidInput
            (lit ''persisted atomic vote batch digest does not match its actions''))
          else Inr recoveries)))"

section \<open>Comparison with the stored vote\<close>

definition stored_vote_commitment_bytes :: "recovery_codec \<Rightarrow> VoteRecoveryBundle \<Rightarrow> VotingError + bytes" where
  "stored_vote_commitment_bytes codec bundle =
     map_err (\<lambda>e. Internal (lit ''failed to serialize vote commitment: '' @ e))
       (rc_commitment_json codec
          [(''van_nullifier'', rc_hex_encode codec (rec_van_nullifier bundle)),
           (''vote_authority_note_new'', rc_hex_encode codec (rec_vote_authority_note_new bundle)),
           (''vote_commitment'', rc_hex_encode codec (rec_vote_commitment bundle)),
           (''proof'', rc_hex_encode codec (rec_proof bundle))])"

definition vote_label :: "unicode \<Rightarrow> u32 \<Rightarrow> u32 \<Rightarrow> unicode" where
  "vote_label round_id bundle pid =
     lit ''round='' @ round_id @ lit '', bundle='' @ show_u32 bundle @ lit '', proposal='' @ show_u32 pid"

definition vote_recovery_identity_mismatch_error :: "unicode \<Rightarrow> u32 \<Rightarrow> u32 \<Rightarrow> string \<Rightarrow> VotingError" where
  "vote_recovery_identity_mismatch_error round_id bundle pid field =
     InvalidInput (lit ''vote recovery bundle '' @ lit field @ lit '' mismatch for ''
       @ vote_label round_id bundle pid)"

definition show_int :: "int \<Rightarrow> unicode" where
  "show_int i = (if i < 0 then lit ''-'' @ lit (decimal (nat (- i))) else lit (decimal (nat i)))"

definition invalid_stored_choice_error :: "int \<Rightarrow> VotingError" where
  "invalid_stored_choice_error stored_choice =
     Internal (lit ''stored vote choice must be non-negative, got '' @ show_int stored_choice)"

definition validate_recovery_matches_stored_vote ::
  "recovery_codec \<Rightarrow> VoteRecoveryBundle \<Rightarrow> unicode \<Rightarrow> u32 \<Rightarrow> u32 \<Rightarrow> int \<Rightarrow> bytes option
   \<Rightarrow> VotingError + unit" where
  "validate_recovery_matches_stored_vote codec recovery round_id bundle pid stored_choice stored_commitment =
     (let mismatch = vote_recovery_identity_mismatch_error round_id bundle pid in
      and_then (ensure (rec_vote_round_id recovery = round_id) (mismatch ''round_id'')) (\<lambda>_.
      and_then (ensure (rec_bundle_index recovery = bundle) (mismatch ''bundle_index'')) (\<lambda>_.
      and_then (ensure (rec_proposal_id recovery = pid) (mismatch ''proposal_id'')) (\<lambda>_.
      and_then (ensure (0 \<le> stored_choice \<and> stored_choice < 2 ^ 32)
        (invalid_stored_choice_error stored_choice)) (\<lambda>_.
      and_then (ensure (int (unat (rec_vote_decision recovery)) = stored_choice)
        (mismatch ''vote_decision'')) (\<lambda>_.
      case stored_commitment of
        None \<Rightarrow> Inr ()
      | Some stored \<Rightarrow>
          and_then (stored_vote_commitment_bytes codec recovery) (\<lambda>recovered.
          ensure (stored = recovered) (mismatch ''commitment''))))))))"

end
