(* ===== verification/Voting_Tables.thy ===== *)
theory Voting_Tables
  imports Vote_Recovery
begin

text \<open>
  The tables of the voting domain that a confirmed or rejected submission touches, with the
  queries of \<open>storage/queries/mod.rs\<close> and \<open>vote.rs\<close> over them and the triggers of
  \<open>storage/migrations/001_init.sql\<close> that a changed vote fires.

  A table is the list of its rows; a row has the columns these operations read or write.  A
  statement that fails inside SQLite aborts the transaction like a failed commit, so the queries
  have no such branch here.  \<open>json_set\<close> and \<open>json_extract\<close> of SQLite are parameters.
\<close>

section \<open>Rows\<close>

record BundleRow =
  bundle_round :: unicode
  bundle_wallet :: bytes
  bundle_number :: int
  van_leaf_position :: "int option"
  delegation_tx_hash :: "unicode option"

record VoteRow =
  vote_round :: unicode
  vote_wallet :: bytes
  vote_bundle :: int
  vote_proposal :: int
  vote_choice :: int
  vote_commitment_blob :: "bytes option"
  vote_tx_hash :: "unicode option"
  vote_vc_position :: "int option"
  vote_recovery_json :: "unicode option"

record IntentRow =
  intent_round :: unicode
  intent_wallet :: bytes
  intent_proposal :: int
  intent_skipped :: int
  intent_choice :: "int option"

record PlanRow =
  plan_round :: unicode
  plan_wallet :: bytes
  plan_bundle :: int
  plan_proposal :: int
  plan_recovery_json :: unicode

record ImmediateRow =
  immediate_round :: unicode
  immediate_wallet :: bytes
  immediate_bundle :: int
  immediate_proposal :: int

record ShareRow =
  share_row_round :: unicode
  share_row_wallet :: bytes
  share_row_bundle :: int
  share_row_proposal :: int
  share_row_index :: int

record AuthorizationRow =
  authorization_round :: unicode
  authorization_wallet :: bytes
  authorization_bundle :: int
  authorization_batch_digest :: bytes
  authorization_generation_digest :: bytes

record RejectionRow =
  rejection_round :: unicode
  rejection_wallet :: bytes
  rejection_bundle :: int
  rejection_generation_digest :: bytes
  consecutive_rejections :: int
  last_batch_digest :: bytes
  last_diagnostic_kind :: string
  last_diagnostic :: string
  first_rejected_at :: int
  last_rejected_at :: int

record voting_tables =
  bundles :: "BundleRow list"
  votes :: "VoteRow list"
  ballot_intent :: "IntentRow list"
  helper_share_plans :: "PlanRow list"
  round_immediate_share :: "ImmediateRow list"
  share_delegations :: "ShareRow list"
  delegate_cast_recovery :: "AuthorizationRow list"
  combined_cast_rejections :: "RejectionRow list"

record table_codec =
  tc_recovery :: recovery_codec
  tc_json_set_position :: "unicode \<Rightarrow> int \<Rightarrow> unicode"
  tc_json_has_delegation_van :: "unicode \<Rightarrow> bool"

abbreviation int_u32 :: "u32 \<Rightarrow> int" where
  "int_u32 w \<equiv> int (unat w)"

definition is_bundle :: "unicode \<Rightarrow> bytes \<Rightarrow> u32 \<Rightarrow> BundleRow \<Rightarrow> bool" where
  "is_bundle rid wid b row \<longleftrightarrow>
     bundle_round row = rid \<and> bundle_wallet row = wid \<and> bundle_number row = int_u32 b"

definition is_vote :: "unicode \<Rightarrow> bytes \<Rightarrow> u32 \<Rightarrow> u32 \<Rightarrow> VoteRow \<Rightarrow> bool" where
  "is_vote rid wid b pid row \<longleftrightarrow>
     vote_round row = rid \<and> vote_wallet row = wid \<and> vote_bundle row = int_u32 b
     \<and> vote_proposal row = int_u32 pid"

text \<open>The rows that match, and the updated table with the number of rows it changed.\<close>

definition update_where :: "('r \<Rightarrow> bool) \<Rightarrow> ('r \<Rightarrow> 'r) \<Rightarrow> 'r list \<Rightarrow> 'r list" where
  "update_where P f rows = map (\<lambda>r. if P r then f r else r) rows"

definition delete_where :: "('r \<Rightarrow> bool) \<Rightarrow> 'r list \<Rightarrow> 'r list" where
  "delete_where P rows = filter (\<lambda>r. \<not> P r) rows"

definition fits_i64 :: "u64 \<Rightarrow> bool" where
  "fits_i64 w \<longleftrightarrow> unat w < 2 ^ 63"

section \<open>Bundles\<close>

definition bundle_text :: "unicode \<Rightarrow> u32 \<Rightarrow> unicode" where
  "bundle_text rid b = lit ''round='' @ rid @ lit '', bundle='' @ show_u32 b"

text \<open>
  The wallet id appears in messages as text; the rows keep its UTF-8 bytes, read back lossily.
\<close>

definition wallet_text :: "bytes \<Rightarrow> unicode" where
  "wallet_text wid = from_utf8_lossy wid"

definition bundle_label :: "unicode \<Rightarrow> bytes \<Rightarrow> u32 \<Rightarrow> unicode" where
  "bundle_label rid wid b =
     lit ''round='' @ rid @ lit '', wallet='' @ wallet_text wid @ lit '', bundle='' @ show_u32 b"

definition existing_delegation_tx_hash ::
  "voting_tables \<Rightarrow> unicode \<Rightarrow> bytes \<Rightarrow> u32 \<Rightarrow> unicode option option" where
  "existing_delegation_tx_hash t rid wid b = map_option delegation_tx_hash (find (is_bundle rid wid b) (bundles t))"

definition store_delegation_tx_hash ::
  "unicode \<Rightarrow> bytes \<Rightarrow> u32 \<Rightarrow> unicode \<Rightarrow> voting_tables \<Rightarrow> VotingError + voting_tables" where
  "store_delegation_tx_hash rid wid b tx_hash t =
     (let open_row = (\<lambda>row. is_bundle rid wid b row
            \<and> (delegation_tx_hash row = None \<or> delegation_tx_hash row = Some tx_hash)) in
      if list_ex open_row (bundles t)
      then Inr (t\<lparr>bundles := update_where open_row
             (\<lambda>row. row\<lparr>delegation_tx_hash := Some tx_hash\<rparr>) (bundles t)\<rparr>)
      else
        let missing = Inl (InvalidInput (lit ''no bundle found for '' @ bundle_label rid wid b)) in
        case existing_delegation_tx_hash t rid wid b of
          Some existing \<Rightarrow>
            if existing = Some tx_hash then Inr t
            else if existing \<noteq> None
            then Inl (InvalidInput (lit ''delegation tx hash already recorded for '' @ bundle_label rid wid b))
            else missing
        | None \<Rightarrow> missing)"

definition store_van_position_u64 ::
  "unicode \<Rightarrow> bytes \<Rightarrow> u32 \<Rightarrow> u64 \<Rightarrow> voting_tables \<Rightarrow> VotingError + voting_tables" where
  "store_van_position_u64 rid wid b position t =
     and_then (ensure (fits_i64 position) (InvalidInput (lit ''VAN leaf position ''
       @ lit (decimal (unat position)) @ lit '' does not fit in SQLite i64''))) (\<lambda>_.
     if list_ex (is_bundle rid wid b) (bundles t)
     then Inr (t\<lparr>bundles := update_where (is_bundle rid wid b)
            (\<lambda>row. row\<lparr>van_leaf_position := Some (int (unat position))\<rparr>) (bundles t)\<rparr>)
     else Inl (InvalidInput (lit ''bundle not found: '' @ bundle_text rid b)))"

section \<open>Votes and their triggers\<close>

text \<open>
  The condition both triggers share: the update fills the tree position and changes nothing else
  of the recovery document.  \<open>None\<close> is SQL's \<open>NULL\<close>, the comparison with a missing document.
\<close>

definition position_only :: "table_codec \<Rightarrow> VoteRow \<Rightarrow> VoteRow \<Rightarrow> bool option" where
  "position_only codec old new =
     (if vote_vc_position old \<noteq> None then Some False
      else case vote_vc_position new of
          None \<Rightarrow> Some False
        | Some position \<Rightarrow> (case (vote_recovery_json old, vote_recovery_json new) of
              (Some old_json, Some new_json) \<Rightarrow>
                Some (tc_json_set_position codec old_json position = new_json)
            | _ \<Rightarrow> None))"

definition is_plan_of :: "VoteRow \<Rightarrow> PlanRow \<Rightarrow> bool" where
  "is_plan_of vote plan \<longleftrightarrow>
     plan_round plan = vote_round vote \<and> plan_wallet plan = vote_wallet vote
     \<and> plan_bundle plan = vote_bundle vote \<and> plan_proposal plan = vote_proposal vote"

definition is_immediate_of :: "VoteRow \<Rightarrow> ImmediateRow \<Rightarrow> bool" where
  "is_immediate_of vote row \<longleftrightarrow>
     immediate_round row = vote_round vote \<and> immediate_wallet row = vote_wallet vote
     \<and> immediate_bundle row = vote_bundle vote \<and> immediate_proposal row = vote_proposal vote"

definition clear_helper_share_plan_on_vote_generation_change ::
  "table_codec \<Rightarrow> VoteRow \<Rightarrow> VoteRow \<Rightarrow> PlanRow list \<Rightarrow> PlanRow list" where
  "clear_helper_share_plan_on_vote_generation_change codec old new plans =
     (if vote_recovery_json old = vote_recovery_json new then plans
      else
        delete_where (\<lambda>plan. is_plan_of new plan \<and> Some (plan_recovery_json plan) \<noteq> vote_recovery_json new)
          (update_where (\<lambda>plan. is_plan_of new plan \<and> Some (plan_recovery_json plan) = vote_recovery_json old
               \<and> position_only codec old new = Some True)
             (\<lambda>plan. plan\<lparr>plan_recovery_json := the (vote_recovery_json new)\<rparr>) plans))"

definition clear_round_immediate_share_on_vote_generation_change ::
  "table_codec \<Rightarrow> VoteRow \<Rightarrow> VoteRow \<Rightarrow> ImmediateRow list \<Rightarrow> ImmediateRow list" where
  "clear_round_immediate_share_on_vote_generation_change codec old new rows =
     (if vote_recovery_json old \<noteq> vote_recovery_json new \<and> position_only codec old new = Some False
      then delete_where (is_immediate_of new) rows
      else rows)"

definition generation_triggers ::
  "table_codec \<Rightarrow> VoteRow \<Rightarrow> VoteRow \<Rightarrow> voting_tables \<Rightarrow> voting_tables" where
  "generation_triggers codec old new t =
     t\<lparr>helper_share_plans :=
          clear_helper_share_plan_on_vote_generation_change codec old new (helper_share_plans t),
       round_immediate_share :=
          clear_round_immediate_share_on_vote_generation_change codec old new (round_immediate_share t)\<rparr>"

text \<open>An \<open>UPDATE votes\<close>, with the triggers of every row it changed.\<close>

definition update_votes ::
  "table_codec \<Rightarrow> (VoteRow \<Rightarrow> bool) \<Rightarrow> (VoteRow \<Rightarrow> VoteRow) \<Rightarrow> voting_tables \<Rightarrow> voting_tables" where
  "update_votes codec P f t =
     fold (\<lambda>old. generation_triggers codec old (f old)) (filter P (votes t))
       (t\<lparr>votes := update_where P f (votes t)\<rparr>)"

definition vote_label_wallet :: "unicode \<Rightarrow> bytes \<Rightarrow> u32 \<Rightarrow> u32 \<Rightarrow> unicode" where
  "vote_label_wallet rid wid b pid = bundle_label rid wid b @ lit '', proposal='' @ show_u32 pid"

definition is_intent :: "unicode \<Rightarrow> bytes \<Rightarrow> u32 \<Rightarrow> IntentRow \<Rightarrow> bool" where
  "is_intent rid wid pid row \<longleftrightarrow>
     intent_round row = rid \<and> intent_wallet row = wid \<and> intent_proposal row = int_u32 pid"

definition ensure_vote_submission_matches_ballot_intent ::
  "unicode \<Rightarrow> bytes \<Rightarrow> u32 \<Rightarrow> u32 \<Rightarrow> voting_tables \<Rightarrow> VotingError + unit" where
  "ensure_vote_submission_matches_ballot_intent rid wid b pid t =
     (case find (is_intent rid wid pid) (ballot_intent t) of
        None \<Rightarrow> Inr ()
      | Some intent \<Rightarrow> (case find (is_vote rid wid b pid) (votes t) of
            None \<Rightarrow> Inr ()
          | Some vote \<Rightarrow>
              if intent_skipped intent \<noteq> 0
              then Inl (InvalidInput (lit ''cannot record vote submission for skipped proposal ''
                @ vote_label_wallet rid wid b pid))
              else case intent_choice intent of
                  None \<Rightarrow> Inl (InvalidInput (lit ''ballot intent choice missing for round='' @ rid
                    @ lit '', wallet='' @ wallet_text wid @ lit '', proposal='' @ show_u32 pid))
                | Some choice \<Rightarrow>
                    if vote_choice vote = choice then Inr ()
                    else Inl (InvalidInput (lit ''vote submission conflicts with ballot intent for ''
                      @ vote_label_wallet rid wid b pid))))"

text \<open>The intent clause of the \<open>UPDATE\<close> of \<open>record_vote_submission\<close>.\<close>

definition intent_allows :: "unicode \<Rightarrow> bytes \<Rightarrow> u32 \<Rightarrow> voting_tables \<Rightarrow> VoteRow \<Rightarrow> bool" where
  "intent_allows rid wid pid t vote \<longleftrightarrow>
     \<not> list_ex (is_intent rid wid pid) (ballot_intent t)
     \<or> list_ex (\<lambda>intent. is_intent rid wid pid intent \<and> intent_skipped intent = 0
          \<and> intent_choice intent = Some (vote_choice vote)) (ballot_intent t)"

definition record_vote_submission ::
  "table_codec \<Rightarrow> unicode \<Rightarrow> bytes \<Rightarrow> u32 \<Rightarrow> u32 \<Rightarrow> unicode \<Rightarrow> voting_tables
   \<Rightarrow> VotingError + voting_tables" where
  "record_vote_submission codec rid wid b pid tx_hash t =
     and_then (ensure_vote_submission_matches_ballot_intent rid wid b pid t) (\<lambda>_.
     let open_row = (\<lambda>vote. is_vote rid wid b pid vote
           \<and> (vote_tx_hash vote = None \<or> vote_tx_hash vote = Some tx_hash)
           \<and> intent_allows rid wid pid t vote) in
     if list_ex open_row (votes t)
     then Inr (update_votes codec open_row (\<lambda>vote. vote\<lparr>vote_tx_hash := Some tx_hash\<rparr>) t)
     else
       and_then (ensure_vote_submission_matches_ballot_intent rid wid b pid t) (\<lambda>_.
       let missing = Inl (InvalidInput (lit ''no vote found for '' @ vote_label_wallet rid wid b pid)) in
       case map_option vote_tx_hash (find (is_vote rid wid b pid) (votes t)) of
         Some existing \<Rightarrow>
           if existing = Some tx_hash then Inr t
           else if existing \<noteq> None
           then Inl (InvalidInput (lit ''vote tx hash already recorded for ''
             @ vote_label_wallet rid wid b pid))
           else missing
       | None \<Rightarrow> missing))"

section \<open>Commitment positions\<close>

definition vote_not_found_error :: "unicode \<Rightarrow> u32 \<Rightarrow> u32 \<Rightarrow> VotingError" where
  "vote_not_found_error rid b pid = InvalidInput (lit ''vote not found for '' @ vote_label rid b pid)"

definition vc_position_already_recorded_error :: "unicode \<Rightarrow> u32 \<Rightarrow> u32 \<Rightarrow> VotingError" where
  "vc_position_already_recorded_error rid b pid =
     InvalidInput (lit ''vote commitment tree position already recorded for '' @ vote_label rid b pid)"

definition invalid_stored_vc_position_error :: "int \<Rightarrow> VotingError" where
  "invalid_stored_vc_position_error stored =
     Internal (lit ''stored vc_tree_position must be non-negative, got '' @ show_int stored)"

definition vote_identity_changed_error :: "unicode \<Rightarrow> u32 \<Rightarrow> u32 \<Rightarrow> string \<Rightarrow> VotingError" where
  "vote_identity_changed_error rid b pid action =
     InvalidInput (lit ''vote changed while '' @ lit action @ lit '' for '' @ vote_label rid b pid
       @ lit ''; retry with the current ballot intent'')"

definition handle_vote_identity_update_miss ::
  "voting_tables \<Rightarrow> unicode \<Rightarrow> bytes \<Rightarrow> u32 \<Rightarrow> u32 \<Rightarrow> int \<Rightarrow> bytes option \<Rightarrow> string
   \<Rightarrow> VotingError + unit" where
  "handle_vote_identity_update_miss t rid wid b pid choice commitment action =
     (case find (is_vote rid wid b pid) (votes t) of
        None \<Rightarrow> Inl (vote_not_found_error rid b pid)
      | Some vote \<Rightarrow>
          if vote_choice vote = choice \<and> vote_commitment_blob vote = commitment then Inr ()
          else Inl (vote_identity_changed_error rid b pid action))"

definition handle_vc_position_update_miss ::
  "voting_tables \<Rightarrow> unicode \<Rightarrow> bytes \<Rightarrow> u32 \<Rightarrow> u32 \<Rightarrow> int \<Rightarrow> VotingError + unit" where
  "handle_vc_position_update_miss t rid wid b pid position =
     (case find (is_vote rid wid b pid) (votes t) of
        None \<Rightarrow> Inl (vote_not_found_error rid b pid)
      | Some vote \<Rightarrow> (case vote_vc_position vote of
            None \<Rightarrow> Inr ()
          | Some existing \<Rightarrow>
              if existing < 0 then Inl (invalid_stored_vc_position_error existing)
              else if existing \<noteq> position then Inl (vc_position_already_recorded_error rid b pid)
              else Inr ()))"

text \<open>The rows a position may be written to: unchanged since they were read, and unset or equal.\<close>

definition position_row ::
  "unicode \<Rightarrow> bytes \<Rightarrow> u32 \<Rightarrow> u32 \<Rightarrow> int \<Rightarrow> bytes option \<Rightarrow> int \<Rightarrow> VoteRow \<Rightarrow> bool" where
  "position_row rid wid b pid choice commitment position vote \<longleftrightarrow>
     is_vote rid wid b pid vote \<and> vote_choice vote = choice \<and> vote_commitment_blob vote = commitment
     \<and> (vote_vc_position vote = None \<or> vote_vc_position vote = Some position)"

abbreviation recording_position :: string where
  "recording_position \<equiv> ''recording vote commitment tree position''"

definition store_recovery_json_with_vc_position_if_unchanged ::
  "table_codec \<Rightarrow> bytes \<Rightarrow> unicode \<Rightarrow> u32 \<Rightarrow> u32 \<Rightarrow> int \<Rightarrow> bytes option \<Rightarrow> unicode \<Rightarrow> unicode \<Rightarrow> int
   \<Rightarrow> voting_tables \<Rightarrow> VotingError + voting_tables" where
  "store_recovery_json_with_vc_position_if_unchanged codec wid rid b pid choice commitment
       expected_json updated_json position t =
     (let open_row = (\<lambda>vote. position_row rid wid b pid choice commitment position vote
            \<and> vote_recovery_json vote = Some expected_json) in
      if list_ex open_row (votes t)
      then Inr (update_votes codec open_row
             (\<lambda>vote. vote\<lparr>vote_recovery_json := Some updated_json, vote_vc_position := Some position\<rparr>) t)
      else
        and_then (handle_vote_identity_update_miss t rid wid b pid choice commitment recording_position) (\<lambda>_.
        case find (is_vote rid wid b pid) (votes t) of
          None \<Rightarrow> Inl (vote_not_found_error rid b pid)
        | Some vote \<Rightarrow>
            if vote_recovery_json vote = Some updated_json \<and> vote_vc_position vote = Some position
            then Inr t
            else if vote_vc_position vote \<noteq> None \<and> vote_vc_position vote \<noteq> Some position
            then and_then (handle_vc_position_update_miss t rid wid b pid position) (\<lambda>_. Inr t)
            else Inl (vote_identity_changed_error rid b pid recording_position)))"

definition store_vc_position_if_unset_or_same ::
  "table_codec \<Rightarrow> bytes \<Rightarrow> unicode \<Rightarrow> u32 \<Rightarrow> u32 \<Rightarrow> int \<Rightarrow> bytes option \<Rightarrow> int
   \<Rightarrow> voting_tables \<Rightarrow> VotingError + voting_tables" where
  "store_vc_position_if_unset_or_same codec wid rid b pid choice commitment position t =
     (let open_row = position_row rid wid b pid choice commitment position in
      if list_ex open_row (votes t)
      then Inr (update_votes codec open_row (\<lambda>vote. vote\<lparr>vote_vc_position := Some position\<rparr>) t)
      else
        and_then (handle_vote_identity_update_miss t rid wid b pid choice commitment recording_position) (\<lambda>_.
        and_then (handle_vc_position_update_miss t rid wid b pid position) (\<lambda>_. Inr t)))"

definition record_vc_position_with_conn ::
  "table_codec \<Rightarrow> bytes \<Rightarrow> unicode \<Rightarrow> u32 \<Rightarrow> u32 \<Rightarrow> u64 \<Rightarrow> voting_tables
   \<Rightarrow> VotingError + voting_tables" where
  "record_vc_position_with_conn codec wid rid b pid position t =
     and_then (ensure (fits_i64 position) (InvalidInput (lit ''vc_tree_position ''
       @ lit (decimal (unat position)) @ lit '' does not fit in SQLite i64''))) (\<lambda>_.
     and_then (ok_or (vote_not_found_error rid b pid) (find (is_vote rid wid b pid) (votes t))) (\<lambda>vote.
     and_then (case vote_vc_position vote of
                 None \<Rightarrow> Inr ()
               | Some stored \<Rightarrow>
                   if stored < 0 then Inl (invalid_stored_vc_position_error stored)
                   else if stored \<noteq> int (unat position)
                   then Inl (vc_position_already_recorded_error rid b pid)
                   else Inr ()) (\<lambda>_.
     case vote_recovery_json vote of
       Some json \<Rightarrow>
         and_then (parse_recovery (tc_recovery codec) json) (\<lambda>recovery.
         and_then (validate_recovery_matches_stored_vote (tc_recovery codec) recovery rid b pid
                     (vote_choice vote) (vote_commitment_blob vote)) (\<lambda>_.
         and_then (serialize_recovery (tc_recovery codec) (recovery\<lparr>rec_vc_tree_position := position\<rparr>))
           (\<lambda>updated_json.
         store_recovery_json_with_vc_position_if_unchanged codec wid rid b pid (vote_choice vote)
           (vote_commitment_blob vote) json updated_json (int (unat position)) t)))
     | None \<Rightarrow>
         store_vc_position_if_unset_or_same codec wid rid b pid (vote_choice vote)
           (vote_commitment_blob vote) (int (unat position)) t)))"

section \<open>Recovery rows\<close>

definition recovery_json_with_conn ::
  "voting_tables \<Rightarrow> bytes \<Rightarrow> unicode \<Rightarrow> u32 \<Rightarrow> u32 \<Rightarrow> unicode option" where
  "recovery_json_with_conn t wid rid b pid =
     Option.bind (find (is_vote rid wid b pid) (votes t)) vote_recovery_json"

definition ensure_singleton_vote_update_with_conn ::
  "table_codec \<Rightarrow> voting_tables \<Rightarrow> bytes \<Rightarrow> unicode \<Rightarrow> u32 \<Rightarrow> u32 \<Rightarrow> VotingError + unit" where
  "ensure_singleton_vote_update_with_conn codec t wid rid b pid =
     (case recovery_json_with_conn t wid rid b pid of
        None \<Rightarrow> Inr ()
      | Some json \<Rightarrow>
          and_then (map_err (\<lambda>e. InvalidInput (lit ''invalid vote recovery JSON: '' @ e))
                      (rc_json_markers (tc_recovery codec) json)) (\<lambda>marked.
          ensure (\<not> list_ex marked [''batch_digest'', ''batch_index'', ''batch_size''])
            (InvalidInput (lit (''vote belongs to an atomic batch; use the complete batch lifecycle ''
               @ ''instead of a per-vote API'')))))"

fun parse_rows :: "table_codec \<Rightarrow> unicode list \<Rightarrow> VotingError + VoteRecoveryBundle list" where
  "parse_rows codec [] = Inr []"
| "parse_rows codec (json # rows) =
     and_then (parse_recovery (tc_recovery codec) json) (\<lambda>recovery.
     and_then (parse_rows codec rows) (\<lambda>recoveries. Inr (recovery # recoveries)))"

definition recovery_rows :: "voting_tables \<Rightarrow> bytes \<Rightarrow> unicode \<Rightarrow> u32 \<Rightarrow> unicode list" where
  "recovery_rows t wid rid b =
     List.map_filter vote_recovery_json
       (filter (\<lambda>vote. vote_round vote = rid \<and> vote_wallet vote = wid \<and> vote_bundle vote = int_u32 b)
          (votes t))"

definition load_vote_batch_recoveries_with_conn ::
  "table_codec \<Rightarrow> voting_tables \<Rightarrow> bytes \<Rightarrow> unicode \<Rightarrow> u32 \<Rightarrow> bytes
   \<Rightarrow> VotingError + VoteRecoveryBundle list" where
  "load_vote_batch_recoveries_with_conn codec t wid rid b digest =
     and_then (parse_rows codec (recovery_rows t wid rid b)) (\<lambda>recoveries.
     assemble_vote_batch_recoveries (tc_recovery codec) rid b digest recoveries)"

definition clear_unsubmitted_vote_recovery_with_conn ::
  "table_codec \<Rightarrow> bytes \<Rightarrow> unicode \<Rightarrow> u32 \<Rightarrow> u32 \<Rightarrow> voting_tables \<Rightarrow> VotingError + voting_tables" where
  "clear_unsubmitted_vote_recovery_with_conn codec wid rid b pid t =
     (let open_row = (\<lambda>vote. is_vote rid wid b pid vote \<and> vote_tx_hash vote = None
            \<and> vote_vc_position vote = None) in
      if length (filter open_row (votes t)) \<noteq> 1
      then Inl (InvalidInput (lit ''vote recovery changed before it could be retired for ''
        @ vote_label rid b pid))
      else
        let t = update_votes codec open_row (\<lambda>vote. vote\<lparr>vote_recovery_json := None\<rparr>) t in
        Inr (t\<lparr>share_delegations := delete_where (\<lambda>share. share_row_round share = rid
               \<and> share_row_wallet share = wid \<and> share_row_bundle share = int_u32 b
               \<and> share_row_proposal share = int_u32 pid) (share_delegations t)\<rparr>))"

definition retire_combined_authorization_with_conn ::
  "table_codec \<Rightarrow> bytes \<Rightarrow> unicode \<Rightarrow> u32 \<Rightarrow> voting_tables \<Rightarrow> voting_tables" where
  "retire_combined_authorization_with_conn codec wid rid b t =
     t\<lparr>delegate_cast_recovery := delete_where (\<lambda>row. authorization_round row = rid
          \<and> authorization_wallet row = wid \<and> authorization_bundle row = int_u32 b
          \<and> \<not> list_ex (\<lambda>vote. vote_round vote = authorization_round row
                \<and> vote_wallet vote = authorization_wallet row
                \<and> vote_bundle vote = authorization_bundle row
                \<and> (case vote_recovery_json vote of
                     None \<Rightarrow> False | Some json \<Rightarrow> tc_json_has_delegation_van codec json)) (votes t))
        (delegate_cast_recovery t)\<rparr>"

definition clear_vote_batch_recovery_with_conn ::
  "table_codec \<Rightarrow> bytes \<Rightarrow> unicode \<Rightarrow> u32 \<Rightarrow> bytes \<Rightarrow> voting_tables
   \<Rightarrow> VotingError + u32 list \<times> voting_tables" where
  "clear_vote_batch_recovery_with_conn codec wid rid b digest t =
     and_then (load_vote_batch_recoveries_with_conn codec t wid rid b digest) (\<lambda>members.
     and_then (run_steps (\<lambda>t member. clear_unsubmitted_vote_recovery_with_conn codec wid rid b
                 (rec_proposal_id member) t) t members) (\<lambda>t.
     let cleared = map rec_proposal_id members in
     Inr (cleared,
          if cleared \<noteq> [] then retire_combined_authorization_with_conn codec wid rid b t else t)))"

end
