(* ===== verification/Confirmation_Projection.thy ===== *)
theory Confirmation_Projection
  imports Submission_Store Voting_Tables
begin

text \<open>
  The projection of a terminal submission onto the voting tables: \<open>confirmation.rs\<close> for
  confirmed delegations, votes and batches, and \<open>apply_confirmed_generation\<close>,
  \<open>retire_rejected_combined_generation\<close> and the rejection ledger of
  \<open>chain_submission/confirmation.rs\<close>.  Every operation runs inside the caller's transaction,
  which rolls back when it returns an error.
\<close>

section \<open>Checks\<close>

definition require_tree_position :: "u64 \<Rightarrow> string \<Rightarrow> Voting_Types.VotingError + unit" where
  "require_tree_position position field =
     ensure (position < TREE_CAPACITY) (VotingError.InvalidInput (lit field @ lit '' ''
       @ lit (decimal (unat position)) @ lit '' exceeds the commitment-tree capacity''))"

definition require_tx_hash :: "unicode \<Rightarrow> Voting_Types.VotingError + unit" where
  "require_tx_hash tx_hash =
     ensure (trim tx_hash \<noteq> []) (VotingError.InvalidInput (lit ''tx_hash must not be empty''))"

definition check_text_conflict :: "unicode option \<Rightarrow> unicode \<Rightarrow> string \<Rightarrow> Voting_Types.VotingError + unit" where
  "check_text_conflict existing requested field =
     (case existing of
        None \<Rightarrow> Inr ()
      | Some stored \<Rightarrow> ensure (stored = requested) (VotingError.InvalidInput (lit field
          @ lit '' conflict: stored '' @ stored @ lit '', requested '' @ requested)))"

definition load_bundle_confirmation_fields ::
  "voting_tables \<Rightarrow> unicode \<Rightarrow> bytes \<Rightarrow> u32 \<Rightarrow> Voting_Types.VotingError + unicode option \<times> int option" where
  "load_bundle_confirmation_fields t rid wid b =
     (case find (is_bundle rid wid b) (bundles t) of
        None \<Rightarrow> Inl (VotingError.InvalidInput (lit ''bundle not found for '' @ bundle_text rid b))
      | Some row \<Rightarrow> Inr (delegation_tx_hash row, van_leaf_position row))"

definition require_vote_recovery_json ::
  "voting_tables \<Rightarrow> unicode \<Rightarrow> bytes \<Rightarrow> u32 \<Rightarrow> u32 \<Rightarrow> Voting_Types.VotingError + unit" where
  "require_vote_recovery_json t rid wid b pid =
     (case find (is_vote rid wid b pid) (votes t) of
        None \<Rightarrow> Inl (VotingError.InvalidInput (lit ''vote not found for '' @ vote_label rid b pid))
      | Some vote \<Rightarrow> ensure (vote_recovery_json vote \<noteq> None)
          (VotingError.InvalidInput (lit ''vote recovery bundle not found for '' @ vote_label rid b pid)))"

definition i64_of :: "u64 \<Rightarrow> Voting_Types.VotingError + int" where
  "i64_of position =
     (if fits_i64 position then Inr (int (unat position))
      else Inl (VotingError.InvalidInput (lit ''VAN leaf position '' @ lit (decimal (unat position))
        @ lit '' does not fit in SQLite i64'')))"

definition invalid_stored_van :: "int \<Rightarrow> Voting_Types.VotingError" where
  "invalid_stored_van stored =
     VotingError.InvalidInput (lit ''invalid stored van_leaf_position: '' @ show_int stored)"

section \<open>Delegations, votes and batches\<close>

definition delegation_van_position_should_update ::
  "int option \<Rightarrow> u64 \<Rightarrow> Voting_Types.VotingError + bool" where
  "delegation_van_position_should_update stored position =
     and_then (i64_of position) (\<lambda>requested.
     case stored of
       None \<Rightarrow> Inr True
     | Some existing \<Rightarrow>
         if existing < 0 then Inl (invalid_stored_van existing)
         else if existing < requested
         then Inl (VotingError.InvalidInput (lit ''delegation van_leaf_position conflict: stored ''
           @ show_int existing @ lit '', requested '' @ show_int requested))
         else Inr False)"

definition apply_delegation_confirmation_with_conn ::
  "bytes \<Rightarrow> unicode \<Rightarrow> u32 \<Rightarrow> unicode option \<Rightarrow> u64 \<Rightarrow> voting_tables
   \<Rightarrow> Voting_Types.VotingError + voting_tables" where
  "apply_delegation_confirmation_with_conn wid rid b tx_hash van t =
     and_then (require_tree_position van ''VAN leaf position'') (\<lambda>_.
     and_then (load_bundle_confirmation_fields t rid wid b) (\<lambda>(stored_hash, stored_van).
     and_then (case tx_hash of
                 None \<Rightarrow> Inr ()
               | Some h \<Rightarrow> and_then (require_tx_hash h) (\<lambda>_.
                   check_text_conflict stored_hash h ''delegation tx_hash'')) (\<lambda>_.
     and_then (delegation_van_position_should_update stored_van van) (\<lambda>should_store.
     and_then (case tx_hash of
                 None \<Rightarrow> Inr t
               | Some h \<Rightarrow> store_delegation_tx_hash rid wid b h t) (\<lambda>t.
     if should_store then store_van_position_u64 rid wid b van t else Inr t)))))"

definition advance_van_position_in_tx ::
  "unicode \<Rightarrow> bytes \<Rightarrow> u32 \<Rightarrow> u64 \<Rightarrow> voting_tables \<Rightarrow> Voting_Types.VotingError + voting_tables" where
  "advance_van_position_in_tx rid wid b van t =
     and_then (load_bundle_confirmation_fields t rid wid b) (\<lambda>(stored_hash, stored_van).
     case stored_van of
       None \<Rightarrow> store_van_position_u64 rid wid b van t
     | Some stored \<Rightarrow>
         if stored < 0 then Inl (invalid_stored_van stored)
         else
           and_then (i64_of van) (\<lambda>requested.
           if stored > requested then Inr t else store_van_position_u64 rid wid b van t))"

definition record_hash ::
  "table_codec \<Rightarrow> unicode \<Rightarrow> bytes \<Rightarrow> u32 \<Rightarrow> u32 \<Rightarrow> unicode option \<Rightarrow> voting_tables
   \<Rightarrow> Voting_Types.VotingError + voting_tables" where
  "record_hash codec rid wid b pid tx_hash t =
     (case tx_hash of
        None \<Rightarrow> Inr t
      | Some h \<Rightarrow> record_vote_submission codec rid wid b pid h t)"

definition apply_vote_confirmation_with_conn ::
  "table_codec \<Rightarrow> bytes \<Rightarrow> unicode \<Rightarrow> u32 \<Rightarrow> u32 \<Rightarrow> unicode option \<Rightarrow> u64 \<Rightarrow> u64 \<Rightarrow> voting_tables
   \<Rightarrow> Voting_Types.VotingError + voting_tables" where
  "apply_vote_confirmation_with_conn codec wid rid b pid tx_hash van vc t =
     and_then (require_tree_position van ''VAN leaf position'') (\<lambda>_.
     and_then (require_tree_position vc ''vote commitment tree position'') (\<lambda>_.
     and_then (ensure_singleton_vote_update_with_conn codec t wid rid b pid) (\<lambda>_.
     and_then (case tx_hash of None \<Rightarrow> Inr () | Some h \<Rightarrow> require_tx_hash h) (\<lambda>_.
     and_then (record_hash codec rid wid b pid tx_hash t) (\<lambda>t.
     and_then (require_vote_recovery_json t rid wid b pid) (\<lambda>_.
     and_then (advance_van_position_in_tx rid wid b van t) (\<lambda>t.
     record_vc_position_with_conn codec wid rid b pid vc t)))))))"

text \<open>One member of the loop over a batch.\<close>

definition apply_batch_member ::
  "table_codec \<Rightarrow> bytes \<Rightarrow> unicode \<Rightarrow> u32 \<Rightarrow> unicode option \<Rightarrow> voting_tables
   \<Rightarrow> VoteRecoveryBundle \<times> u64 \<Rightarrow> Voting_Types.VotingError + voting_tables" where
  "apply_batch_member codec wid rid b tx_hash t = (\<lambda>(recovery, vc).
     and_then (record_hash codec rid wid b (rec_proposal_id recovery) tx_hash t) (\<lambda>t.
     and_then (require_vote_recovery_json t rid wid b (rec_proposal_id recovery)) (\<lambda>_.
     record_vc_position_with_conn codec wid rid b (rec_proposal_id recovery) vc t)))"

fun require_tree_positions :: "u64 list \<Rightarrow> Voting_Types.VotingError + unit" where
  "require_tree_positions [] = Inr ()"
| "require_tree_positions (vc # vcs) =
     and_then (require_tree_position vc ''vote commitment tree position'') (\<lambda>_.
     require_tree_positions vcs)"

definition apply_vote_batch_confirmation_with_conn ::
  "table_codec \<Rightarrow> bytes \<Rightarrow> unicode \<Rightarrow> u32 \<Rightarrow> bytes \<Rightarrow> unicode option \<Rightarrow> u64 \<Rightarrow> u64 list
   \<Rightarrow> u32 list option \<Rightarrow> unicode list option \<Rightarrow> voting_tables
   \<Rightarrow> Voting_Types.VotingError + voting_tables" where
  "apply_vote_batch_confirmation_with_conn codec wid rid b digest tx_hash van vcs observed_ids
       observed_nullifiers t =
     and_then (require_tree_position van ''VAN leaf position'') (\<lambda>_.
     and_then (require_tree_positions vcs) (\<lambda>_.
     and_then (case tx_hash of None \<Rightarrow> Inr () | Some h \<Rightarrow> require_tx_hash h) (\<lambda>_.
     and_then (load_vote_batch_recoveries_with_conn codec t wid rid b digest) (\<lambda>recoveries.
     if (case observed_ids of None \<Rightarrow> False | Some ids \<Rightarrow> ids \<noteq> map rec_proposal_id recoveries)
        \<or> (case observed_nullifiers of
             None \<Rightarrow> False
           | Some ns \<Rightarrow> ns \<noteq> map (\<lambda>r. rc_hex_encode (tc_recovery codec) (rec_van_nullifier r)) recoveries)
     then Inl (VotingError.InvalidInput
       (lit ''cast_vote_batch event actions do not match persisted recovery data''))
     else if length vcs \<noteq> length recoveries
     then Inl (VotingError.InvalidInput
       (lit ''cast_vote_batch event has the wrong number of VC positions''))
     else
       and_then (run_steps (apply_batch_member codec wid rid b tx_hash) t (zip recoveries vcs)) (\<lambda>t.
       advance_van_position_in_tx rid wid b van t)))))"

section \<open>The rejection ledger\<close>

definition is_rejection :: "unicode \<Rightarrow> bytes \<Rightarrow> u32 \<Rightarrow> RejectionRow \<Rightarrow> bool" where
  "is_rejection rid wid b row \<longleftrightarrow>
     rejection_round row = rid \<and> rejection_wallet row = wid \<and> rejection_bundle row = int_u32 b"

definition clear_combined_rejection_ledger ::
  "bytes \<Rightarrow> unicode \<Rightarrow> u32 \<Rightarrow> voting_tables \<Rightarrow> bool \<times> voting_tables" where
  "clear_combined_rejection_ledger wid rid b t =
     (list_ex (is_rejection rid wid b) (combined_cast_rejections t),
      t\<lparr>combined_cast_rejections := delete_where (is_rejection rid wid b) (combined_cast_rejections t)\<rparr>)"

text \<open>\<open>now as i64\<close> wraps.\<close>

definition as_i64 :: "u64 \<Rightarrow> int" where
  "as_i64 w = sint w"

definition fresh_rejection ::
  "unicode \<Rightarrow> bytes \<Rightarrow> u32 \<Rightarrow> bytes \<Rightarrow> bytes \<Rightarrow> ChainSubmissionDiagnostic \<Rightarrow> u64 \<Rightarrow> RejectionRow" where
  "fresh_rejection rid wid b generation_digest digest diagnostic now =
     \<lparr>rejection_round = rid, rejection_wallet = wid, rejection_bundle = int_u32 b,
      rejection_generation_digest = generation_digest, consecutive_rejections = 1,
      last_batch_digest = digest,
      last_diagnostic_kind = diagnostic_kind_as_str (diag_kind diagnostic),
      last_diagnostic = diag_message diagnostic,
      first_rejected_at = as_i64 now, last_rejected_at = as_i64 now\<rparr>"

text \<open>The assignments of the conflict clause, from the stored and the excluded row.\<close>

definition merged_rejection :: "RejectionRow \<Rightarrow> RejectionRow \<Rightarrow> RejectionRow" where
  "merged_rejection stored excluded =
     (let same = rejection_generation_digest stored = rejection_generation_digest excluded in
      excluded\<lparr>consecutive_rejections := if same then consecutive_rejections stored + 1 else 1,
               first_rejected_at := if same then first_rejected_at stored else first_rejected_at excluded,
               last_rejected_at := if same then max (last_rejected_at stored) (last_rejected_at excluded)
                                   else last_rejected_at excluded\<rparr>)"

definition rejection_constraints :: "RejectionRow \<Rightarrow> bool" where
  "rejection_constraints row \<longleftrightarrow>
     length (rejection_generation_digest row) = 32 \<and> consecutive_rejections row > 0
     \<and> length (last_batch_digest row) = 32 \<and> first_rejected_at row \<ge> 0
     \<and> last_rejected_at row \<ge> first_rejected_at row"

definition rejection_update_aborts :: "RejectionRow \<Rightarrow> RejectionRow \<Rightarrow> bool" where
  "rejection_update_aborts old new \<longleftrightarrow>
     rejection_generation_digest new = rejection_generation_digest old
       \<and> consecutive_rejections new \<le> consecutive_rejections old
     \<or> rejection_generation_digest new \<noteq> rejection_generation_digest old
       \<and> consecutive_rejections new \<noteq> 1"

text \<open>
  The upsert; a violated constraint or an aborting trigger is a SQLite failure that is neither
  busy nor locked, whose text is a parameter.  The row's round exists, because the members that
  were just cleared refer to it.
\<close>

definition record_combined_rejection ::
  "unicode \<Rightarrow> ChainSubmissionIdentity \<Rightarrow> unicode \<Rightarrow> bytes \<Rightarrow> bytes
   \<Rightarrow> ChainSubmissionDiagnostic \<Rightarrow> u64 \<Rightarrow> voting_tables
   \<Rightarrow> Voting_Types.VotingError + voting_tables" where
  "record_combined_rejection sqlite_error i rid generation_digest digest diagnostic now t =
     (let excluded = fresh_rejection rid (wallet_id i) (bundle_index i) generation_digest digest
            diagnostic now;
          here = is_rejection rid (wallet_id i) (bundle_index i);
          failed = Inl (VotingError.Storage (lit ''record combined cast rejection: '' @ sqlite_error)) in
      case find here (combined_cast_rejections t) of
        None \<Rightarrow>
          if rejection_constraints excluded
          then Inr (t\<lparr>combined_cast_rejections := combined_cast_rejections t @ [excluded]\<rparr>)
          else failed
      | Some stored \<Rightarrow>
          let merged = merged_rejection stored excluded in
          if rejection_constraints merged \<and> \<not> rejection_update_aborts stored merged
          then Inr (t\<lparr>combined_cast_rejections :=
                 update_where here (\<lambda>_. merged) (combined_cast_rejections t)\<rparr>)
          else failed)"

section \<open>Terminal generations\<close>

definition persisted_generation_digest ::
  "voting_tables \<Rightarrow> bytes \<Rightarrow> unicode \<Rightarrow> u32 \<Rightarrow> bytes \<Rightarrow> Voting_Types.VotingError + bytes option" where
  "persisted_generation_digest t wid rid b digest =
     (case find (\<lambda>row. authorization_round row = rid \<and> authorization_wallet row = wid
            \<and> authorization_bundle row = int_u32 b \<and> authorization_batch_digest row = digest)
          (delegate_cast_recovery t) of
        None \<Rightarrow> Inr None
      | Some row \<Rightarrow>
          if length (authorization_generation_digest row) = 32
          then Inr (Some (authorization_generation_digest row))
          else Inl (VotingError.InvalidInput
            (lit ''stored combined delegation generation must contain 32 bytes'')))"

definition retire_rejected_combined_generation ::
  "table_codec \<Rightarrow> unicode \<Rightarrow> ChainSubmissionIdentity \<Rightarrow> ChainSubmissionDiagnostic \<Rightarrow> u64
   \<Rightarrow> voting_tables \<Rightarrow> Voting_Types.VotingError + voting_tables" where
  "retire_rejected_combined_generation codec sqlite_error i diagnostic now t =
     (case (if is_combined (target i) then batch_digest (target i) else None) of
        None \<Rightarrow> Inl (VotingError.Internal (lit ''only a combined generation retires on rejection''))
      | Some digest \<Rightarrow>
          let rid = rc_hex_encode (tc_recovery codec) (vote_round_id i) in
          and_then (persisted_generation_digest t (wallet_id i) rid (bundle_index i) digest) (\<lambda>stored.
          and_then (ok_or (VotingError.Internal
              (lit ''rejected combined generation has no persisted authorization'')) stored)
            (\<lambda>generation_digest.
          and_then (clear_vote_batch_recovery_with_conn codec (wallet_id i) rid (bundle_index i) digest t)
            (\<lambda>(cleared, t).
          if cleared = []
          then Inl (VotingError.Internal
            (lit ''rejected combined generation has no persisted members''))
          else record_combined_rejection sqlite_error i rid generation_digest digest diagnostic now t))))"

definition apply_confirmed_generation ::
  "table_codec \<Rightarrow> BoundGeneration \<Rightarrow> ValidatedChainSubmissionConfirmation \<Rightarrow> voting_tables
   \<Rightarrow> Voting_Types.VotingError + voting_tables" where
  "apply_confirmed_generation codec locked validated t =
     (let i = gen_identity (generation locked);
          rid = rc_hex_encode (tc_recovery codec) (vote_round_id i);
          c = confirmation validated;
          tx_hash = map_option (rc_hex_encode (tc_recovery codec)) (conf_transaction_hash c);
          positions = vote_commitment_positions c;
          van = final_van_position c;
          batch = (\<lambda>digest commitments.
            if length positions = length commitments
               \<and> length (ordered_proposal_ids locked) = length positions
            then
              and_then (apply_vote_batch_confirmation_with_conn codec (wallet_id i) rid (bundle_index i)
                  digest tx_hash van positions (Some (ordered_proposal_ids locked)) None t) (\<lambda>t.
              if is_combined (target i)
              then and_then (case tx_hash of
                     None \<Rightarrow> Inr t
                   | Some h \<Rightarrow> store_delegation_tx_hash rid (wallet_id i) (bundle_index i) h t) (\<lambda>t.
                Inr (snd (clear_combined_rejection_ledger (wallet_id i) rid (bundle_index i) t)))
              else Inr t)
            else Inl (VotingError.InvalidInput
              (lit ''confirmed positions do not match the semantic generation layout'')))
      in case (target i, expected_layout locked) of
           (Delegation, DelegationLayout _) \<Rightarrow>
             if positions = []
             then apply_delegation_confirmation_with_conn (wallet_id i) rid (bundle_index i) tx_hash van t
             else Inl (VotingError.InvalidInput
               (lit ''confirmed positions do not match the semantic generation layout''))
         | (Vote pid, VoteLayout _ _) \<Rightarrow>
             if length positions = 1
             then apply_vote_confirmation_with_conn codec (wallet_id i) rid (bundle_index i) pid
                    tx_hash van (positions ! 0) t
             else Inl (VotingError.InvalidInput
               (lit ''confirmed positions do not match the semantic generation layout''))
         | (VoteBatch digest, VoteBatchLayout _ commitments) \<Rightarrow> batch digest commitments
         | (DelegateAndVoteBatch digest, VoteBatchLayout _ commitments) \<Rightarrow> batch digest commitments
         | _ \<Rightarrow> Inl (VotingError.InvalidInput
             (lit ''confirmed positions do not match the semantic generation layout'')))"

end
