(* ===== verification/Vote_Recovery_Exact.thy ===== *)
theory Vote_Recovery_Exact
  imports Vote_Recovery "HOL-Library.Multiset"
begin

text \<open>
  Recovery material survives storage, signed digests bind what they authorize, and a batch is
  assembled from its rows in one way only.
\<close>

section \<open>Round trip of recovery bundles\<close>

text \<open>What the Rust types and the vote commit guarantee of a bundle.\<close>

definition wf_batch_recovery :: "u32 \<Rightarrow> VoteBatchRecovery \<Rightarrow> bool" where
  "wf_batch_recovery anchor_height batch \<longleftrightarrow>
     length (recovery_digest batch) = 32 \<and> recovery_index batch < recovery_size batch
     \<and> unat (recovery_size batch) \<le> MAX_VOTE_BATCH_ACTIONS
     \<and> (batch_delegation_van batch \<noteq> None \<longrightarrow> anchor_height = 0)"

definition wf_recovery :: "VoteRecoveryBundle \<Rightarrow> bool" where
  "wf_recovery b \<longleftrightarrow>
     list_all (\<lambda>f. length (f b) = 32) [rec_van_nullifier, rec_vote_authority_note_new,
       rec_vote_commitment, rec_shares_hash, rec_r_vpk, rec_alpha_v]
     \<and> length (rec_vote_auth_sig b) = 64
     \<and> list_all (\<lambda>v. length v = 32) (rec_share_blinds b @ rec_share_comms b)
     \<and> (case rec_batch b of None \<Rightarrow> True | Some batch \<Rightarrow> wf_batch_recovery (rec_anchor_height b) batch)"

lemma array32_ok [simp]: "array32 label v = Inr b \<longleftrightarrow> length v = 32 \<and> b = v"
  by (auto simp add: array32_def)

lemma array64_ok [simp]: "array64 label v = Inr b \<longleftrightarrow> length v = 64 \<and> b = v"
  by (auto simp add: array64_def)

lemma array32_from_ok: "array32_from label k vs = Inr bs \<longleftrightarrow> list_all (\<lambda>v. length v = 32) vs \<and> bs = vs"
  by (induction label k vs arbitrary: bs rule: array32_from.induct) auto

lemma array32_vec_ok [simp]: "array32_vec label vs = Inr bs \<longleftrightarrow> list_all (\<lambda>v. length v = 32) vs \<and> bs = vs"
  by (simp add: array32_vec_def array32_from_ok)

lemma formats_distinct [simp]:
  "VOTE_RECOVERY_FORMAT \<noteq> VOTE_BATCH_RECOVERY_FORMAT"
  "VOTE_RECOVERY_FORMAT \<noteq> DELEGATE_AND_VOTE_BATCH_RECOVERY_FORMAT"
  "VOTE_BATCH_RECOVERY_FORMAT \<noteq> DELEGATE_AND_VOTE_BATCH_RECOVERY_FORMAT"
  by (simp_all add: VOTE_RECOVERY_FORMAT_def VOTE_BATCH_RECOVERY_FORMAT_def
      DELEGATE_AND_VOTE_BATCH_RECOVERY_FORMAT_def lit_def)

lemmas formats_distinct_sym [simp] = formats_distinct [symmetric]

lemma batch_from_json_of_bundle:
  assumes "wf_recovery b"
  shows "batch_from_json (json_from_bundle b) = Inr (rec_batch b)"
proof (cases "rec_batch b")
  case None
  then show ?thesis
    by (simp add: batch_from_json_def json_from_bundle_def)
next
  case (Some batch)
  then have "recovery_index batch < recovery_size batch" "length (recovery_digest batch) = 32"
    "unat (recovery_size batch) \<le> MAX_VOTE_BATCH_ACTIONS"
    using assms by (auto simp add: wf_recovery_def wf_batch_recovery_def)
  moreover from this(1) have "recovery_size batch \<noteq> 0"
    by auto
  ultimately show ?thesis
    using Some by (simp add: batch_from_json_def json_from_bundle_def array32_def not_le)
qed

lemma format_of_bundle:
  assumes "wf_recovery b"
  shows "check_recovery_format (json_from_bundle b) = Inr ()"
  using assms
  by (cases "rec_batch b")
    (auto simp add: check_recovery_format_def json_from_bundle_def wf_recovery_def wf_batch_recovery_def)

text \<open>The JSON library reads back what it wrote.\<close>

definition json_faithful :: "recovery_codec \<Rightarrow> bool" where
  "json_faithful codec \<longleftrightarrow> (\<forall>j s. rc_to_json codec j = Inr s \<longrightarrow> rc_from_json codec s = Inr j)"

lemma parsed_recovery_wf:
  assumes "parse_recovery codec s = Inr b"
  shows "wf_recovery b \<and> validate_recovery_bundle_vote_fields codec b = Inr ()"
proof -
  obtain j where format: "check_recovery_format j = Inr ()" and parsed: "bundle_try_from codec j = Inr b"
    using assms by (auto simp add: parse_recovery_def)
  have "json_delegation_van j \<noteq> None \<longrightarrow> json_anchor_height j = 0"
    using format by (auto simp add: check_recovery_format_def Let_def split: if_splits)
  then have "case rec_batch b of None \<Rightarrow> True | Some batch \<Rightarrow> wf_batch_recovery (rec_anchor_height b) batch"
    using parsed
    by (auto simp add: bundle_try_from_def batch_from_json_def wf_batch_recovery_def not_le
        split: option.splits if_splits)
  then show ?thesis
    using parsed by (auto simp add: wf_recovery_def bundle_try_from_def validate_recovery_bundle_vote_fields_def)
qed

lemma parse_of_bundle:
  assumes "rc_from_json codec s = Inr (json_from_bundle b)" "wf_recovery b"
    and "validate_recovery_bundle_vote_fields codec b = Inr ()"
  shows "parse_recovery codec s = Inr b"
proof -
  have "bundle_try_from codec (json_from_bundle b) = Inr b"
    using assms(2,3) batch_from_json_of_bundle [OF assms(2)]
    unfolding bundle_try_from_def wf_recovery_def validate_recovery_bundle_vote_fields_def
    by (auto simp add: json_from_bundle_def)
  then show ?thesis
    using format_of_bundle [OF assms(2)] assms(1) by (simp add: parse_recovery_def)
qed

text \<open>
  C32.  A vote's recovery material survives storage: a bundle that was serialized is parsed back
  unchanged, in each of the three formats, and whatever parses is a bundle that satisfies the
  constraints of its format.
\<close>

theorem recovery_roundtrip:
  assumes "json_faithful codec" "wf_recovery b" "serialize_recovery codec b = Inr s"
  shows "parse_recovery codec s = Inr b \<and> (\<forall>t c. parse_recovery codec t = Inr c \<longrightarrow> wf_recovery c)"
proof -
  have "rc_from_json codec s = Inr (json_from_bundle b)"
    and valid: "validate_recovery_bundle_vote_fields codec b = Inr ()"
    using assms(1,3) by (auto simp add: serialize_recovery_def json_faithful_def)
  then show ?thesis
    using parse_of_bundle [OF _ assms(2) valid] parsed_recovery_wf by blast
qed

section \<open>Signed digests bind their content\<close>

lemma padded32_length [simp]:
  "length (extend_padded32 b) = 32" "length (extend_u32_padded32 v) = 32" "length (extend_u64_padded32 w) = 32"
  by (simp_all add: extend_padded32_def extend_u32_padded32_def extend_u64_padded32_def)

lemma padded32_exact: "length b = 32 \<Longrightarrow> extend_padded32 b = b"
  by (simp add: extend_padded32_def)

lemma padded32_inject [simp]:
  "extend_u32_padded32 v = extend_u32_padded32 v' \<longleftrightarrow> v = v'"
  "extend_u64_padded32 w = extend_u64_padded32 w' \<longleftrightarrow> w = w'"
  by (simp_all add: extend_u32_padded32_def extend_u64_padded32_def)

definition wf_action :: "CastVoteBatchSighashAction \<Rightarrow> bool" where
  "wf_action a \<longleftrightarrow> length (act_r_vpk a) = 32 \<and> length (act_van_nullifier a) = 32
     \<and> length (act_vote_authority_note_new a) = 32 \<and> length (act_vote_commitment a) = 32"

lemma action_transcript_length [simp]: "length (batch_action_transcript x) = 192"
  by (simp add: batch_action_transcript_def split: prod.splits)

lemma action_transcript_inject:
  assumes "wf_action a" "wf_action b"
  shows "batch_action_transcript (k, a) = batch_action_transcript (k, b) \<longleftrightarrow> a = b"
  using assms by (auto simp add: batch_action_transcript_def wf_action_def padded32_exact)

definition actions_transcript :: "CastVoteBatchSighashAction list \<Rightarrow> bytes" where
  "actions_transcript actions =
     extend_u32_padded32 (of_nat (length actions))
     @ concat (map batch_action_transcript (enumerate 0 actions))"

lemma actions_transcript_inject:
  assumes "list_all wf_action as" "list_all wf_action bs" "length as < 2 ^ 32" "length bs < 2 ^ 32"
    and "actions_transcript as = actions_transcript bs"
  shows "as = bs"
proof -
  have sizes: "(of_nat (length as) :: u32) = of_nat (length bs)"
    and blocks: "concat (map batch_action_transcript (enumerate 0 as))
                 = concat (map batch_action_transcript (enumerate 0 bs))"
    using assms(5) by (auto simp add: actions_transcript_def)
  have "unat (of_nat n :: u32) = n" if "n < 2 ^ 32" for n
    using that by (simp add: unat_of_nat)
  with sizes assms(3,4) have same: "length as = length bs"
    by metis
  have "map batch_action_transcript (enumerate 0 as) = map batch_action_transcript (enumerate 0 bs)"
    using blocks same by (intro concat_injective) (auto simp add: set_zip)
  note blockwise = arg_cong [OF this, of "\<lambda>blocks. blocks ! k" for k]
  have "batch_action_transcript (k, as ! k) = batch_action_transcript (k, bs ! k)" if "k < length as" for k
    using blockwise [of k] that same by (simp add: nth_enumerate_eq)
  then show ?thesis
    using assms(1,2) same by (intro nth_equalityI) (auto simp add: list_all_length action_transcript_inject)
qed

text \<open>A successful combined digest hashes the transcript of well-formed, distinct actions.\<close>

lemma append_fields_ok:
  "run_steps append_field t fs = Inr u \<longleftrightarrow> list_all (\<lambda>f. length f = 32) fs \<and> u = t @ concat fs"
  by (induction fs arbitrary: t) (auto simp add: append_field_def)

lemma append_action_ok:
  assumes "append_action (t, ps) (k, a) = Inr (u, qs)"
  shows "wf_action a \<and> u = t @ batch_action_transcript (k, a)"
  using assms
  by (auto simp add: append_action_def append_field_def append_integer_def wf_action_def
      batch_action_transcript_def padded32_exact extend_u32_padded32_def split: if_splits)

lemma append_actions_ok:
  assumes "run_steps append_action (t, ps) (enumerate n as) = Inr (u, qs)"
  shows "list_all wf_action as \<and> u = t @ concat (map batch_action_transcript (enumerate n as))"
  using assms
proof (induction as arbitrary: t ps n)
  case (Cons a as)
  then obtain v rs where "append_action (t, ps) (n, a) = Inr (v, rs)"
    "run_steps append_action (v, rs) (enumerate (Suc n) as) = Inr (u, qs)"
    by auto
  with Cons.IH [of v rs "Suc n"] append_action_ok show ?case
    by fastforce
qed simp

lemma combined_digest_ok:
  assumes "delegate_and_vote_batch_sighash codec r van actions = Inr d"
  shows "list_all wf_action actions \<and> actions \<noteq> [] \<and> length actions \<le> MAX_VOTE_BATCH_ACTIONS
    \<and> d = rc_blake2b codec (combined_batch_domain @ r @ van @ actions_transcript actions)"
proof -
  obtain u qs where run: "run_steps append_action (append_integer (combined_batch_domain @ r @ van)
      (of_nat (length actions)), {}) (enumerate 0 actions) = Inr (u, qs)" "d = rc_blake2b codec u"
    and bounds: "actions \<noteq> []" "length actions \<le> MAX_VOTE_BATCH_ACTIONS"
    using assms by (auto simp add: delegate_and_vote_batch_sighash_def split: if_splits)
  then show ?thesis
    using append_actions_ok [OF run(1)]
    by (simp add: append_integer_def actions_transcript_def extend_u32_padded32_def)
qed

text \<open>
  The three things a voting key signs, with the decoded round, and the digest the code signs for
  each.
\<close>

datatype signed_envelope =
    SingleVote bytes CastVoteBatchSighashAction u32
  | OrdinaryBatch bytes u64 "CastVoteBatchSighashAction list"
  | CombinedBatch bytes bytes "CastVoteBatchSighashAction list"

fun envelope_round :: "signed_envelope \<Rightarrow> bytes" where
  "envelope_round (SingleVote r a h) = r"
| "envelope_round (OrdinaryBatch r h as) = r"
| "envelope_round (CombinedBatch r v as) = r"

fun envelope_digest :: "recovery_codec \<Rightarrow> unicode \<Rightarrow> signed_envelope \<Rightarrow> VotingError + bytes" where
  "envelope_digest codec round_id (SingleVote r a h) =
     cast_vote_sighash codec round_id (act_r_vpk a) (act_van_nullifier a)
       (act_vote_authority_note_new a) (act_vote_commitment a) (act_proposal_id a) h"
| "envelope_digest codec round_id (OrdinaryBatch r h as) = cast_vote_batch_sighash codec round_id h as"
| "envelope_digest codec round_id (CombinedBatch r v as) = delegate_and_vote_batch_sighash codec r v as"

fun wf_envelope :: "signed_envelope \<Rightarrow> bool" where
  "wf_envelope (SingleVote r a h) \<longleftrightarrow> length r = 32 \<and> wf_action a"
| "wf_envelope (OrdinaryBatch r h as) \<longleftrightarrow> length r = 32 \<and> list_all wf_action as \<and> length as < 2 ^ 32"
| "wf_envelope (CombinedBatch r v as) \<longleftrightarrow> length r = 32 \<and> length v = 32"

fun envelope_transcript :: "signed_envelope \<Rightarrow> bytes" where
  "envelope_transcript (SingleVote r a h) =
     cast_vote_transcript r (act_r_vpk a) (act_van_nullifier a)
       (act_vote_authority_note_new a) (act_vote_commitment a) (act_proposal_id a) h"
| "envelope_transcript (OrdinaryBatch r h as) = cast_vote_batch_transcript r h as"
| "envelope_transcript (CombinedBatch r v as) = combined_batch_domain @ r @ v @ actions_transcript as"

lemma domains_apart:
  "cast_vote_domain @ xs \<noteq> cast_vote_batch_domain @ ys"
  "cast_vote_domain @ xs \<noteq> combined_batch_domain @ ys"
  "cast_vote_batch_domain @ xs \<noteq> combined_batch_domain @ ys"
  by (simp_all add: cast_vote_domain_def cast_vote_batch_domain_def combined_batch_domain_def ascii_bytes_def)

lemma anchor_inject: "ucast (h :: u32) = (ucast h' :: u64) \<Longrightarrow> h = h'"
proof -
  have "unat (w :: u32) < 2 ^ 32" for w
    using unsigned_less [of w] by simp
  then have "unat (w :: u32) < 2 ^ 64" for w
    by (rule less_trans) simp
  then have "unat (ucast (w :: u32) :: u64) = unat w" for w
    by (simp add: unsigned_ucast_eq take_bit_nat_eq_self_iff)
  moreover assume "ucast h = (ucast h' :: u64)"
  ultimately show "h = h'"
    by (metis word_unat_eq_iff)
qed

lemma single_transcript_inject:
  assumes "wf_envelope (SingleVote r a h)" "wf_envelope (SingleVote r' a' h')"
    and "envelope_transcript (SingleVote r a h) = envelope_transcript (SingleVote r' a' h')"
  shows "SingleVote r a h = SingleVote r' a' h'"
proof -
  have "ucast h = (ucast h' :: u64)" "r = r'" "a = a'"
    using assms by (auto simp add: cast_vote_transcript_def wf_action_def padded32_exact)
  with anchor_inject show ?thesis
    by simp
qed

lemma ordinary_transcript_inject:
  assumes "wf_envelope (OrdinaryBatch r h as)" "wf_envelope (OrdinaryBatch r' h' bs)"
    and "envelope_transcript (OrdinaryBatch r h as) = envelope_transcript (OrdinaryBatch r' h' bs)"
  shows "OrdinaryBatch r h as = OrdinaryBatch r' h' bs"
proof -
  have "r = r'" "h = h'" "actions_transcript as = actions_transcript bs"
    using assms by (simp_all add: cast_vote_batch_transcript_def actions_transcript_def padded32_exact)
  moreover have "as = bs"
    using assms(1,2) calculation(3) by (intro actions_transcript_inject) simp_all
  ultimately show ?thesis
    by simp
qed

lemma combined_transcript_inject:
  assumes "wf_envelope (CombinedBatch r v as)" "wf_envelope (CombinedBatch r' v' bs)"
    and "list_all wf_action as \<and> length as < 2 ^ 32" "list_all wf_action bs \<and> length bs < 2 ^ 32"
    and "envelope_transcript (CombinedBatch r v as) = envelope_transcript (CombinedBatch r' v' bs)"
  shows "CombinedBatch r v as = CombinedBatch r' v' bs"
proof -
  have "r = r'" "v = v'" "actions_transcript as = actions_transcript bs"
    using assms(1,2,5) by simp_all
  moreover have "as = bs"
    using assms(3,4) calculation(3) by (intro actions_transcript_inject) simp_all
  ultimately show ?thesis
    by simp
qed

text \<open>The domain an envelope's transcript starts with.\<close>

fun envelope_domain :: "signed_envelope \<Rightarrow> bytes" where
  "envelope_domain (SingleVote _ _ _) = cast_vote_domain"
| "envelope_domain (OrdinaryBatch _ _ _) = cast_vote_batch_domain"
| "envelope_domain (CombinedBatch _ _ _) = combined_batch_domain"

lemma envelope_domain_prefix: "\<exists>rest. envelope_transcript x = envelope_domain x @ rest"
  by (cases x) (auto simp add: cast_vote_transcript_def cast_vote_batch_transcript_def)

lemma envelope_transcript_inject:
  assumes wf: "wf_envelope x" "wf_envelope y"
    and actions: "\<And>r v as. x = CombinedBatch r v as \<Longrightarrow> list_all wf_action as \<and> length as < 2 ^ 32"
      "\<And>r v as. y = CombinedBatch r v as \<Longrightarrow> list_all wf_action as \<and> length as < 2 ^ 32"
    and same: "envelope_transcript x = envelope_transcript y"
  shows "x = y"
proof -
  obtain xs ys where "envelope_transcript x = envelope_domain x @ xs" "envelope_transcript y = envelope_domain y @ ys"
    using envelope_domain_prefix by blast
  with same have domains: "envelope_domain x @ xs = envelope_domain y @ ys"
    by simp
  show ?thesis
  proof (cases x)
    case (SingleVote r a h)
    with domains obtain r' a' h' where y: "y = SingleVote r' a' h'"
      by (cases y) (auto simp add: domains_apart)
    show ?thesis
      using wf same unfolding SingleVote y by (rule single_transcript_inject)
  next
    case (OrdinaryBatch r h as)
    with domains obtain r' h' bs where y: "y = OrdinaryBatch r' h' bs"
      by (cases y) (auto simp add: domains_apart domains_apart [symmetric])
    show ?thesis
      using wf same unfolding OrdinaryBatch y by (rule ordinary_transcript_inject)
  next
    case (CombinedBatch r v as)
    with domains obtain r' v' bs where y: "y = CombinedBatch r' v' bs"
      by (cases y) (auto simp add: domains_apart [symmetric])
    show ?thesis
      using wf actions(1) [OF CombinedBatch] actions(2) [OF y] same
      unfolding CombinedBatch y by (rule combined_transcript_inject)
  qed
qed

lemma hashed_transcript:
  assumes "rc_hex_decode codec s = Inr (envelope_round x)" "envelope_digest codec s x = Inr d"
  shows "d = rc_blake2b codec (envelope_transcript x)"
proof (cases x)
  case (CombinedBatch r v as)
  then show ?thesis
    using assms(2) combined_digest_ok [of codec r v as d] by simp
qed (use assms in \<open>simp_all add: cast_vote_sighash_def cast_vote_batch_sighash_def\<close>)

lemma hashed_actions:
  assumes "envelope_digest codec s x = Inr d" "x = CombinedBatch r v as"
  shows "list_all wf_action as \<and> length as < 2 ^ 32"
  using assms combined_digest_ok [of codec r v as d] by (simp add: MAX_VOTE_BATCH_ACTIONS_def MAX_PROPOSAL_ID_def)

text \<open>
  C30.  A signature authorizes one thing: when the digests of two envelopes agree, be they a single
  vote, an ordered batch or a combined delegation and batch, the envelopes agree in kind, round,
  anchor or delegated authority note, and in every action in its order, unless the two transcripts
  are a collision of BLAKE2b.
\<close>

theorem signed_digest_binds:
  assumes "rc_hex_decode codec s = Inr (envelope_round x)" "rc_hex_decode codec t = Inr (envelope_round y)"
    and "wf_envelope x" "wf_envelope y"
    and "envelope_digest codec s x = Inr d" "envelope_digest codec t y = Inr d"
  shows "x = y \<or> (\<exists>a b. a \<noteq> b \<and> rc_blake2b codec a = rc_blake2b codec b)"
proof (cases "envelope_transcript x = envelope_transcript y")
  case True
  have "x = y"
    using assms(3,4) hashed_actions [OF assms(5)] hashed_actions [OF assms(6)] True
    by (rule envelope_transcript_inject)
  then show ?thesis ..
next
  case False
  moreover have "rc_blake2b codec (envelope_transcript x) = rc_blake2b codec (envelope_transcript y)"
    using hashed_transcript [OF assms(1,5)] hashed_transcript [OF assms(2,6)] by simp
  ultimately show ?thesis
    by blast
qed

section \<open>Assembly of a batch\<close>

abbreviation batch_key :: "VoteRecoveryBundle \<Rightarrow> u32 option" where
  "batch_key r \<equiv> map_option recovery_index (rec_batch r)"

abbreviation batch_rows :: "bytes \<Rightarrow> VoteRecoveryBundle list \<Rightarrow> VoteRecoveryBundle list" where
  "batch_rows digest candidates \<equiv> sort_key batch_key (filter (member_of digest) candidates)"

definition rows_complete :: "bytes \<Rightarrow> VoteRecoveryBundle list \<Rightarrow> bool" where
  "rows_complete digest rs \<longleftrightarrow> rs \<noteq> [] \<and> length rs < 2 ^ 32
     \<and> (\<forall>k < length rs. \<exists>batch. rec_batch (rs ! k) = Some batch \<and> recovery_digest batch = digest
          \<and> recovery_index batch = of_nat k \<and> unat (recovery_size batch) = length rs)"

lemma not_misplaced_iff:
  "\<not> list_ex (misplaced_member digest n) (enumerate 0 rs) \<longleftrightarrow>
     (\<forall>k < length rs. \<exists>batch. rec_batch (rs ! k) = Some batch \<and> recovery_digest batch = digest
        \<and> recovery_index batch = of_nat k \<and> unat (recovery_size batch) = n)"
proof -
  have single: "misplaced_member digest n (k, r) \<longleftrightarrow>
      \<not> (\<exists>batch. rec_batch r = Some batch \<and> recovery_digest batch = digest
        \<and> recovery_index batch = of_nat k \<and> unat (recovery_size batch) = n)" for k r
    by (cases "rec_batch r") (simp_all add: misplaced_member_def)
  have "list_ex (misplaced_member digest n) (enumerate 0 rs)
      \<longleftrightarrow> (\<exists>k < length rs. misplaced_member digest n (k, rs ! k))"
    by (force simp add: list_ex_iff in_set_enumerate_eq)
  then have "\<not> list_ex (misplaced_member digest n) (enumerate 0 rs)
      \<longleftrightarrow> (\<forall>k < length rs. \<not> misplaced_member digest n (k, rs ! k))"
    by simp
  then show ?thesis
    unfolding single not_not .
qed

text \<open>The assembly with its guards resolved: an incomplete batch is the second error.\<close>

lemma assemble_cases:
  assumes rs_def: "rs = batch_rows digest candidates"
  shows "assemble_vote_batch_recoveries codec round_id bundle digest candidates =
    (if rs = [] then Inl (InvalidInput (lit ''vote batch recovery not found for round='' @ round_id
          @ lit '', bundle='' @ show_u32 bundle @ lit '', digest='' @ rc_hex_encode codec digest))
     else if \<not> rows_complete digest rs
     then Inl (InvalidInput (lit ''persisted atomic vote batch is incomplete or out of order''))
     else if list_ex (\<lambda>r. delegation_van_of r \<noteq> delegation_van_of (hd rs)
            \<or> delegation_van_of (hd rs) \<noteq> None \<and> rec_anchor_height r \<noteq> 0) rs
     then Inl (InvalidInput (lit ''inconsistent combined batch authorization''))
     else and_then (recomputed_digest codec round_id rs) (\<lambda>recomputed.
       if recomputed \<noteq> digest
       then Inl (InvalidInput (lit ''persisted atomic vote batch digest does not match its actions''))
       else Inr rs))"
proof (cases rs)
  case Nil
  then show ?thesis
    by (simp add: assemble_vote_batch_recoveries_def rs_def Let_def)
next
  case (Cons r rest)
  have "r \<in> set rs"
    using Cons by simp
  then have "member_of digest r"
    by (simp add: rs_def)
  then obtain batch where batch: "rec_batch r = Some batch"
    by (auto simp add: member_of_def split: option.splits)
  have small: "unat (recovery_size batch) < 2 ^ 32"
    using unsigned_less [of "recovery_size batch"] by simp
  have first: "rs ! 0 = r" "0 < length rs" "rs \<noteq> []"
    using Cons by simp_all
  have "rows_complete digest rs \<longleftrightarrow> length rs = unat (recovery_size batch)
      \<and> \<not> list_ex (misplaced_member digest (unat (recovery_size batch))) (enumerate 0 rs)"
  proof
    assume complete: "rows_complete digest rs"
    then have "\<exists>b. rec_batch (rs ! 0) = Some b \<and> unat (recovery_size b) = length rs"
      using first(2) unfolding rows_complete_def by blast
    then have "length rs = unat (recovery_size batch)"
      using first(1) batch by auto
    with complete show "length rs = unat (recovery_size batch)
        \<and> \<not> list_ex (misplaced_member digest (unat (recovery_size batch))) (enumerate 0 rs)"
      unfolding not_misplaced_iff rows_complete_def by simp
  next
    assume "length rs = unat (recovery_size batch)
        \<and> \<not> list_ex (misplaced_member digest (unat (recovery_size batch))) (enumerate 0 rs)"
    with small first(3) show "rows_complete digest rs"
      unfolding not_misplaced_iff rows_complete_def by simp
  qed
  note complete = this
  have first_batch: "(case rs of [] \<Rightarrow> None | r # _ \<Rightarrow> rec_batch r) = Some batch"
    using Cons batch by simp
  show ?thesis
    by (simp only: assemble_vote_batch_recoveries_def Let_def rs_def [symmetric] first_batch complete
        bind.bind_lunit ok_or_simps and_then_simps first(3) if_False de_Morgan_conj not_not)
qed

lemma rows_complete_distinct: "rows_complete digest rs \<Longrightarrow> distinct (map batch_key rs)"
proof -
  assume complete: "rows_complete digest rs"
  have key: "batch_key (rs ! k) = Some (of_nat k)" if "k < length rs" for k
    using complete that unfolding rows_complete_def by fastforce
  have small: "unat (of_nat k :: u32) = k" if "k < length rs" for k
    using complete that by (simp add: rows_complete_def unat_of_nat)
  have "k = l" if "k < length rs" "l < length rs" "batch_key (rs ! k) = batch_key (rs ! l)" for k l
  proof -
    have "(of_nat k :: u32) = of_nat l"
      using that key [of k] key [of l] by simp
    then show ?thesis
      using small [OF that(1)] small [OF that(2)] by metis
  qed
  then show "distinct (map batch_key rs)"
    by (auto simp add: distinct_conv_nth)
qed

text \<open>
  C31.  A persisted batch has one reading: the members returned are exactly the rows that carry the
  digest, in the order of their indices and without a gap, and their signed digest is the batch's.
  The rows may come back from the database in any order.
\<close>

theorem batch_assembly_exact:
  assumes "assemble_vote_batch_recoveries codec round_id b digest candidates = Inr rs"
    and "mset rows = mset candidates"
  shows "mset rs = mset (filter (member_of digest) candidates)
    \<and> rs \<noteq> [] \<and> (\<forall>k < length rs. \<exists>batch. rec_batch (rs ! k) = Some batch
         \<and> recovery_digest batch = digest \<and> recovery_index batch = of_nat k
         \<and> unat (recovery_size batch) = length rs)
    \<and> recomputed_digest codec round_id rs = Inr digest
    \<and> assemble_vote_batch_recoveries codec round_id b digest rows = Inr rs"
proof -
  have rs: "rs = batch_rows digest candidates" and complete: "rows_complete digest rs"
    and digest: "recomputed_digest codec round_id rs = Inr digest"
    using assms(1) unfolding assemble_cases [OF refl] by (auto split: if_splits)
  have same: "mset (filter (member_of digest) rows) = mset (filter (member_of digest) candidates)"
    using assms(2) by (simp add: mset_filter)
  have "distinct (map batch_key rs)"
    using complete by (rule rows_complete_distinct)
  then have "inj_on batch_key (set (filter (member_of digest) rows))"
    using same rs by (metis distinct_map mset_eq_setD set_sort)
  then have "batch_rows digest rows = batch_rows digest candidates"
    using same by (intro sort_key_inj_key_eq) simp_all
  then have "assemble_vote_batch_recoveries codec round_id b digest rows = Inr rs"
    using assms(1) unfolding assemble_cases [OF refl] by (simp only:)
  moreover have "mset rs = mset (filter (member_of digest) candidates)"
    by (simp add: rs)
  ultimately show ?thesis
    using complete digest unfolding rows_complete_def by blast
qed

section \<open>Samples\<close>

definition sample_round :: unicode where
  "sample_round = replicate 64 48"

definition sample_member :: "u32 \<Rightarrow> VoteRecoveryBundle" where
  "sample_member k =
     \<lparr>rec_vote_round_id = sample_round, rec_bundle_index = 0, rec_proposal_id = k + 1,
      rec_vote_decision = 1, rec_anchor_height = 9, rec_vc_tree_position = 0,
      rec_single_share = False, rec_num_options = 2, rec_van_nullifier = replicate 32 1,
      rec_vote_authority_note_new = replicate 32 2, rec_vote_commitment = replicate 32 3,
      rec_proof = [], rec_shares_hash = replicate 32 4, rec_r_vpk = replicate 32 5,
      rec_alpha_v = replicate 32 6, rec_vote_auth_sig = replicate 64 0, rec_encrypted_shares = [],
      rec_share_blinds = [], rec_share_comms = [],
      rec_batch = Some \<lparr>batch_delegation_van = None, recovery_digest = replicate 32 7,
                        recovery_index = k, recovery_size = 2\<rparr>\<rparr>"

text \<open>A JSON library that knows one document, and two hash functions.\<close>

definition sample_recovery_codec :: "(bytes \<Rightarrow> bytes) \<Rightarrow> recovery_codec" where
  "sample_recovery_codec hash =
     \<lparr>rc_hex_encode = map unat, rc_hex_decode = (\<lambda>_. Inr (replicate 32 0)),
      rc_pallas_canonical = (\<lambda>_. True), rc_blake2b = hash,
      rc_from_json = (\<lambda>_. Inr (json_from_bundle (sample_member 0))),
      rc_to_json = (\<lambda>j. if j = json_from_bundle (sample_member 0) then Inr [] else Inl []),
      rc_json_markers = (\<lambda>_. Inr (\<lambda>_. False)), rc_commitment_json = (\<lambda>_. Inr [])\<rparr>"

lemma wf_sample_member: "wf_recovery (sample_member 0)"
  by (simp add: wf_recovery_def wf_batch_recovery_def sample_member_def MAX_VOTE_BATCH_ACTIONS_def
      MAX_PROPOSAL_ID_def)

lemma sample_fields_valid:
  "validate_recovery_bundle_vote_fields (sample_recovery_codec hash) (sample_member 0) = Inr ()"
  by (simp add: validate_recovery_bundle_vote_fields_def validate_vote_round_id_hex_def sample_member_def
      sample_round_def as_bytes_ascii is_ascii_def list_all_iff canonical_hex_byte_def
      sample_recovery_codec_def validate_vote_round_id_bytes_def validate_proposal_id_def MIN_PROPOSAL_ID_def
      MAX_PROPOSAL_ID_def validate_vote_decision_def validate_vote_options_def MIN_VOTE_OPTIONS_def
      MAX_VOTE_OPTIONS_def)

theorem recovery_roundtrip_witness:
  "serialize_recovery (sample_recovery_codec id) (sample_member 0) = Inr []
   \<and> parse_recovery (sample_recovery_codec id) [] = Inr (sample_member 0)"
proof -
  have "serialize_recovery (sample_recovery_codec id) (sample_member 0) = Inr []"
    using sample_fields_valid [of id] by (simp add: serialize_recovery_def) (simp add: sample_recovery_codec_def)
  moreover have "json_faithful (sample_recovery_codec id)"
    by (simp add: json_faithful_def sample_recovery_codec_def)
  ultimately show ?thesis
    using recovery_roundtrip [of "sample_recovery_codec id" "sample_member 0" "[]"] wf_sample_member by simp
qed

theorem signed_digest_binds_witness:
  "envelope_digest (sample_recovery_codec id) [] (OrdinaryBatch (replicate 32 0) 9 [sighash_action (sample_member 0)])
   \<noteq> envelope_digest (sample_recovery_codec id) [] (CombinedBatch (replicate 32 0) (replicate 32 8)
        [sighash_action (sample_member 0)])"
proof
  let ?codec = "sample_recovery_codec id"
  let ?x = "OrdinaryBatch (replicate 32 0) 9 [sighash_action (sample_member 0)]"
  let ?y = "CombinedBatch (replicate 32 0) (replicate 32 8) [sighash_action (sample_member 0)]"
  assume same: "envelope_digest ?codec [] ?x = envelope_digest ?codec [] ?y"
  obtain d where "envelope_digest ?codec [] ?x = Inr d"
    by (simp add: cast_vote_batch_sighash_def sample_recovery_codec_def)
  moreover have "wf_envelope ?x" "wf_envelope ?y"
    by (simp_all add: wf_action_def sighash_action_def sample_member_def)
  moreover have "rc_hex_decode ?codec [] = Inr (replicate 32 0)" "rc_blake2b ?codec = id"
    by (simp_all add: sample_recovery_codec_def)
  ultimately show False
    using signed_digest_binds [of ?codec "[]" ?x "[]" ?y d] same by simp
qed

theorem batch_assembly_exact_witness:
  "assemble_vote_batch_recoveries (sample_recovery_codec (\<lambda>_. replicate 32 7)) sample_round 0 (replicate 32 7)
     [sample_member 0, sample_member 1] = Inr [sample_member 0, sample_member 1]
   \<and> assemble_vote_batch_recoveries (sample_recovery_codec (\<lambda>_. replicate 32 7)) sample_round 0 (replicate 32 7)
     [sample_member 1, sample_member 0] = Inr [sample_member 0, sample_member 1]"
proof -
  have keys: "rec_batch (sample_member k) = Some \<lparr>batch_delegation_van = None, recovery_digest = replicate 32 7,
      recovery_index = k, recovery_size = 2\<rparr>" for k
    by (simp add: sample_member_def)
  have "assemble_vote_batch_recoveries (sample_recovery_codec (\<lambda>_. replicate 32 7)) sample_round 0 (replicate 32 7)
      [sample_member 0, sample_member 1] = Inr [sample_member 0, sample_member 1]"
    by (simp add: assemble_vote_batch_recoveries_def member_of_def keys misplaced_member_def
        delegation_van_of_def recomputed_digest_def cast_vote_batch_sighash_def)
      (simp add: sample_recovery_codec_def)
  from batch_assembly_exact [OF this, of "[sample_member 1, sample_member 0]"] this show ?thesis
    by simp
qed

end
