(* ===== verification/Confirmation_Projection_Safety.thy ===== *)
theory Confirmation_Projection_Safety
  imports Confirmation_Projection Vote_Recovery_Exact
begin

text \<open>
  What the projection of terminal submissions guarantees of the voting tables: recorded hashes and
  positions are final over every sequence of projections, and a confirmed generation is recorded
  completely.
\<close>

section \<open>Tables that only grow\<close>

definition bundle_key :: "BundleRow \<Rightarrow> unicode \<times> bytes \<times> int" where
  "bundle_key row = (bundle_round row, bundle_wallet row, bundle_number row)"

definition vote_key :: "VoteRow \<Rightarrow> unicode \<times> bytes \<times> int \<times> int" where
  "vote_key vote = (vote_round vote, vote_wallet vote, vote_bundle vote, vote_proposal vote)"

text \<open>The unique keys of \<open>bundles\<close> and \<open>votes\<close>.\<close>

definition keyed :: "voting_tables \<Rightarrow> bool" where
  "keyed t \<longleftrightarrow> distinct (map bundle_key (bundles t)) \<and> distinct (map vote_key (votes t))"

definition bundle_extends :: "BundleRow \<Rightarrow> BundleRow \<Rightarrow> bool" where
  "bundle_extends old new \<longleftrightarrow>
     bundle_key new = bundle_key old
     \<and> (delegation_tx_hash old = None \<or> delegation_tx_hash new = delegation_tx_hash old)
     \<and> (case van_leaf_position old of
          None \<Rightarrow> True
        | Some p \<Rightarrow> (case van_leaf_position new of None \<Rightarrow> False | Some q \<Rightarrow> p \<le> q))"

definition vote_extends :: "VoteRow \<Rightarrow> VoteRow \<Rightarrow> bool" where
  "vote_extends old new \<longleftrightarrow>
     vote_key new = vote_key old \<and> vote_choice new = vote_choice old
     \<and> vote_commitment_blob new = vote_commitment_blob old
     \<and> (vote_tx_hash old = None \<or> vote_tx_hash new = vote_tx_hash old)
     \<and> (vote_vc_position old = None \<or> vote_vc_position new = vote_vc_position old)"

definition tables_extend :: "voting_tables \<Rightarrow> voting_tables \<Rightarrow> bool" where
  "tables_extend t s \<longleftrightarrow>
     list_all2 bundle_extends (bundles t) (bundles s) \<and> list_all2 vote_extends (votes t) (votes s)"

lemma bundle_extends_refl [simp]: "bundle_extends row row"
  by (simp add: bundle_extends_def split: option.split)

lemma bundle_extends_trans: "\<lbrakk>bundle_extends a b; bundle_extends b c\<rbrakk> \<Longrightarrow> bundle_extends a c"
  by (cases "van_leaf_position a"; cases "van_leaf_position b"; cases "van_leaf_position c")
    (auto simp add: bundle_extends_def)

lemma vote_extends_refl [simp]: "vote_extends vote vote"
  by (simp add: vote_extends_def)

lemma vote_extends_trans: "\<lbrakk>vote_extends a b; vote_extends b c\<rbrakk> \<Longrightarrow> vote_extends a c"
  by (auto simp add: vote_extends_def)

lemma tables_extend_refl [simp]: "tables_extend t t"
  by (simp add: tables_extend_def list_all2_refl)

lemma list_all2_transp:
  assumes "\<And>a b c. \<lbrakk>R a b; R b c\<rbrakk> \<Longrightarrow> R a c" "list_all2 R xs ys" "list_all2 R ys zs"
  shows "list_all2 R xs zs"
  using assms(1) by (rule list_all2_trans [OF _ assms(2,3)])

lemma tables_extend_trans:
  assumes "tables_extend t s" "tables_extend s u"
  shows "tables_extend t u"
proof -
  have "list_all2 bundle_extends (bundles t) (bundles s)" "list_all2 bundle_extends (bundles s) (bundles u)"
    and "list_all2 vote_extends (votes t) (votes s)" "list_all2 vote_extends (votes s) (votes u)"
    using assms by (simp_all add: tables_extend_def)
  then have "list_all2 bundle_extends (bundles t) (bundles u)" "list_all2 vote_extends (votes t) (votes u)"
    using bundle_extends_trans vote_extends_trans by (blast intro: list_all2_transp)+
  then show ?thesis
    by (simp add: tables_extend_def)
qed

lemma list_all2_map_eq: "\<lbrakk>list_all2 R xs ys; \<And>x y. R x y \<Longrightarrow> k y = k x\<rbrakk> \<Longrightarrow> map k ys = map k xs"
  by (induction rule: list_all2_induct) simp_all

lemma keyed_extend:
  assumes "keyed t" "tables_extend t s"
  shows "keyed s"
proof -
  have "map bundle_key (bundles s) = map bundle_key (bundles t)"
    using assms(2) unfolding tables_extend_def by (auto simp add: bundle_extends_def intro: list_all2_map_eq)
  moreover have "map vote_key (votes s) = map vote_key (votes t)"
    using assms(2) unfolding tables_extend_def by (auto simp add: vote_extends_def intro: list_all2_map_eq)
  ultimately show ?thesis
    using assms(1) by (simp add: keyed_def)
qed

lemma update_where_all2:
  assumes "\<And>r. R r r" "\<And>r. \<lbrakk>r \<in> set rows; P r\<rbrakk> \<Longrightarrow> R r (f r)"
  shows "list_all2 R rows (update_where P f rows)"
  using assms by (auto simp add: update_where_def list_all2_conv_all_nth)

lemma distinct_key_find:
  assumes "distinct (map k rows)" "find P rows = Some r" "r' \<in> set rows" "P r'"
    and "\<And>x y. \<lbrakk>P x; P y\<rbrakk> \<Longrightarrow> k x = k y"
  shows "r' = r"
  using assms by (metis distinct_map find_Some_iff inj_on_def nth_mem)

lemma is_bundle_key: "\<lbrakk>is_bundle rid wid b x; is_bundle rid wid b y\<rbrakk> \<Longrightarrow> bundle_key x = bundle_key y"
  by (simp add: is_bundle_def bundle_key_def)

lemma is_vote_key: "\<lbrakk>is_vote rid wid b pid x; is_vote rid wid b pid y\<rbrakk> \<Longrightarrow> vote_key x = vote_key y"
  by (simp add: is_vote_def vote_key_def)

lemma fold_triggers [simp]:
  "votes (fold (\<lambda>old. generation_triggers codec old (f old)) olds t) = votes t"
  "bundles (fold (\<lambda>old. generation_triggers codec old (f old)) olds t) = bundles t"
  "delegate_cast_recovery (fold (\<lambda>old. generation_triggers codec old (f old)) olds t)
     = delegate_cast_recovery t"
  "share_delegations (fold (\<lambda>old. generation_triggers codec old (f old)) olds t) = share_delegations t"
  "ballot_intent (fold (\<lambda>old. generation_triggers codec old (f old)) olds t) = ballot_intent t"
  "combined_cast_rejections (fold (\<lambda>old. generation_triggers codec old (f old)) olds t)
     = combined_cast_rejections t"
  by (induction olds arbitrary: t) (simp_all add: generation_triggers_def)

lemma update_votes_fields [simp]:
  "votes (update_votes codec P f t) = update_where P f (votes t)"
  "bundles (update_votes codec P f t) = bundles t"
  "delegate_cast_recovery (update_votes codec P f t) = delegate_cast_recovery t"
  "share_delegations (update_votes codec P f t) = share_delegations t"
  "ballot_intent (update_votes codec P f t) = ballot_intent t"
  "combined_cast_rejections (update_votes codec P f t) = combined_cast_rejections t"
  by (simp_all add: update_votes_def)

lemma update_votes_extends:
  assumes "\<And>vote. P vote \<Longrightarrow> vote_extends vote (f vote)"
  shows "tables_extend t (update_votes codec P f t)"
  using assms by (simp add: tables_extend_def list_all2_refl update_where_all2)

section \<open>Every operation extends\<close>

lemma store_delegation_tx_hash_extends:
  assumes "store_delegation_tx_hash rid wid b h t = Inr s"
  shows "tables_extend t s"
proof (cases "s = t")
  case False
  then have "s = t\<lparr>bundles := update_where (\<lambda>row. is_bundle rid wid b row
       \<and> (delegation_tx_hash row = None \<or> delegation_tx_hash row = Some h))
       (\<lambda>row. row\<lparr>delegation_tx_hash := Some h\<rparr>) (bundles t)\<rparr>"
    using assms by (auto simp add: store_delegation_tx_hash_def Let_def split: if_splits option.splits)
  then show ?thesis
    by (auto simp add: tables_extend_def list_all2_refl bundle_extends_def bundle_key_def
        intro!: update_where_all2 split: option.splits)
qed simp

lemma store_van_extends:
  assumes ok: "store_van_position_u64 rid wid b van t = Inr s"
    and le: "\<And>row p. \<lbrakk>row \<in> set (bundles t); is_bundle rid wid b row; van_leaf_position row = Some p\<rbrakk>
        \<Longrightarrow> p \<le> int (unat van)"
  shows "tables_extend t s"
proof -
  have "s = t\<lparr>bundles := update_where (is_bundle rid wid b)
       (\<lambda>row. row\<lparr>van_leaf_position := Some (int (unat van))\<rparr>) (bundles t)\<rparr>"
    using ok by (simp add: store_van_position_u64_def split: if_splits)
  then show ?thesis
    using le by (auto simp add: tables_extend_def list_all2_refl bundle_extends_def bundle_key_def
        intro!: update_where_all2 split: option.splits)
qed

lemma loaded_bundle:
  assumes "load_bundle_confirmation_fields t rid wid b = Inr (h, p)" "keyed t"
    and "row \<in> set (bundles t)" "is_bundle rid wid b row"
  shows "delegation_tx_hash row = h" "van_leaf_position row = p"
proof -
  obtain r where find: "find (is_bundle rid wid b) (bundles t) = Some r"
    and r: "delegation_tx_hash r = h" "van_leaf_position r = p"
    using assms(1) by (auto simp add: load_bundle_confirmation_fields_def split: option.splits)
  have "distinct (map bundle_key (bundles t))"
    using assms(2) by (simp add: keyed_def)
  then have "row = r"
    by (rule distinct_key_find [OF _ find assms(3,4)]) (rule is_bundle_key)
  then show "delegation_tx_hash row = h" "van_leaf_position row = p"
    using r by simp_all
qed

lemma advance_van_cases:
  assumes "advance_van_position_in_tx rid wid b van t = Inr s"
  obtains h p where "load_bundle_confirmation_fields t rid wid b = Inr (h, Some p)"
      "int (unat van) < p" "s = t"
  | h p where "load_bundle_confirmation_fields t rid wid b = Inr (h, p)"
      "store_van_position_u64 rid wid b van t = Inr s" "case p of None \<Rightarrow> True | Some q \<Rightarrow> q \<le> int (unat van)"
proof -
  obtain h p where load: "load_bundle_confirmation_fields t rid wid b = Inr (h, p)"
    using assms by (auto simp add: advance_van_position_in_tx_def)
  show thesis
  proof (cases p)
    case None
    then show thesis
      using assms load that(2) [of h p] by (simp add: advance_van_position_in_tx_def)
  next
    case (Some q)
    then have "q > int (unat van) \<and> s = t \<or> q \<le> int (unat van) \<and> store_van_position_u64 rid wid b van t = Inr s"
      using assms load by (auto simp add: advance_van_position_in_tx_def i64_of_def split: if_splits)
    then show thesis
      using load Some that(1) [of h q] that(2) [of h p] by auto
  qed
qed

lemma advance_van_extends:
  assumes keyed: "keyed t" and ok: "advance_van_position_in_tx rid wid b van t = Inr s"
  shows "tables_extend t s"
  using ok
proof (cases rule: advance_van_cases)
  case (2 h p)
  show ?thesis
  proof (rule store_van_extends [OF 2(2)])
    fix row q
    assume "row \<in> set (bundles t)" "is_bundle rid wid b row" "van_leaf_position row = Some q"
    then have "p = Some q"
      using loaded_bundle(2) [OF 2(1) keyed, of row] by simp
    with 2(3) show "q \<le> int (unat van)"
      by simp
  qed
qed simp

lemma store_hash_keeps_van:
  assumes "store_delegation_tx_hash rid wid b h t = Inr u" "row \<in> set (bundles u)"
  obtains row' where "row' \<in> set (bundles t)" "bundle_key row' = bundle_key row"
    "van_leaf_position row' = van_leaf_position row"
proof (cases "u = t")
  case False
  then have "bundles u = update_where (\<lambda>row. is_bundle rid wid b row
       \<and> (delegation_tx_hash row = None \<or> delegation_tx_hash row = Some h))
       (\<lambda>row. row\<lparr>delegation_tx_hash := Some h\<rparr>) (bundles t)"
    using assms(1) by (auto simp add: store_delegation_tx_hash_def Let_def split: if_splits option.splits)
  then show thesis
    using assms(2) that by (auto simp add: update_where_def bundle_key_def split: if_splits)
qed (use assms(2) that in blast)

text \<open>What a successful confirmation of a delegation went through.\<close>

lemma delegation_confirmation_steps:
  assumes keyed: "keyed t" and ok: "apply_delegation_confirmation_with_conn wid rid b tx_hash van t = Inr s"
  obtains h p update u where "load_bundle_confirmation_fields t rid wid b = Inr (h, p)"
    "delegation_van_position_should_update p van = Inr update"
    "(case tx_hash of None \<Rightarrow> Inr t | Some h \<Rightarrow> store_delegation_tx_hash rid wid b h t) = Inr u"
    "(if update then store_van_position_u64 rid wid b van u else Inr u) = Inr s"
    "tables_extend t u" "tables_extend u s"
proof -
  obtain h p update u where load: "load_bundle_confirmation_fields t rid wid b = Inr (h, p)"
    and should: "delegation_van_position_should_update p van = Inr update"
    and hash: "(case tx_hash of None \<Rightarrow> Inr t | Some h \<Rightarrow> store_delegation_tx_hash rid wid b h t) = Inr u"
    and van: "(if update then store_van_position_u64 rid wid b van u else Inr u) = Inr s"
    using ok by (auto simp add: apply_delegation_confirmation_with_conn_def)
  have u: "tables_extend t u"
    using hash store_delegation_tx_hash_extends by (auto split: option.splits)
  have unset: "p = None" if update
    using should that
    by (cases p) (auto simp add: delegation_van_position_should_update_def split: if_splits)
  have empty: "van_leaf_position row = None"
    if update and row: "row \<in> set (bundles u)" "is_bundle rid wid b row" for row
  proof -
    obtain row' where row': "row' \<in> set (bundles t)" "bundle_key row' = bundle_key row"
      "van_leaf_position row' = van_leaf_position row"
      using hash row(1) store_hash_keeps_van by (cases tx_hash) (auto, blast)
    then have "is_bundle rid wid b row'"
      using row(2) by (simp add: is_bundle_def bundle_key_def)
    then show ?thesis
      using loaded_bundle(2) [OF load keyed row'(1)] row'(3) unset [OF that(1)] by simp
  qed
  have "tables_extend u s"
    using van empty store_van_extends [of rid wid b van u s] by (cases update) fastforce+
  then show thesis
    using that load should hash van u by blast
qed

lemma delegation_confirmation_extends:
  assumes "keyed t" "apply_delegation_confirmation_with_conn wid rid b tx_hash van t = Inr s"
  shows "tables_extend t s"
proof (rule delegation_confirmation_steps [OF assms], goal_cases)
  case (1 h p update u)
  show ?case
    by (rule tables_extend_trans [OF 1(5,6)])
qed

lemma record_vote_submission_extends:
  assumes "record_vote_submission codec rid wid b pid h t = Inr s"
  shows "tables_extend t s"
proof (cases "s = t")
  case False
  then have "s = update_votes codec (\<lambda>vote. is_vote rid wid b pid vote
           \<and> (vote_tx_hash vote = None \<or> vote_tx_hash vote = Some h) \<and> intent_allows rid wid pid t vote)
       (\<lambda>vote. vote\<lparr>vote_tx_hash := Some h\<rparr>) t"
    using assms by (auto simp add: record_vote_submission_def Let_def split: if_splits option.splits)
  then show ?thesis
    by (auto simp add: vote_extends_def vote_key_def intro!: update_votes_extends)
qed simp

lemma record_hash_extends:
  "record_hash codec rid wid b pid tx_hash t = Inr s \<Longrightarrow> tables_extend t s"
  by (auto simp add: record_hash_def dest: record_vote_submission_extends split: option.splits)

lemma store_position_extends:
  "store_recovery_json_with_vc_position_if_unchanged codec wid rid b pid choice commitment json json' p t
     = Inr s \<Longrightarrow> tables_extend t s"
  "store_vc_position_if_unset_or_same codec wid rid b pid choice commitment p t = Inr s
     \<Longrightarrow> tables_extend t s"
  by (auto simp add: store_recovery_json_with_vc_position_if_unchanged_def
      store_vc_position_if_unset_or_same_def Let_def vote_extends_def vote_key_def position_row_def
      intro!: update_votes_extends split: if_splits option.splits)

lemma record_vc_position_extends:
  "record_vc_position_with_conn codec wid rid b pid vc t = Inr s \<Longrightarrow> tables_extend t s"
  by (auto simp add: record_vc_position_with_conn_def dest: store_position_extends split: option.splits)

lemma run_steps_extends:
  assumes "\<And>s x u. step s x = Inr u \<Longrightarrow> tables_extend s u"
    and "run_steps step t xs = Inr s"
  shows "tables_extend t s"
  using assms(2)
proof (induction xs arbitrary: t)
  case (Cons x xs)
  then show ?case
    using assms(1) tables_extend_trans by fastforce
qed simp

lemma batch_member_extends:
  assumes "apply_batch_member codec wid rid b tx_hash t x = Inr s"
  shows "tables_extend t s"
proof -
  obtain recovery vc u where "x = (recovery, vc)"
    and "record_hash codec rid wid b (rec_proposal_id recovery) tx_hash t = Inr u"
    and "record_vc_position_with_conn codec wid rid b (rec_proposal_id recovery) vc u = Inr s"
    using assms by (cases x) (auto simp add: apply_batch_member_def)
  then show ?thesis
    using record_hash_extends record_vc_position_extends tables_extend_trans by meson
qed

text \<open>What a successful confirmation of a vote or of a batch went through.\<close>

lemma vote_confirmation_steps:
  assumes "apply_vote_confirmation_with_conn codec wid rid b pid tx_hash van vc t = Inr s"
  obtains u v where "record_hash codec rid wid b pid tx_hash t = Inr u"
    "advance_van_position_in_tx rid wid b van u = Inr v"
    "record_vc_position_with_conn codec wid rid b pid vc v = Inr s"
  using assms by (auto simp add: apply_vote_confirmation_with_conn_def)

lemma batch_confirmation_steps:
  assumes "apply_vote_batch_confirmation_with_conn codec wid rid b digest tx_hash van vcs ids ns t = Inr s"
  obtains recoveries u where
    "load_vote_batch_recoveries_with_conn codec t wid rid b digest = Inr recoveries"
    "ids = None \<or> ids = Some (map rec_proposal_id recoveries)" "length vcs = length recoveries"
    "run_steps (apply_batch_member codec wid rid b tx_hash) t (zip recoveries vcs) = Inr u"
    "advance_van_position_in_tx rid wid b van u = Inr s"
  using assms by (auto simp add: apply_vote_batch_confirmation_with_conn_def split: if_splits option.splits)

lemma vote_confirmation_extends:
  assumes "keyed t" "apply_vote_confirmation_with_conn codec wid rid b pid tx_hash van vc t = Inr s"
  shows "tables_extend t s"
proof -
  obtain u v where u: "record_hash codec rid wid b pid tx_hash t = Inr u"
    and v: "advance_van_position_in_tx rid wid b van u = Inr v"
    and s: "record_vc_position_with_conn codec wid rid b pid vc v = Inr s"
    using assms(2) by (rule vote_confirmation_steps)
  have tu: "tables_extend t u"
    using u by (rule record_hash_extends)
  have "tables_extend u v"
    using advance_van_extends [OF keyed_extend [OF assms(1) tu] v] .
  with tu record_vc_position_extends [OF s] show ?thesis
    by (meson tables_extend_trans)
qed

lemma batch_confirmation_extends:
  assumes "keyed t"
    and "apply_vote_batch_confirmation_with_conn codec wid rid b digest tx_hash van vcs ids ns t = Inr s"
  shows "tables_extend t s"
proof -
  obtain recoveries u where
    u: "run_steps (apply_batch_member codec wid rid b tx_hash) t (zip recoveries vcs) = Inr u"
    and s: "advance_van_position_in_tx rid wid b van u = Inr s"
    using assms(2) by (rule batch_confirmation_steps)
  have tu: "tables_extend t u"
    by (rule run_steps_extends [OF batch_member_extends u])
  show ?thesis
    using tables_extend_trans [OF tu advance_van_extends [OF keyed_extend [OF assms(1) tu] s]] .
qed

definition round_of :: "table_codec \<Rightarrow> ChainSubmissionIdentity \<Rightarrow> unicode" where
  "round_of codec i = rc_hex_encode (tc_recovery codec) (vote_round_id i)"

definition hash_of :: "table_codec \<Rightarrow> ValidatedChainSubmissionConfirmation \<Rightarrow> unicode option" where
  "hash_of codec validated =
     map_option (rc_hex_encode (tc_recovery codec)) (conf_transaction_hash (confirmation validated))"

lemma store_delegation_tx_hash_votes:
  "store_delegation_tx_hash rid wid b h t = Inr s \<Longrightarrow> votes s = votes t"
  by (auto simp add: store_delegation_tx_hash_def Let_def split: if_splits option.splits)

lemma clear_ledger_extends:
  "votes (snd (clear_combined_rejection_ledger wid rid b t)) = votes t"
  "tables_extend t (snd (clear_combined_rejection_ledger wid rid b t))"
  by (simp_all add: clear_combined_rejection_ledger_def tables_extend_def list_all2_refl)

lemma combined_tail:
  assumes "and_then (case tx_hash of None \<Rightarrow> Inr u | Some h \<Rightarrow> store_delegation_tx_hash rid wid b h u)
      (\<lambda>v. Inr (snd (clear_combined_rejection_ledger wid rid b v))) = Inr s"
  shows "votes s = votes u" "tables_extend u s"
proof -
  obtain v where v: "(case tx_hash of None \<Rightarrow> Inr u | Some h \<Rightarrow> store_delegation_tx_hash rid wid b h u) = Inr v"
    and s: "s = snd (clear_combined_rejection_ledger wid rid b v)"
    using assms by auto
  have "votes v = votes u \<and> tables_extend u v"
    using v store_delegation_tx_hash_votes store_delegation_tx_hash_extends
    by (auto split: option.splits)
  then show "votes s = votes u" "tables_extend u s"
    using clear_ledger_extends [where t = v] tables_extend_trans unfolding s by auto
qed

lemma confirmed_generation_cases:
  assumes "apply_confirmed_generation codec locked validated t = Inr s"
    and "i = gen_identity (generation locked)" "c = confirmation validated"
  obtains (delegation) "target i = Delegation" "vote_commitment_positions c = []"
      "apply_delegation_confirmation_with_conn (wallet_id i) (round_of codec i) (bundle_index i)
         (hash_of codec validated) (final_van_position c) t = Inr s"
  | (vote) pid vc where "target i = Vote pid" "vote_commitment_positions c = [vc]"
      "apply_vote_confirmation_with_conn codec (wallet_id i) (round_of codec i) (bundle_index i) pid
         (hash_of codec validated) (final_van_position c) vc t = Inr s"
  | (batch) digest u where "target i = VoteBatch digest \<or> target i = DelegateAndVoteBatch digest"
      "apply_vote_batch_confirmation_with_conn codec (wallet_id i) (round_of codec i) (bundle_index i)
         digest (hash_of codec validated) (final_van_position c) (vote_commitment_positions c)
         (Some (ordered_proposal_ids locked)) None t = Inr u"
      "votes s = votes u" "tables_extend u s"
      "is_combined (target i) \<longrightarrow> and_then (case hash_of codec validated of None \<Rightarrow> Inr u
           | Some h \<Rightarrow> store_delegation_tx_hash (round_of codec i) (wallet_id i) (bundle_index i) h u)
         (\<lambda>v. Inr (snd (clear_combined_rejection_ledger (wallet_id i) (round_of codec i)
            (bundle_index i) v))) = Inr s"
proof (cases "target i")
  case Delegation
  then show thesis
    using assms(1) delegation
    by (cases "expected_layout locked") (simp_all add: apply_confirmed_generation_def Let_def assms(2,3)
        round_of_def hash_of_def split: if_splits)
next
  case (Vote pid)
  then obtain vc where "vote_commitment_positions c = [vc]"
    using assms(1) by (cases "expected_layout locked") (auto simp add: apply_confirmed_generation_def Let_def
        assms(2,3) length_Suc_conv split: if_splits)
  then show thesis
    using assms(1) vote [OF Vote] Vote
    by (cases "expected_layout locked") (simp_all add: apply_confirmed_generation_def Let_def assms(2,3)
        round_of_def hash_of_def)
next
  case (VoteBatch digest)
  then show thesis
    using assms(1) batch [of digest s]
    by (cases "expected_layout locked") (auto simp add: apply_confirmed_generation_def Let_def assms(2,3)
        round_of_def hash_of_def split: if_splits)
next
  case (DelegateAndVoteBatch digest)
  obtain u where u: "apply_vote_batch_confirmation_with_conn codec (wallet_id i) (round_of codec i)
         (bundle_index i) digest (hash_of codec validated) (final_van_position c)
         (vote_commitment_positions c) (Some (ordered_proposal_ids locked)) None t = Inr u"
    and tail: "and_then (case hash_of codec validated of None \<Rightarrow> Inr u
           | Some h \<Rightarrow> store_delegation_tx_hash (round_of codec i) (wallet_id i) (bundle_index i) h u)
         (\<lambda>v. Inr (snd (clear_combined_rejection_ledger (wallet_id i) (round_of codec i)
            (bundle_index i) v))) = Inr s"
    using assms(1) DelegateAndVoteBatch
    unfolding apply_confirmed_generation_def Let_def round_of_def hash_of_def assms(2,3)
    by (cases "expected_layout locked") (auto split: if_splits)
  show thesis
    using batch [of digest u] DelegateAndVoteBatch u combined_tail [OF tail] tail by blast
qed

lemma confirmed_generation_extends:
  assumes keyed: "keyed t" and ok: "apply_confirmed_generation codec locked validated t = Inr s"
  shows "tables_extend t s"
proof (rule confirmed_generation_cases [OF ok refl refl], goal_cases)
  case 1
  show ?case by (rule delegation_confirmation_extends [OF keyed 1(3)])
next
  case (2 pid vc)
  show ?case by (rule vote_confirmation_extends [OF keyed 2(3)])
next
  case (3 digest u)
  show ?case by (rule tables_extend_trans [OF batch_confirmation_extends [OF keyed 3(2)] 3(4)])
qed

section \<open>Retirement extends\<close>

lemma clear_unsubmitted_extends:
  assumes "clear_unsubmitted_vote_recovery_with_conn codec wid rid b pid t = Inr s"
  shows "tables_extend t s"
proof -
  have "tables_extend t (update_votes codec (\<lambda>vote. is_vote rid wid b pid vote \<and> vote_tx_hash vote = None
      \<and> vote_vc_position vote = None) (\<lambda>vote. vote\<lparr>vote_recovery_json := None\<rparr>) t)" (is "tables_extend t ?u")
    by (rule update_votes_extends) (simp add: vote_extends_def vote_key_def)
  moreover have "votes s = votes ?u" "bundles s = bundles ?u"
    using assms by (auto simp add: clear_unsubmitted_vote_recovery_with_conn_def Let_def split: if_splits)
  ultimately show ?thesis
    by (simp add: tables_extend_def)
qed

lemma record_rejection_tables:
  assumes "record_combined_rejection err i rid gd digest diagnostic now t = Inr s"
  shows "votes s = votes t" "bundles s = bundles t" "share_delegations s = share_delegations t"
    "delegate_cast_recovery s = delegate_cast_recovery t" "helper_share_plans s = helper_share_plans t"
    "round_immediate_share s = round_immediate_share t"
  using assms by (auto simp add: record_combined_rejection_def Let_def split: if_splits option.splits)

text \<open>What a successful retirement went through.\<close>

lemma retirement_steps:
  assumes "retire_rejected_combined_generation codec err i diagnostic now t = Inr s"
  obtains digest gd members u where "target i = DelegateAndVoteBatch digest"
    "persisted_generation_digest t (wallet_id i) (round_of codec i) (bundle_index i) digest = Inr (Some gd)"
    "load_vote_batch_recoveries_with_conn codec t (wallet_id i) (round_of codec i) (bundle_index i) digest
       = Inr members"
    "members \<noteq> []"
    "run_steps (\<lambda>t member. clear_unsubmitted_vote_recovery_with_conn codec (wallet_id i) (round_of codec i)
       (bundle_index i) (rec_proposal_id member) t) t members = Inr u"
    "record_combined_rejection err i (round_of codec i) gd digest diagnostic now
       (retire_combined_authorization_with_conn codec (wallet_id i) (round_of codec i) (bundle_index i) u)
     = Inr s"
  using assms
  by (cases "target i") (auto simp add: retire_rejected_combined_generation_def Let_def round_of_def
      clear_vote_batch_recovery_with_conn_def split: if_splits)

lemma retirement_extends:
  assumes "retire_rejected_combined_generation codec err i diagnostic now t = Inr s"
  shows "tables_extend t s"
proof (rule retirement_steps [OF assms], goal_cases)
  case (1 digest gd members u)
  have "tables_extend t u"
    by (rule run_steps_extends [OF clear_unsubmitted_extends 1(5)])
  then show ?case
    using record_rejection_tables(1,2) [OF 1(6)]
    by (simp add: tables_extend_def retire_combined_authorization_with_conn_def)
qed

section \<open>Sequences of projections\<close>

datatype projection =
    ProjectConfirmed BoundGeneration ValidatedChainSubmissionConfirmation
  | ProjectRejected ChainSubmissionIdentity ChainSubmissionDiagnostic u64

fun project :: "table_codec \<Rightarrow> unicode \<Rightarrow> voting_tables \<Rightarrow> projection
    \<Rightarrow> Voting_Types.VotingError + voting_tables" where
  "project codec err t (ProjectConfirmed locked validated) = apply_confirmed_generation codec locked validated t"
| "project codec err t (ProjectRejected i diagnostic now) =
     retire_rejected_combined_generation codec err i diagnostic now t"

interpretation projecting: stepwise_invariant "project codec err" "\<lambda>_ s. keyed s \<and> tables_extend t s"
  for codec err t
proof unfold_locales
  fix hist s x u
  assume s: "keyed s \<and> tables_extend t s" and step: "project codec err s x = Inr u"
  have "tables_extend s u"
    using step s confirmed_generation_extends retirement_extends by (cases x) auto
  with s show "keyed u \<and> tables_extend t u"
    by (meson keyed_extend tables_extend_trans)
qed

text \<open>
  C25.  Over every sequence of confirmations and rejections that succeeds, in any order and for any
  generations, what a confirmation recorded is final: no row appears or disappears, a recorded
  delegation or vote hash and a recorded commitment position never change, a bundle's VAN position
  never decreases, and no vote changes its choice or commitment.
\<close>

theorem projections_write_once:
  assumes "keyed t" "run_steps (project codec err) t steps = Inr s"
  shows "list_all2 bundle_extends (bundles t) (bundles s) \<and> list_all2 vote_extends (votes t) (votes s)
    \<and> keyed s"
proof -
  have "keyed s \<and> tables_extend t s"
    by (rule projecting.run_holds [OF _ assms(2)]) (use assms(1) in simp)
  then show ?thesis
    by (simp add: tables_extend_def)
qed

section \<open>A confirmed generation is recorded\<close>

definition vote_recorded ::
  "voting_tables \<Rightarrow> unicode \<Rightarrow> bytes \<Rightarrow> u32 \<Rightarrow> unicode option \<Rightarrow> u32 \<Rightarrow> u64 \<Rightarrow> bool" where
  "vote_recorded t rid wid b tx_hash pid vc \<longleftrightarrow>
     (case find (is_vote rid wid b pid) (votes t) of
        None \<Rightarrow> False
      | Some vote \<Rightarrow> vote_vc_position vote = Some (int (unat vc))
          \<and> (tx_hash = None \<or> vote_tx_hash vote = tx_hash))"

definition van_recorded :: "voting_tables \<Rightarrow> unicode \<Rightarrow> bytes \<Rightarrow> u32 \<Rightarrow> u64 \<Rightarrow> bool" where
  "van_recorded t rid wid b van \<longleftrightarrow>
     (case Option.bind (find (is_bundle rid wid b) (bundles t)) van_leaf_position of
        None \<Rightarrow> False
      | Some p \<Rightarrow> int (unat van) \<le> p)"

definition delegation_recorded ::
  "voting_tables \<Rightarrow> unicode \<Rightarrow> bytes \<Rightarrow> u32 \<Rightarrow> unicode option \<Rightarrow> bool" where
  "delegation_recorded t rid wid b tx_hash \<longleftrightarrow>
     tx_hash = None \<or> Option.bind (find (is_bundle rid wid b) (bundles t)) delegation_tx_hash = tx_hash"

fun confirmed_ids :: "ChainSubmissionTarget \<Rightarrow> u32 list \<Rightarrow> u32 list" where
  "confirmed_ids Delegation ids = []"
| "confirmed_ids (Vote pid) ids = [pid]"
| "confirmed_ids _ ids = ids"

lemma find_update_where:
  assumes "find P rows = Some r" "\<And>x. P (f x) = P x"
  shows "find P (update_where Q f rows) = Some (if Q r then f r else r)"
  using assms(1) by (induction rows) (auto simp add: update_where_def assms(2) split: if_splits)

lemma find_all2:
  assumes "list_all2 R xs ys" "find P xs = Some x" "\<And>x y. R x y \<Longrightarrow> P y = P x"
  obtains y where "find P ys = Some y" "R x y"
  using assms(1,2)
proof (induction arbitrary: thesis rule: list_all2_induct)
  case (Cons a as c cs)
  then show ?case
    using assms(3) [of a c] by (cases "P a") auto
qed simp

lemma found_vote_extends:
  assumes "tables_extend t s" "find (is_vote rid wid b pid) (votes t) = Some vote"
  obtains vote' where "find (is_vote rid wid b pid) (votes s) = Some vote'" "vote_extends vote vote'"
proof -
  have "list_all2 vote_extends (votes t) (votes s)"
    using assms(1) by (simp add: tables_extend_def)
  then show thesis
    using assms(2) by (rule find_all2)
      (auto simp add: vote_extends_def vote_key_def is_vote_def intro: that)
qed

lemma found_bundle_extends:
  assumes "tables_extend t s" "find (is_bundle rid wid b) (bundles t) = Some row"
  obtains row' where "find (is_bundle rid wid b) (bundles s) = Some row'" "bundle_extends row row'"
proof -
  have "list_all2 bundle_extends (bundles t) (bundles s)"
    using assms(1) by (simp add: tables_extend_def)
  then show thesis
    using assms(2) by (rule find_all2)
      (auto simp add: bundle_extends_def bundle_key_def is_bundle_def intro: that)
qed

lemma vote_recorded_extends:
  assumes "vote_recorded t rid wid b h pid vc" "tables_extend t s"
  shows "vote_recorded s rid wid b h pid vc"
proof -
  obtain vote where vote: "find (is_vote rid wid b pid) (votes t) = Some vote"
    "vote_vc_position vote = Some (int (unat vc))" "h = None \<or> vote_tx_hash vote = h"
    using assms(1) by (auto simp add: vote_recorded_def split: option.splits)
  obtain vote' where "find (is_vote rid wid b pid) (votes s) = Some vote'" "vote_extends vote vote'"
    using assms(2) vote(1) by (rule found_vote_extends)
  then show ?thesis
    using vote(2,3) by (auto simp add: vote_recorded_def vote_extends_def)
qed

lemma van_recorded_extends:
  assumes "van_recorded t rid wid b van" "tables_extend t s"
  shows "van_recorded s rid wid b van"
proof -
  obtain row p where row: "find (is_bundle rid wid b) (bundles t) = Some row"
    "van_leaf_position row = Some p" "int (unat van) \<le> p"
    using assms(1) by (auto simp add: van_recorded_def split: option.splits bind_splits)
  obtain row' where "find (is_bundle rid wid b) (bundles s) = Some row'" "bundle_extends row row'"
    using assms(2) row(1) by (rule found_bundle_extends)
  then show ?thesis
    using row(2,3) by (auto simp add: van_recorded_def bundle_extends_def split: option.splits)
qed

lemma delegation_recorded_extends:
  assumes "delegation_recorded t rid wid b h" "tables_extend t s"
  shows "delegation_recorded s rid wid b h"
proof (cases h)
  case (Some hash)
  obtain row where row: "find (is_bundle rid wid b) (bundles t) = Some row" "delegation_tx_hash row = h"
    using assms(1) Some by (auto simp add: delegation_recorded_def split: bind_splits)
  obtain row' where "find (is_bundle rid wid b) (bundles s) = Some row'" "bundle_extends row row'"
    using assms(2) row(1) by (rule found_bundle_extends)
  then show ?thesis
    using row(2) Some by (auto simp add: delegation_recorded_def bundle_extends_def)
qed (simp add: delegation_recorded_def)

lemma record_vc_position_recorded:
  assumes "record_vc_position_with_conn codec wid rid b pid vc t = Inr s"
  shows "vote_recorded s rid wid b None pid vc"
proof -
  obtain vote where vote: "find (is_vote rid wid b pid) (votes t) = Some vote"
    using assms by (auto simp add: record_vc_position_with_conn_def)
  have pos: "vote_vc_position vote = None \<or> vote_vc_position vote = Some (int (unat vc))"
    using assms vote by (cases "vote_vc_position vote")
      (auto simp add: record_vc_position_with_conn_def split: if_splits)
  have here: "vote \<in> set (votes t)" "is_vote rid wid b pid vote"
    using vote by (auto simp add: find_Some_iff)
  then have row: "position_row rid wid b pid (vote_choice vote) (vote_commitment_blob vote) (int (unat vc)) vote"
    using pos by (simp add: position_row_def)
  show ?thesis
  proof (cases "vote_recovery_json vote")
    case None
    then have "store_vc_position_if_unset_or_same codec wid rid b pid (vote_choice vote)
        (vote_commitment_blob vote) (int (unat vc)) t = Inr s"
      using assms vote by (auto simp add: record_vc_position_with_conn_def)
    then have "votes s = update_where (position_row rid wid b pid (vote_choice vote)
        (vote_commitment_blob vote) (int (unat vc))) (\<lambda>v. v\<lparr>vote_vc_position := Some (int (unat vc))\<rparr>) (votes t)"
      using here row
      by (auto simp add: store_vc_position_if_unset_or_same_def Let_def list_ex_iff split: if_splits)
    then show ?thesis
      using row by (simp add: vote_recorded_def find_update_where [OF vote] is_vote_def)
  next
    case (Some json)
    then obtain json' where "store_recovery_json_with_vc_position_if_unchanged codec wid rid b pid
        (vote_choice vote) (vote_commitment_blob vote) json json' (int (unat vc)) t = Inr s"
      using assms vote by (auto simp add: record_vc_position_with_conn_def)
    then have "votes s = update_where (\<lambda>v. position_row rid wid b pid (vote_choice vote)
        (vote_commitment_blob vote) (int (unat vc)) v \<and> vote_recovery_json v = Some json)
        (\<lambda>v. v\<lparr>vote_recovery_json := Some json', vote_vc_position := Some (int (unat vc))\<rparr>) (votes t)"
      using here row Some
      by (auto simp add: store_recovery_json_with_vc_position_if_unchanged_def Let_def list_ex_iff
          split: if_splits)
    then show ?thesis
      using row Some by (simp add: vote_recorded_def find_update_where [OF vote] is_vote_def)
  qed
qed

definition hash_recorded ::
  "voting_tables \<Rightarrow> unicode \<Rightarrow> bytes \<Rightarrow> u32 \<Rightarrow> unicode option \<Rightarrow> u32 \<Rightarrow> bool" where
  "hash_recorded t rid wid b tx_hash pid \<longleftrightarrow>
     tx_hash = None \<or> Option.bind (find (is_vote rid wid b pid) (votes t)) vote_tx_hash = tx_hash"

lemma recorded_hash_position:
  "\<lbrakk>hash_recorded t rid wid b h pid; vote_recorded t rid wid b None pid vc\<rbrakk>
   \<Longrightarrow> vote_recorded t rid wid b h pid vc"
  by (auto simp add: hash_recorded_def vote_recorded_def split: option.splits)

lemma hash_recorded_extends:
  assumes "hash_recorded t rid wid b h pid" "tables_extend t s"
  shows "hash_recorded s rid wid b h pid"
proof (cases h)
  case (Some hash)
  obtain vote where vote: "find (is_vote rid wid b pid) (votes t) = Some vote" "vote_tx_hash vote = h"
    using assms(1) Some by (auto simp add: hash_recorded_def split: bind_splits)
  obtain vote' where "find (is_vote rid wid b pid) (votes s) = Some vote'" "vote_extends vote vote'"
    using assms(2) vote(1) by (rule found_vote_extends)
  then show ?thesis
    using vote(2) Some by (auto simp add: hash_recorded_def vote_extends_def)
qed (simp add: hash_recorded_def)

lemma record_vote_submission_recorded:
  assumes keyed: "keyed t" and ok: "record_vote_submission codec rid wid b pid h t = Inr s"
  shows "hash_recorded s rid wid b (Some h) pid"
proof (cases "s = t \<and> Option.bind (find (is_vote rid wid b pid) (votes t)) vote_tx_hash = Some h")
  case False
  define Q where "Q = (\<lambda>vote. is_vote rid wid b pid vote
      \<and> (vote_tx_hash vote = None \<or> vote_tx_hash vote = Some h) \<and> intent_allows rid wid pid t vote)"
  have s: "s = update_votes codec Q (\<lambda>vote. vote\<lparr>vote_tx_hash := Some h\<rparr>) t" and ex: "list_ex Q (votes t)"
    using ok False by (auto simp add: record_vote_submission_def Let_def Q_def split: if_splits option.splits)
  obtain vote where vote: "vote \<in> set (votes t)" "Q vote"
    using ex by (auto simp add: list_ex_iff)
  then have here: "is_vote rid wid b pid vote"
    by (simp add: Q_def)
  then obtain first where first: "find (is_vote rid wid b pid) (votes t) = Some first"
    using vote(1) by (metis find_None_iff option.exhaust)
  have "distinct (map vote_key (votes t))"
    using keyed by (simp add: keyed_def)
  then have "vote = first"
    by (rule distinct_key_find [OF _ first vote(1) here]) (rule is_vote_key)
  then show ?thesis
    using vote(2) by (simp add: hash_recorded_def s find_update_where [OF first] is_vote_def)
qed (simp add: hash_recorded_def)

lemma record_hash_recorded:
  "\<lbrakk>keyed t; record_hash codec rid wid b pid tx_hash t = Inr s\<rbrakk> \<Longrightarrow> hash_recorded s rid wid b tx_hash pid"
  by (cases tx_hash) (auto simp add: record_hash_def hash_recorded_def [of _ _ _ _ None]
      dest: record_vote_submission_recorded)

lemma store_van_recorded:
  assumes "store_van_position_u64 rid wid b van t = Inr s"
  shows "van_recorded s rid wid b van"
proof -
  obtain row where row: "find (is_bundle rid wid b) (bundles t) = Some row"
    using assms by (cases "find (is_bundle rid wid b) (bundles t)")
      (auto simp add: store_van_position_u64_def find_None_iff list_ex_iff split: if_splits)
  have "is_bundle rid wid b row"
    using row by (auto simp add: find_Some_iff)
  then have "find (is_bundle rid wid b) (bundles s) = Some (row\<lparr>van_leaf_position := Some (int (unat van))\<rparr>)"
    using assms find_update_where [OF row, of "\<lambda>row. row\<lparr>van_leaf_position := Some (int (unat van))\<rparr>"]
    by (auto simp add: store_van_position_u64_def is_bundle_def split: if_splits)
  then show ?thesis
    by (simp add: van_recorded_def)
qed

lemma loaded_van:
  assumes "load_bundle_confirmation_fields t rid wid b = Inr (h, Some p)" "int (unat van) \<le> p"
  shows "van_recorded t rid wid b van"
  using assms by (auto simp add: load_bundle_confirmation_fields_def van_recorded_def split: option.splits)

lemma advance_van_recorded:
  assumes "advance_van_position_in_tx rid wid b van t = Inr s"
  shows "van_recorded s rid wid b van"
proof (rule advance_van_cases [OF assms], goal_cases)
  case (1 h p)
  then show ?case
    using loaded_van [of t rid wid b h p van] by simp
next
  case (2 h p)
  show ?case
    by (rule store_van_recorded [OF 2(2)])
qed

lemma store_delegation_tx_hash_recorded:
  assumes keyed: "keyed t" and ok: "store_delegation_tx_hash rid wid b h t = Inr s"
  shows "delegation_recorded s rid wid b (Some h)"
proof (cases "s = t \<and> Option.bind (find (is_bundle rid wid b) (bundles t)) delegation_tx_hash = Some h")
  case False
  define Q where "Q = (\<lambda>row. is_bundle rid wid b row
      \<and> (delegation_tx_hash row = None \<or> delegation_tx_hash row = Some h))"
  have s: "s = t\<lparr>bundles := update_where Q (\<lambda>row. row\<lparr>delegation_tx_hash := Some h\<rparr>) (bundles t)\<rparr>"
    and ex: "list_ex Q (bundles t)"
    using ok False by (auto simp add: store_delegation_tx_hash_def existing_delegation_tx_hash_def
        Let_def Q_def split: if_splits option.splits)
  obtain row where row: "row \<in> set (bundles t)" "Q row"
    using ex by (auto simp add: list_ex_iff)
  then have here: "is_bundle rid wid b row"
    by (simp add: Q_def)
  then obtain first where first: "find (is_bundle rid wid b) (bundles t) = Some first"
    using row(1) by (metis find_None_iff option.exhaust)
  have "distinct (map bundle_key (bundles t))"
    using keyed by (simp add: keyed_def)
  then have "row = first"
    by (rule distinct_key_find [OF _ first row(1) here]) (rule is_bundle_key)
  then show ?thesis
    using row(2) by (simp add: delegation_recorded_def s find_update_where [OF first] is_bundle_def)
qed (simp add: delegation_recorded_def)

lemma batch_member_recorded:
  assumes keyed: "keyed t" and ok: "apply_batch_member codec wid rid b h t (recovery, vc) = Inr s"
  shows "vote_recorded s rid wid b h (rec_proposal_id recovery) vc"
proof -
  obtain u where u: "record_hash codec rid wid b (rec_proposal_id recovery) h t = Inr u"
    and s: "record_vc_position_with_conn codec wid rid b (rec_proposal_id recovery) vc u = Inr s"
    using ok by (auto simp add: apply_batch_member_def)
  have "hash_recorded s rid wid b h (rec_proposal_id recovery)"
    by (rule hash_recorded_extends [OF record_hash_recorded [OF keyed u] record_vc_position_extends [OF s]])
  then show ?thesis
    using record_vc_position_recorded [OF s] by (rule recorded_hash_position)
qed

lemma batch_members_recorded:
  assumes "keyed t" "run_steps (apply_batch_member codec wid rid b h) t (zip recoveries vcs) = Inr s"
    and "(pid, vc) \<in> set (zip (map rec_proposal_id recoveries) vcs)"
  shows "vote_recorded s rid wid b h pid vc"
  using assms
proof (induction recoveries vcs arbitrary: t rule: list_induct2')
  case (4 r rs v vs)
  obtain u where u: "apply_batch_member codec wid rid b h t (r, v) = Inr u"
    and rest: "run_steps (apply_batch_member codec wid rid b h) u (zip rs vs) = Inr s"
    using 4(3) by auto
  have us: "tables_extend u s"
    by (rule run_steps_extends [OF batch_member_extends rest])
  show ?case
  proof (cases "(pid, vc) = (rec_proposal_id r, v)")
    case True
    then show ?thesis
      using vote_recorded_extends [OF batch_member_recorded [OF 4(2) u] us] by simp
  next
    case False
    then show ?thesis
      using 4(1) [OF keyed_extend [OF 4(2) batch_member_extends [OF u]] rest] 4(4) by auto
  qed
qed simp_all

lemma vote_confirmation_recorded:
  assumes keyed: "keyed t"
    and ok: "apply_vote_confirmation_with_conn codec wid rid b pid h van vc t = Inr s"
  shows "vote_recorded s rid wid b h pid vc" "van_recorded s rid wid b van"
proof -
  obtain u v where u: "record_hash codec rid wid b pid h t = Inr u"
    and v: "advance_van_position_in_tx rid wid b van u = Inr v"
    and s: "record_vc_position_with_conn codec wid rid b pid vc v = Inr s"
    using ok by (rule vote_confirmation_steps)
  have uv: "tables_extend u v"
    by (rule advance_van_extends [OF keyed_extend [OF keyed record_hash_extends [OF u]] v])
  have vs: "tables_extend v s"
    using s by (rule record_vc_position_extends)
  have "hash_recorded s rid wid b h pid"
    by (rule hash_recorded_extends [OF record_hash_recorded [OF keyed u] tables_extend_trans [OF uv vs]])
  then show "vote_recorded s rid wid b h pid vc"
    using record_vc_position_recorded [OF s] by (rule recorded_hash_position)
  show "van_recorded s rid wid b van"
    by (rule van_recorded_extends [OF advance_van_recorded [OF v] vs])
qed

lemma batch_confirmation_recorded:
  assumes keyed: "keyed t"
    and ok: "apply_vote_batch_confirmation_with_conn codec wid rid b digest h van vcs (Some ids) ns t = Inr s"
  shows "length ids = length vcs" "list_all2 (vote_recorded s rid wid b h) ids vcs" "van_recorded s rid wid b van"
proof -
  obtain recoveries u where ids: "ids = map rec_proposal_id recoveries" "length vcs = length recoveries"
    and u: "run_steps (apply_batch_member codec wid rid b h) t (zip recoveries vcs) = Inr u"
    and s: "advance_van_position_in_tx rid wid b van u = Inr s"
    using ok by (rule batch_confirmation_steps) auto
  show len: "length ids = length vcs"
    using ids by simp
  have us: "tables_extend u s"
    by (rule advance_van_extends [OF keyed_extend [OF keyed run_steps_extends [OF batch_member_extends u]] s])
  have "vote_recorded s rid wid b h pid vc" if "(pid, vc) \<in> set (zip ids vcs)" for pid vc
    using vote_recorded_extends [OF batch_members_recorded [OF keyed u] us] that unfolding ids(1) .
  then show "list_all2 (vote_recorded s rid wid b h) ids vcs"
    using len by (auto simp add: list_all2_iff)
  show "van_recorded s rid wid b van"
    using s by (rule advance_van_recorded)
qed

lemma delegation_confirmation_recorded:
  assumes keyed: "keyed t"
    and ok: "apply_delegation_confirmation_with_conn wid rid b h van t = Inr s"
  shows "van_recorded s rid wid b van \<and> delegation_recorded s rid wid b h"
proof (rule delegation_confirmation_steps [OF assms], goal_cases)
  case (1 g p update u)
  have "van_recorded s rid wid b van"
  proof (cases update)
    case False
    then obtain q where q: "p = Some q" "int (unat van) \<le> q" "u = s"
      using 1(2,4) by (cases p) (auto simp add: delegation_van_position_should_update_def i64_of_def
          split: if_splits)
    show ?thesis
      using van_recorded_extends [OF loaded_van [OF 1(1) [unfolded q(1)] q(2)] 1(5)] q(3) by simp
  qed (use 1(4) store_van_recorded in simp)
  moreover have "delegation_recorded u rid wid b h"
    using 1(3) store_delegation_tx_hash_recorded [OF keyed] by (cases h) (auto simp add: delegation_recorded_def)
  ultimately show ?case
    using delegation_recorded_extends 1(6) by blast
qed

lemma combined_tail_recorded:
  assumes "keyed u" "and_then (case tx_hash of None \<Rightarrow> Inr u | Some h \<Rightarrow> store_delegation_tx_hash rid wid b h u)
      (\<lambda>v. Inr (snd (clear_combined_rejection_ledger wid rid b v))) = Inr s"
  shows "delegation_recorded s rid wid b tx_hash" "\<not> list_ex (is_rejection rid wid b) (combined_cast_rejections s)"
proof -
  obtain v where v: "(case tx_hash of None \<Rightarrow> Inr u | Some h \<Rightarrow> store_delegation_tx_hash rid wid b h u) = Inr v"
    and s: "s = snd (clear_combined_rejection_ledger wid rid b v)"
    using assms(2) by auto
  have "delegation_recorded v rid wid b tx_hash"
    using v store_delegation_tx_hash_recorded [OF assms(1)]
    by (cases tx_hash) (auto simp add: delegation_recorded_def)
  then show "delegation_recorded s rid wid b tx_hash"
    unfolding s using clear_ledger_extends(2) by (rule delegation_recorded_extends)
  show "\<not> list_ex (is_rejection rid wid b) (combined_cast_rejections s)"
    by (simp add: s clear_combined_rejection_ledger_def delete_where_def list_ex_iff)
qed

text \<open>
  C26.  A confirmation that succeeds records everything its evidence says: each proposal of the
  generation has exactly its commitment position, in the order of the generation, with the
  transaction hash when there is one; the bundle's VAN position is at least the confirmed one; and
  a confirmed delegation, alone or combined with its votes, carries the transaction hash; and a
  confirmed combined batch ends the rejection streak of its bundle.
\<close>

theorem confirmed_generation_recorded:
  assumes "keyed t" "apply_confirmed_generation codec locked validated t = Inr s"
    and "gen_identity (generation locked) = i" "confirmation validated = c"
    and "hash_of codec validated = tx_hash" "round_of codec i = rid"
  shows "list_all2 (vote_recorded s rid (wallet_id i) (bundle_index i) tx_hash)
      (confirmed_ids (target i) (ordered_proposal_ids locked)) (vote_commitment_positions c)
    \<and> van_recorded s rid (wallet_id i) (bundle_index i) (final_van_position c)
    \<and> (target i = Delegation \<or> is_combined (target i)
         \<longrightarrow> delegation_recorded s rid (wallet_id i) (bundle_index i) tx_hash)
    \<and> (is_combined (target i)
         \<longrightarrow> \<not> list_ex (is_rejection rid (wallet_id i) (bundle_index i)) (combined_cast_rejections s))"
proof (rule confirmed_generation_cases [OF assms(2) assms(3,4) [symmetric]], goal_cases)
  case 1
  then show ?case
    using delegation_confirmation_recorded [OF assms(1) 1(3)] assms(5,6) by simp
next
  case (2 pid vc)
  then show ?case
    using vote_confirmation_recorded [OF assms(1) 2(3)] assms(5,6) by simp
next
  case (3 digest u)
  have ids: "confirmed_ids (target i) (ordered_proposal_ids locked) = ordered_proposal_ids locked"
    "target i \<noteq> Delegation"
    using 3(1) by auto
  have "list_all2 (vote_recorded u rid (wallet_id i) (bundle_index i) tx_hash)
      (ordered_proposal_ids locked) (vote_commitment_positions c)"
    "van_recorded u rid (wallet_id i) (bundle_index i) (final_van_position c)"
    using batch_confirmation_recorded(2,3) [OF assms(1) 3(2)] assms(5,6) by simp_all
  moreover have "keyed u"
    by (rule keyed_extend [OF assms(1) batch_confirmation_extends [OF assms(1) 3(2)]])
  moreover have "is_combined (target i) \<longrightarrow> delegation_recorded s rid (wallet_id i) (bundle_index i) tx_hash
      \<and> \<not> list_ex (is_rejection rid (wallet_id i) (bundle_index i)) (combined_cast_rejections s)"
    using combined_tail_recorded [OF \<open>keyed u\<close>] 3(5) assms(5,6) by blast
  ultimately show ?case
    using van_recorded_extends [OF _ 3(4)] ids 3(3) by (simp add: vote_recorded_def [abs_def])
qed

section \<open>A sample round\<close>

definition combined_member :: VoteRecoveryBundle where
  "combined_member = (sample_member 0)\<lparr>rec_anchor_height := 0,
     rec_batch := Some \<lparr>batch_delegation_van = Some (replicate 32 9), recovery_digest = replicate 32 7,
                        recovery_index = 0, recovery_size = 1\<rparr>\<rparr>"

text \<open>Libraries that know the documents \<open>[0]\<close>, of the member, and \<open>[1]\<close>, with its position filled in.\<close>

definition sample_tables_codec :: table_codec where
  "sample_tables_codec =
     \<lparr>tc_recovery = (sample_recovery_codec (\<lambda>_. replicate 32 7))\<lparr>rc_hex_encode := (\<lambda>_. sample_round),
        rc_from_json := (\<lambda>_. Inr (json_from_bundle combined_member)), rc_to_json := (\<lambda>_. Inr [1])\<rparr>,
      tc_json_set_position = (\<lambda>_ _. [1]), tc_json_has_delegation_van = (\<lambda>_. True)\<rparr>"

definition combined_identity :: ChainSubmissionIdentity where
  "combined_identity = \<lparr>wallet_id = [119], network = Mainnet, vote_round_id = replicate 32 0,
     bundle_index = 0, target = DelegateAndVoteBatch (replicate 32 7)\<rparr>"

definition combined_generation :: BoundGeneration where
  "combined_generation =
     \<lparr>generation = \<lparr>gen_identity = combined_identity, gen_digest = replicate 32 1\<rparr>,
      expected_layout = VoteBatchLayout (replicate 32 2) [replicate 32 3], ordered_proposal_ids = [1]\<rparr>"

definition combined_confirmation :: ValidatedChainSubmissionConfirmation where
  "combined_confirmation = ValidatedHash \<lparr>conf_source = SourceHash, conf_transaction_hash = Some (replicate 32 4),
     final_van_position = 5, vote_commitment_positions = [6]\<rparr>"

definition combined_vote :: VoteRow where
  "combined_vote = \<lparr>vote_round = sample_round, vote_wallet = [119], vote_bundle = 0, vote_proposal = 1,
     vote_choice = 1, vote_commitment_blob = None, vote_tx_hash = None, vote_vc_position = None,
     vote_recovery_json = Some [0]\<rparr>"

definition combined_tables :: voting_tables where
  "combined_tables =
     \<lparr>bundles = [\<lparr>bundle_round = sample_round, bundle_wallet = [119], bundle_number = 0,
                  van_leaf_position = Some 2, delegation_tx_hash = None\<rparr>],
      votes = [combined_vote], ballot_intent = [],
      helper_share_plans = [\<lparr>plan_round = sample_round, plan_wallet = [119], plan_bundle = 0,
                             plan_proposal = 1, plan_recovery_json = [0]\<rparr>],
      round_immediate_share = [\<lparr>immediate_round = sample_round, immediate_wallet = [119],
                                immediate_bundle = 0, immediate_proposal = 1\<rparr>],
      share_delegations = [\<lparr>share_row_round = sample_round, share_row_wallet = [119],
                            share_row_bundle = 0, share_row_proposal = 1, share_row_index = 0\<rparr>],
      delegate_cast_recovery = [\<lparr>authorization_round = sample_round, authorization_wallet = [119],
         authorization_bundle = 0, authorization_batch_digest = replicate 32 7,
         authorization_generation_digest = replicate 32 5\<rparr>],
      combined_cast_rejections = []\<rparr>"

lemma combined_member_valid:
  "validate_recovery_bundle_vote_fields (tc_recovery sample_tables_codec) combined_member = Inr ()"
  by (simp add: validate_recovery_bundle_vote_fields_def validate_vote_round_id_hex_def combined_member_def
      sample_member_def sample_round_def as_bytes_ascii is_ascii_def list_all_iff canonical_hex_byte_def
      sample_tables_codec_def sample_recovery_codec_def validate_vote_round_id_bytes_def
      validate_proposal_id_def MIN_PROPOSAL_ID_def MAX_PROPOSAL_ID_def validate_vote_decision_def
      validate_vote_options_def MIN_VOTE_OPTIONS_def MAX_VOTE_OPTIONS_def)

lemma combined_member_parses: "parse_recovery (tc_recovery sample_tables_codec) json = Inr combined_member"
proof (rule parse_of_bundle [OF _ _ combined_member_valid])
  show "rc_from_json (tc_recovery sample_tables_codec) json = Inr (json_from_bundle combined_member)"
    by (simp add: sample_tables_codec_def)
  show "wf_recovery combined_member"
    by (simp add: wf_recovery_def wf_batch_recovery_def combined_member_def sample_member_def
        MAX_VOTE_BATCH_ACTIONS_def MAX_PROPOSAL_ID_def)
qed

lemma combined_digest: "recomputed_digest (tc_recovery sample_tables_codec) sample_round [combined_member]
    = Inr (replicate 32 7)"
  by (simp add: recomputed_digest_def delegation_van_of_def combined_member_def sample_member_def
      sample_tables_codec_def sample_recovery_codec_def array32_def delegate_and_vote_batch_sighash_def
      MAX_VOTE_BATCH_ACTIONS_def MAX_PROPOSAL_ID_def sighash_action_def append_action_def append_field_def
      append_integer_def MIN_PROPOSAL_ID_def validate_proposal_id_def)

lemma combined_batch_loads:
  assumes "votes t = [vote]" "vote_recovery_json vote = Some json"
    and "is_vote sample_round [119] 0 1 vote"
  shows "load_vote_batch_recoveries_with_conn sample_tables_codec t [119] sample_round 0 (replicate 32 7)
    = Inr [combined_member]"
proof -
  have "recovery_rows t [119] sample_round 0 = [json]"
    using assms by (simp add: recovery_rows_def is_vote_def map_filter_simps)
  moreover have "rec_batch combined_member = Some \<lparr>batch_delegation_van = Some (replicate 32 9),
      recovery_digest = replicate 32 7, recovery_index = 0, recovery_size = 1\<rparr>"
    "rec_anchor_height combined_member = 0"
    by (simp_all add: combined_member_def)
  ultimately show ?thesis
    by (simp add: load_vote_batch_recoveries_with_conn_def combined_member_parses
        assemble_vote_batch_recoveries_def member_of_def misplaced_member_def delegation_van_of_def
        combined_digest)
qed

lemmas sample_rows = combined_tables_def combined_vote_def is_vote_def is_bundle_def is_intent_def
  update_where_def delete_where_def

lemma combined_hash_records:
  "record_vote_submission sample_tables_codec sample_round [119] 0 1 h combined_tables
   = Inr (combined_tables\<lparr>votes := [combined_vote\<lparr>vote_tx_hash := Some h\<rparr>]\<rparr>)"
  by (simp add: record_vote_submission_def ensure_vote_submission_matches_ballot_intent_def intent_allows_def
      update_votes_def generation_triggers_def clear_helper_share_plan_on_vote_generation_change_def
      clear_round_immediate_share_on_vote_generation_change_def sample_rows)

lemma combined_position_records:
  assumes "votes t = [combined_vote\<lparr>vote_tx_hash := h\<rparr>]" "fits_i64 vc"
  shows "\<exists>s. record_vc_position_with_conn sample_tables_codec [119] sample_round 0 1 vc t = Inr s
    \<and> bundles s = bundles t"
proof -
  have vote: "find (is_vote sample_round [119] 0 1) (votes t) = Some (combined_vote\<lparr>vote_tx_hash := h\<rparr>)"
    by (simp add: assms combined_vote_def is_vote_def)
  have matches: "validate_recovery_matches_stored_vote (tc_recovery sample_tables_codec) combined_member
      sample_round 0 1 1 None = Inr ()"
    by (simp add: validate_recovery_matches_stored_vote_def combined_member_def sample_member_def)
  have "serialize_recovery (tc_recovery sample_tables_codec) (combined_member\<lparr>rec_vc_tree_position := vc\<rparr>) = Inr [1]"
    using combined_member_valid
    by (simp add: serialize_recovery_def validate_recovery_bundle_vote_fields_def) (simp add: sample_tables_codec_def)
  then show ?thesis
    using matches
    by (simp add: record_vc_position_with_conn_def vote combined_member_parses combined_vote_def
        store_recovery_json_with_vc_position_if_unchanged_def position_row_def assms is_vote_def)
qed

lemma small_positions:
  "fits_i64 6" "fits_i64 5" "require_tree_position 5 field = Inr ()" "require_tree_position 6 field = Inr ()"
  by (simp_all add: fits_i64_def require_tree_position_def TREE_CAPACITY_def TREE_DEPTH_def)

lemma sample_round_shown: "rc_hex_encode (tc_recovery sample_tables_codec) x = sample_round"
  "require_tx_hash sample_round = Inr ()"
  by (simp_all add: sample_tables_codec_def require_tx_hash_def sample_round_def trim_def trim_start_def
      trim_end_def is_whitespace_def)

lemma combined_member_applies:
  "\<exists>s. apply_batch_member sample_tables_codec [119] sample_round 0 (Some sample_round) combined_tables
      (combined_member, 6) = Inr s \<and> bundles s = bundles combined_tables"
proof -
  let ?u = "combined_tables\<lparr>votes := [combined_vote\<lparr>vote_tx_hash := Some sample_round\<rparr>]\<rparr>"
  have "require_vote_recovery_json ?u sample_round [119] 0 1 = Inr ()"
    by (simp add: require_vote_recovery_json_def is_vote_def combined_vote_def)
  moreover obtain s where "record_vc_position_with_conn sample_tables_codec [119] sample_round 0 1 6 ?u = Inr s"
    "bundles s = bundles ?u"
    using combined_position_records [of ?u "Some sample_round" 6] small_positions(1) by auto
  moreover have "rec_proposal_id combined_member = 1"
    by (simp add: combined_member_def sample_member_def)
  ultimately show ?thesis
    by (simp add: apply_batch_member_def record_hash_def combined_hash_records)
qed

lemma combined_confirms:
  "\<exists>s. apply_confirmed_generation sample_tables_codec combined_generation combined_confirmation combined_tables = Inr s"
proof -
  have load: "load_vote_batch_recoveries_with_conn sample_tables_codec combined_tables [119] sample_round 0
      (replicate 32 7) = Inr [combined_member]"
    by (rule combined_batch_loads [of _ combined_vote "[0]"])
      (simp_all add: combined_tables_def combined_vote_def is_vote_def)
  obtain u where u: "apply_batch_member sample_tables_codec [119] sample_round 0 (Some sample_round)
      combined_tables (combined_member, 6) = Inr u" and bundles: "bundles u = bundles combined_tables"
    using combined_member_applies by blast
  define v where "v = u\<lparr>bundles := map (\<lambda>row. row\<lparr>van_leaf_position := Some 5\<rparr>) (bundles u)\<rparr>"
  have v: "advance_van_position_in_tx sample_round [119] 0 5 u = Inr v"
    by (simp add: advance_van_position_in_tx_def load_bundle_confirmation_fields_def bundles i64_of_def
        store_van_position_u64_def small_positions sample_rows v_def)
  have "rec_proposal_id combined_member = 1"
    by (simp add: combined_member_def sample_member_def)
  then have batch: "apply_vote_batch_confirmation_with_conn sample_tables_codec [119] sample_round 0 (replicate 32 7)
      (Some sample_round) 5 [6] (Some [1]) None combined_tables = Inr v"
    by (simp add: apply_vote_batch_confirmation_with_conn_def small_positions sample_round_shown load u v)
  have "\<exists>w. store_delegation_tx_hash sample_round [119] 0 sample_round v = Inr w"
    by (simp add: store_delegation_tx_hash_def v_def bundles sample_rows)
  then show ?thesis
    using batch by (auto simp add: apply_confirmed_generation_def combined_generation_def combined_identity_def
        combined_confirmation_def sample_round_shown)
qed

lemma combined_keyed: "keyed combined_tables"
  by (simp add: keyed_def combined_tables_def)

theorem projections_write_once_witness:
  "\<exists>s. run_steps (project sample_tables_codec []) combined_tables
        [ProjectConfirmed combined_generation combined_confirmation] = Inr s
     \<and> list_all2 vote_extends (votes combined_tables) (votes s)"
proof -
  obtain s where "run_steps (project sample_tables_codec []) combined_tables
      [ProjectConfirmed combined_generation combined_confirmation] = Inr s"
    using combined_confirms by auto
  then show ?thesis
    using projections_write_once [OF combined_keyed, of sample_tables_codec "[]"] by blast
qed

theorem confirmed_generation_recorded_witness:
  "\<exists>s. apply_confirmed_generation sample_tables_codec combined_generation combined_confirmation combined_tables = Inr s
     \<and> vote_recorded s sample_round [119] 0 (Some sample_round) 1 6 \<and> van_recorded s sample_round [119] 0 5
     \<and> delegation_recorded s sample_round [119] 0 (Some sample_round)"
proof -
  obtain s where s: "apply_confirmed_generation sample_tables_codec combined_generation combined_confirmation
      combined_tables = Inr s"
    using combined_confirms by blast
  have "gen_identity (generation combined_generation) = combined_identity"
    "hash_of sample_tables_codec combined_confirmation = Some sample_round"
    "round_of sample_tables_codec combined_identity = sample_round"
    by (simp_all add: combined_generation_def hash_of_def round_of_def combined_confirmation_def sample_round_shown)
  from confirmed_generation_recorded [OF combined_keyed s this(1) refl this(2,3)] s show ?thesis
    by (simp add: combined_identity_def combined_generation_def combined_confirmation_def)
qed

end
