(* ===== verification/Confirmation_Projection_Effects.thy ===== *)
theory Confirmation_Projection_Effects
  imports Confirmation_Projection_Safety
begin

text \<open>
  The effects of the projection beyond the rows it names: what the triggers do to helper plans and
  the immediate share when a position is filled, what a rejected combined generation leaves behind,
  and how the rejection ledger counts.
\<close>

section \<open>Filling a position keeps the delivery state\<close>

lemma keyed_filter_vote:
  assumes "keyed t" "find (is_vote rid wid b pid) (votes t) = Some vote" "Q vote"
    and "\<And>v. Q v \<Longrightarrow> is_vote rid wid b pid v"
  shows "filter Q (votes t) = [vote]"
proof -
  have vote: "vote \<in> set (votes t)"
    using assms(2) by (auto simp add: find_Some_iff)
  have distinct: "distinct (map vote_key (votes t))"
    using assms(1) by (simp add: keyed_def)
  have eq: "v = vote" if "v \<in> set (votes t)" "Q v" for v
    using distinct by (rule distinct_key_find [OF _ assms(2) that(1) assms(4) [OF that(2)]]) (rule is_vote_key)
  have only: "set (filter Q (votes t)) = {vote}"
  proof (rule set_eqI)
    fix v
    show "v \<in> set (filter Q (votes t)) \<longleftrightarrow> v \<in> {vote}"
      using eq [of v] vote assms(3) by auto
  qed
  have "distinct (filter Q (votes t))"
    using distinct by (simp add: distinct_map)
  then have "length (filter Q (votes t)) = 1"
    using distinct_card [of "filter Q (votes t)"] unfolding only by simp
  then obtain v where "filter Q (votes t) = [v]"
    by (auto simp only: length_Suc_conv One_nat_def length_0_conv)
  with only show ?thesis
    by simp
qed

lemma update_votes_single:
  assumes "filter Q (votes t) = [vote]"
  shows "helper_share_plans (update_votes codec Q f t)
      = clear_helper_share_plan_on_vote_generation_change codec vote (f vote) (helper_share_plans t)"
    "round_immediate_share (update_votes codec Q f t)
      = clear_round_immediate_share_on_vote_generation_change codec vote (f vote) (round_immediate_share t)"
  using assms by (simp_all add: update_votes_def generation_triggers_def)

lemma record_vc_position_write:
  assumes ok: "record_vc_position_with_conn codec wid rid b pid vc t = Inr s"
    and vote: "find (is_vote rid wid b pid) (votes t) = Some vote"
    and json: "vote_recovery_json vote = Some json"
    and parsed: "parse_recovery (tc_recovery codec) json = Inr recovery"
    and updated: "serialize_recovery (tc_recovery codec) (recovery\<lparr>rec_vc_tree_position := vc\<rparr>) = Inr json'"
    and unset: "vote_vc_position vote = None"
  shows "s = update_votes codec (\<lambda>v. position_row rid wid b pid (vote_choice vote)
        (vote_commitment_blob vote) (int (unat vc)) v \<and> vote_recovery_json v = Some json)
        (\<lambda>v. v\<lparr>vote_recovery_json := Some json', vote_vc_position := Some (int (unat vc))\<rparr>) t"
    "position_row rid wid b pid (vote_choice vote) (vote_commitment_blob vote) (int (unat vc)) vote"
proof -
  have here: "vote \<in> set (votes t)" "is_vote rid wid b pid vote"
    using vote by (auto simp add: find_Some_iff)
  show row: "position_row rid wid b pid (vote_choice vote) (vote_commitment_blob vote) (int (unat vc)) vote"
    using here unset by (simp add: position_row_def)
  have "store_recovery_json_with_vc_position_if_unchanged codec wid rid b pid (vote_choice vote)
      (vote_commitment_blob vote) json json' (int (unat vc)) t = Inr s"
    using ok vote json parsed updated by (auto simp add: record_vc_position_with_conn_def)
  then show "s = update_votes codec (\<lambda>v. position_row rid wid b pid (vote_choice vote)
        (vote_commitment_blob vote) (int (unat vc)) v \<and> vote_recovery_json v = Some json)
        (\<lambda>v. v\<lparr>vote_recovery_json := Some json', vote_vc_position := Some (int (unat vc))\<rparr>) t"
    using here row json by (auto simp add: store_recovery_json_with_vc_position_if_unchanged_def Let_def
        list_ex_iff split: if_splits)
qed


section \<open>The rejection streak\<close>

lemma as_i64_fits:
  assumes "fits_i64 w"
  shows "as_i64 w = int (unat w)"
proof -
  have "uint w < 2 ^ 63"
    using assms by (simp add: fits_i64_def) (metis of_nat_less_iff of_nat_numeral of_nat_power uint_nat)
  moreover have "- (2 ^ 63) \<le> uint w"
    by (rule order_trans [OF _ uint_ge_0]) simp
  ultimately have "signed_take_bit 63 (uint w) = uint w"
    by (rule signed_take_bit_int_eq_self [rotated])
  then show ?thesis
    by (simp add: as_i64_def sint_uint)
qed

lemma find_update_found:
  assumes "\<And>x. P x \<Longrightarrow> P (f x)"
  shows "find P (update_where P f rows) = map_option f (find P rows)"
  using assms by (induction rows) (auto simp add: update_where_def)

lemma find_append: "find P (xs @ ys) = (case find P xs of None \<Rightarrow> find P ys | Some x \<Rightarrow> Some x)"
  by (induction xs) auto

definition reject_step ::
  "unicode \<Rightarrow> ChainSubmissionIdentity \<Rightarrow> unicode \<Rightarrow> bytes \<Rightarrow> voting_tables
   \<Rightarrow> bytes \<times> ChainSubmissionDiagnostic \<times> u64 \<Rightarrow> Voting_Types.VotingError + voting_tables" where
  "reject_step err i rid gd t = (\<lambda>(digest, diagnostic, now).
     record_combined_rejection err i rid gd digest diagnostic now t)"

abbreviation streak_row :: "voting_tables \<Rightarrow> ChainSubmissionIdentity \<Rightarrow> unicode \<Rightarrow> RejectionRow option" where
  "streak_row t i rid \<equiv> find (is_rejection rid (wallet_id i) (bundle_index i)) (combined_cast_rejections t)"

definition streak_is :: "RejectionRow \<Rightarrow> bytes \<Rightarrow> nat \<Rightarrow> nat \<Rightarrow> nat \<Rightarrow> bool" where
  "streak_is row gd n first latest \<longleftrightarrow>
     rejection_generation_digest row = gd \<and> consecutive_rejections row = int n
     \<and> first_rejected_at row = int first \<and> last_rejected_at row = int latest \<and> rejection_constraints row"

lemma reject_first:
  assumes "length gd = 32" "length digest = 32" "fits_i64 now"
    and "\<And>row. streak_row t i rid = Some row \<Longrightarrow> rejection_generation_digest row \<noteq> gd"
  obtains s row where "reject_step err i rid gd t (digest, diagnostic, now) = Inr s"
    "streak_row s i rid = Some row" "streak_is row gd 1 (unat now) (unat now)"
proof -
  define new where "new = fresh_rejection rid (wallet_id i) (bundle_index i) gd digest diagnostic now"
  have here: "is_rejection rid (wallet_id i) (bundle_index i) new" and new: "streak_is new gd 1 (unat now) (unat now)"
    using assms(1-3) by (simp_all add: new_def fresh_rejection_def is_rejection_def streak_is_def
        rejection_constraints_def as_i64_fits)
  show thesis
  proof (cases "streak_row t i rid")
    case None
    show thesis
      by (rule that [of "t\<lparr>combined_cast_rejections := combined_cast_rejections t @ [new]\<rparr>" new])
        (use None here new in \<open>simp_all add: reject_step_def record_combined_rejection_def Let_def new_def
           streak_is_def find_append\<close>)
  next
    case (Some row)
    have merged: "merged_rejection row new = new"
      using assms(4) [OF Some] by (simp add: merged_rejection_def new_def fresh_rejection_def)
    have go: "\<not> rejection_update_aborts row new"
      using assms(4) [OF Some] new by (auto simp add: rejection_update_aborts_def streak_is_def)
    show thesis
      by (rule that [of "t\<lparr>combined_cast_rejections := update_where
             (is_rejection rid (wallet_id i) (bundle_index i)) (\<lambda>_. new) (combined_cast_rejections t)\<rparr>" new])
        (use Some here new go merged in \<open>simp_all add: reject_step_def record_combined_rejection_def Let_def
           new_def [symmetric] streak_is_def find_update_found\<close>)
  qed
qed

lemma reject_again:
  assumes "length digest = 32" "fits_i64 now"
    and "streak_row t i rid = Some row" "streak_is row gd n first latest"
  obtains s row' where "reject_step err i rid gd t (digest, diagnostic, now) = Inr s"
    "streak_row s i rid = Some row'" "streak_is row' gd (Suc n) first (max latest (unat now))"
proof -
  define new where
    "new = merged_rejection row (fresh_rejection rid (wallet_id i) (bundle_index i) gd digest diagnostic now)"
  have here: "is_rejection rid (wallet_id i) (bundle_index i) new"
    by (simp add: new_def merged_rejection_def fresh_rejection_def is_rejection_def Let_def)
  have new: "streak_is new gd (Suc n) first (max latest (unat now))" and go: "\<not> rejection_update_aborts row new"
    using assms(1,2,4) by (auto simp add: new_def merged_rejection_def fresh_rejection_def streak_is_def
        rejection_constraints_def rejection_update_aborts_def as_i64_fits of_nat_max Let_def)
  show thesis
    by (rule that [of "t\<lparr>combined_cast_rejections := update_where
           (is_rejection rid (wallet_id i) (bundle_index i)) (\<lambda>_. new) (combined_cast_rejections t)\<rparr>" new])
      (use assms(3) here new go in \<open>simp_all add: reject_step_def record_combined_rejection_def Let_def
         new_def [symmetric] streak_is_def find_update_found\<close>)
qed

lemma reject_run:
  assumes "streak_row t i rid = Some row" "streak_is row gd n first latest"
    and "list_all (\<lambda>(digest, _, now). length digest = 32 \<and> fits_i64 now) steps"
  shows "\<exists>s row'. run_steps (reject_step err i rid gd) t steps = Inr s \<and> streak_row s i rid = Some row'
    \<and> streak_is row' gd (n + length steps) first (fold max (map (\<lambda>(_, _, now). unat now) steps) latest)"
  using assms
proof (induction steps arbitrary: t row n latest)
  case (Cons x xs)
  obtain digest diagnostic now where x: "x = (digest, diagnostic, now)"
    by (cases x)
  have valid: "length digest = 32" "fits_i64 now"
    using Cons.prems(3) by (simp_all add: x)
  obtain u row' where u: "reject_step err i rid gd t (digest, diagnostic, now) = Inr u"
    "streak_row u i rid = Some row'" "streak_is row' gd (Suc n) first (max latest (unat now))"
    using reject_again [OF valid Cons.prems(1,2)] .
  then show ?case
    using Cons.IH [OF u(2,3)] Cons.prems(3) by (simp add: x max.commute)
qed auto

text \<open>
  C29.  Rejections of one delegation generation are counted exactly and never refused: starting from
  no streak or from the streak of another generation, every sequence of rejections succeeds, no
  constraint or trigger aborts it, the count is the number of rejections, the first time is that of
  the first rejection and the last time is the latest of all, whatever the clock did in between.
\<close>

theorem rejection_streak_exact:
  assumes "length gd = 32" "case streak_row t i rid of None \<Rightarrow> True | Some row \<Rightarrow> rejection_generation_digest row \<noteq> gd"
    and "list_all (\<lambda>(digest, _, now). length digest = 32 \<and> fits_i64 now) (x # steps)"
    and "map (\<lambda>(_, _, now). unat now) (x # steps) = instants"
  shows "\<exists>s row. run_steps (reject_step err i rid gd) t (x # steps) = Inr s \<and> streak_row s i rid = Some row
    \<and> rejection_generation_digest row = gd \<and> consecutive_rejections row = int (length (x # steps))
    \<and> first_rejected_at row = int (hd instants) \<and> last_rejected_at row = int (Max (set instants))"
proof -
  obtain digest diagnostic now where x: "x = (digest, diagnostic, now)"
    by (cases x)
  have valid: "length digest = 32" "fits_i64 now"
    using assms(3) by (simp_all add: x)
  obtain u row where u: "reject_step err i rid gd t (digest, diagnostic, now) = Inr u"
    "streak_row u i rid = Some row" "streak_is row gd 1 (unat now) (unat now)"
    by (rule reject_first [OF assms(1) valid, where t = t and i = i and rid = rid]) (use assms(2) in auto)
  have "Max (set instants) = fold max (map (\<lambda>(_, _, now). unat now) steps) (unat now)"
    using assms(4) by (simp add: x Max.set_eq_fold [symmetric] del: set_map) 
  then show ?thesis
    using reject_run [OF u(2,3), of steps err] assms(3,4) u(1) by (auto simp add: x streak_is_def)
qed

section \<open>Retiring a rejected generation\<close>

definition retired :: "unicode \<Rightarrow> bytes \<Rightarrow> u32 \<Rightarrow> u32 list \<Rightarrow> VoteRow \<Rightarrow> bool" where
  "retired rid wid b pids vote \<longleftrightarrow> list_ex (\<lambda>pid. is_vote rid wid b pid vote) pids"

definition is_share_of :: "VoteRow \<Rightarrow> ShareRow \<Rightarrow> bool" where
  "is_share_of vote share \<longleftrightarrow>
     share_row_round share = vote_round vote \<and> share_row_wallet share = vote_wallet vote
     \<and> share_row_bundle share = vote_bundle vote \<and> share_row_proposal share = vote_proposal vote"

text \<open>
  Nothing of a vote's delivery is left: no share, and where it had a recovery document no plan and no
  immediate designation.
\<close>

definition delivery_cleared :: "voting_tables \<Rightarrow> VoteRow \<Rightarrow> bool" where
  "delivery_cleared t vote \<longleftrightarrow>
     \<not> list_ex (is_share_of vote) (share_delegations t)
     \<and> (vote_recovery_json vote = None
        \<or> \<not> list_ex (is_plan_of vote) (helper_share_plans t)
          \<and> \<not> list_ex (is_immediate_of vote) (round_immediate_share t))"

text \<open>The delivery tables only lose rows.\<close>

definition delivery_shrinks :: "voting_tables \<Rightarrow> voting_tables \<Rightarrow> bool" where
  "delivery_shrinks t s \<longleftrightarrow>
     set (share_delegations s) \<subseteq> set (share_delegations t)
     \<and> set (helper_share_plans s) \<subseteq> set (helper_share_plans t)
     \<and> set (round_immediate_share s) \<subseteq> set (round_immediate_share t)"

lemma delivery_cleared_shrinks: "\<lbrakk>delivery_cleared t vote; delivery_shrinks t s\<rbrakk> \<Longrightarrow> delivery_cleared s vote"
  by (auto simp add: delivery_cleared_def delivery_shrinks_def list_ex_iff)

lemma cleared_triggers:
  assumes "vote_vc_position vote = None"
  shows "clear_helper_share_plan_on_vote_generation_change codec vote (vote\<lparr>vote_recovery_json := None\<rparr>) plans
      = (if vote_recovery_json vote = None then plans else delete_where (is_plan_of vote) plans)"
    "clear_round_immediate_share_on_vote_generation_change codec vote (vote\<lparr>vote_recovery_json := None\<rparr>) rows
      = (if vote_recovery_json vote = None then rows else delete_where (is_immediate_of vote) rows)"
proof -
  have "position_only codec vote (vote\<lparr>vote_recovery_json := None\<rparr>) = Some False"
    using assms by (simp add: position_only_def)
  moreover have "is_plan_of (vote\<lparr>vote_recovery_json := None\<rparr>) = is_plan_of vote"
    "is_immediate_of (vote\<lparr>vote_recovery_json := None\<rparr>) = is_immediate_of vote"
    by (simp_all add: is_plan_of_def is_immediate_of_def fun_eq_iff)
  ultimately show "clear_helper_share_plan_on_vote_generation_change codec vote (vote\<lparr>vote_recovery_json := None\<rparr>) plans
      = (if vote_recovery_json vote = None then plans else delete_where (is_plan_of vote) plans)"
    "clear_round_immediate_share_on_vote_generation_change codec vote (vote\<lparr>vote_recovery_json := None\<rparr>) rows
      = (if vote_recovery_json vote = None then rows else delete_where (is_immediate_of vote) rows)"
    by (simp_all add: clear_helper_share_plan_on_vote_generation_change_def
        clear_round_immediate_share_on_vote_generation_change_def update_where_def)
qed

lemma clear_unsubmitted_exact:
  assumes keyed: "keyed t" and ok: "clear_unsubmitted_vote_recovery_with_conn codec wid rid b pid t = Inr s"
  shows "find (is_vote rid wid b pid) (votes t) \<noteq> None"
    "\<lbrakk>v \<in> set (votes t); is_vote rid wid b pid v\<rbrakk>
       \<Longrightarrow> vote_tx_hash v = None \<and> vote_vc_position v = None \<and> delivery_cleared s v"
    "votes s = update_where (is_vote rid wid b pid) (\<lambda>v. v\<lparr>vote_recovery_json := None\<rparr>) (votes t)"
    "delivery_shrinks t s" "bundles s = bundles t"
proof -
  define Q where "Q = (\<lambda>v. is_vote rid wid b pid v \<and> vote_tx_hash v = None \<and> vote_vc_position v = None)"
  define f where "f = (\<lambda>v :: VoteRow. v\<lparr>vote_recovery_json := None\<rparr>)"
  obtain vote where one: "filter Q (votes t) = [vote]"
    and s: "s = (update_votes codec Q f t)\<lparr>share_delegations := delete_where (\<lambda>share.
        share_row_round share = rid \<and> share_row_wallet share = wid \<and> share_row_bundle share = int_u32 b
        \<and> share_row_proposal share = int_u32 pid) (share_delegations t)\<rparr>"
    using ok by (auto simp add: clear_unsubmitted_vote_recovery_with_conn_def Let_def Q_def f_def
        length_Suc_conv split: if_splits)
  have "vote \<in> set (filter Q (votes t))"
    unfolding one by simp
  then have vote: "vote \<in> set (votes t)" "Q vote" "is_vote rid wid b pid vote"
    by (simp_all add: Q_def)
  obtain first where first: "find (is_vote rid wid b pid) (votes t) = Some first"
    using vote(1,3) by (metis find_None_iff option.exhaust)
  have distinct: "distinct (map vote_key (votes t))"
    using keyed by (simp add: keyed_def)
  have only: "v = first" if "v \<in> set (votes t)" "is_vote rid wid b pid v" for v
    using distinct by (rule distinct_key_find [OF _ first that]) (rule is_vote_key)
  have eq: "vote = first"
    using vote(1,3) by (rule only)
  have "update_where Q f (votes t) = update_where (is_vote rid wid b pid) f (votes t)"
    unfolding update_where_def
  proof (rule map_cong [OF refl])
    fix v
    assume "v \<in> set (votes t)"
    then show "(if Q v then f v else v) = (if is_vote rid wid b pid v then f v else v)"
      using only [of v] vote(2) eq by (auto simp add: Q_def)
  qed
  then show "votes s = update_where (is_vote rid wid b pid) (\<lambda>v. v\<lparr>vote_recovery_json := None\<rparr>) (votes t)"
    by (simp add: s f_def)
  have unset: "vote_vc_position vote = None" "vote_tx_hash vote = None"
    using vote(2) by (simp_all add: Q_def)
  have plans: "helper_share_plans s = (if vote_recovery_json vote = None then helper_share_plans t
       else delete_where (is_plan_of vote) (helper_share_plans t))"
    "round_immediate_share s = (if vote_recovery_json vote = None then round_immediate_share t
       else delete_where (is_immediate_of vote) (round_immediate_share t))"
    using unset by (simp_all add: s update_votes_single [OF one] f_def cleared_triggers)
  then show "delivery_shrinks t s"
    by (auto simp add: delivery_shrinks_def delete_where_def s)
  have "delivery_cleared s vote"
    using plans vote(3) by (auto simp add: delivery_cleared_def delete_where_def s list_ex_iff
        is_share_of_def is_vote_def)
  then show "vote_tx_hash v = None \<and> vote_vc_position v = None \<and> delivery_cleared s v"
    if "v \<in> set (votes t)" "is_vote rid wid b pid v"
    using only [OF that] unset by (simp add: eq)
  show "find (is_vote rid wid b pid) (votes t) \<noteq> None" "bundles s = bundles t"
    by (simp_all add: first s)
qed

lemma update_where_twice:
  assumes "\<And>v. P (f v) = P v" "\<And>v. f (f v) = f v"
  shows "update_where P f (update_where Q f rows) = update_where (\<lambda>v. Q v \<or> P v) f rows"
  using assms by (auto simp add: update_where_def)

lemma find_update_None:
  assumes "\<And>x. P (f x) = P x"
  shows "find P (update_where Q f rows) = None \<longleftrightarrow> find P rows = None"
  using assms by (induction rows) (auto simp add: update_where_def)

lemma run_steps_map: "run_steps (\<lambda>t x. step t (g x)) t xs = run_steps step t (map g xs)"
  by (induction xs arbitrary: t) (simp_all add: and_then_def split: sum.split)

lemma retired_run:
  assumes "keyed t" "run_steps (\<lambda>t pid. clear_unsubmitted_vote_recovery_with_conn codec wid rid b pid t) t pids
      = Inr s"
  shows "votes s = update_where (retired rid wid b pids) (\<lambda>v. v\<lparr>vote_recovery_json := None\<rparr>) (votes t)
    \<and> list_all (\<lambda>pid. find (is_vote rid wid b pid) (votes t) \<noteq> None) pids
    \<and> (\<forall>v \<in> set (votes t). retired rid wid b pids v
        \<longrightarrow> vote_tx_hash v = None \<and> vote_vc_position v = None \<and> delivery_cleared s v)
    \<and> delivery_shrinks t s \<and> bundles s = bundles t"
  using assms
proof (induction pids arbitrary: t)
  case Nil
  then show ?case
    by (simp add: retired_def update_where_def delivery_shrinks_def)
next
  case (Cons pid pids)
  define f where "f = (\<lambda>v :: VoteRow. v\<lparr>vote_recovery_json := None\<rparr>)"
  obtain u where u: "clear_unsubmitted_vote_recovery_with_conn codec wid rid b pid t = Inr u"
    and rest: "run_steps (\<lambda>t pid. clear_unsubmitted_vote_recovery_with_conn codec wid rid b pid t) u pids = Inr s"
    using Cons.prems(2) by auto
  note step = clear_unsubmitted_exact [OF Cons.prems(1) u]
  note IH = Cons.IH [OF keyed_extend [OF Cons.prems(1) clear_unsubmitted_extends [OF u]] rest]
  have f: "is_vote rid wid b p (f v) = is_vote rid wid b p v" "f (f v) = f v"
    "retired rid wid b ps (f v) = retired rid wid b ps v" for p ps v
    by (simp_all add: f_def is_vote_def retired_def)
  have either: "retired rid wid b (pid # pids) = (\<lambda>v. is_vote rid wid b pid v \<or> retired rid wid b pids v)"
    by (simp add: retired_def fun_eq_iff)
  have "votes s = update_where (retired rid wid b (pid # pids)) f (votes t)"
    using IH step(3) unfolding either f_def [symmetric] by (simp add: update_where_twice f)
  moreover have "list_all (\<lambda>pid. find (is_vote rid wid b pid) (votes t) \<noteq> None) (pid # pids)"
    using IH step(1,3) unfolding f_def [symmetric] by (simp add: find_update_None f del: not_None_eq)
  moreover have "delivery_shrinks t s" "bundles s = bundles t"
    using IH step(4,5) by (auto simp add: delivery_shrinks_def)
  moreover have "vote_tx_hash v = None \<and> vote_vc_position v = None \<and> delivery_cleared s v"
    if v: "v \<in> set (votes t)" "retired rid wid b (pid # pids) v" for v
  proof (cases "is_vote rid wid b pid v")
    case True
    then show ?thesis
      using step(2) [OF v(1)] IH delivery_cleared_shrinks by blast
  next
    case False
    then have "v \<in> set (votes u)"
      using v(1) by (force simp add: step(3) update_where_def)
    then show ?thesis
      using IH False v(2) by (simp add: either)
  qed
  ultimately show ?case
    unfolding f_def by blast
qed

text \<open>
  C28.  Retiring a rejected combined generation undoes exactly that generation: the bundles, and so
  the delegation setup, are untouched; the recovery documents of the member votes are cleared and
  no other vote changes; every member exists and had neither a hash nor a position, so nothing that
  reached the chain is forgotten; and no share, plan or immediate designation of a member remains.
\<close>

theorem rejected_generation_retired:
  assumes "keyed t" "retire_rejected_combined_generation codec err i diagnostic now t = Inr s"
    and "rid = round_of codec i" "wid = wallet_id i" "b = bundle_index i"
  shows "\<exists>digest members pids. target i = DelegateAndVoteBatch digest
    \<and> load_vote_batch_recoveries_with_conn codec t wid rid b digest = Inr members
    \<and> pids = map rec_proposal_id members \<and> pids \<noteq> [] \<and> bundles s = bundles t
    \<and> votes s = update_where (retired rid wid b pids) (\<lambda>v. v\<lparr>vote_recovery_json := None\<rparr>) (votes t)
    \<and> list_all (\<lambda>pid. find (is_vote rid wid b pid) (votes t) \<noteq> None) pids
    \<and> (\<forall>v \<in> set (votes t). retired rid wid b pids v
         \<longrightarrow> vote_tx_hash v = None \<and> vote_vc_position v = None \<and> delivery_cleared s v)"
proof (rule retirement_steps [OF assms(2)], goal_cases)
  case (1 digest gd members u)
  have "run_steps (\<lambda>t pid. clear_unsubmitted_vote_recovery_with_conn codec wid rid b pid t) t
      (map rec_proposal_id members) = Inr u"
    using 1(5) unfolding run_steps_map [symmetric] assms(3-5) .
  note run = retired_run [OF assms(1) this]
  note kept = record_rejection_tables [OF 1(6)]
  have same: "votes s = votes u" "bundles s = bundles u" "delivery_cleared s = delivery_cleared u"
    using kept by (simp_all add: retire_combined_authorization_with_conn_def delivery_cleared_def fun_eq_iff)
  show ?case
    using run 1(1,3,4) unfolding same assms(3-5) by (intro exI [of _ digest] exI [of _ members]) simp
qed

section \<open>Samples\<close>


theorem rejection_streak_exact_witness:
  "\<exists>s row. run_steps (reject_step [] combined_identity sample_round (replicate 32 5)) combined_tables
        [(replicate 32 7, sample_diagnostic, 30), (replicate 32 8, sample_diagnostic, 20)] = Inr s
     \<and> streak_row s combined_identity sample_round = Some row
     \<and> consecutive_rejections row = 2 \<and> first_rejected_at row = 30 \<and> last_rejected_at row = 30"
proof -
  have none: "case streak_row combined_tables combined_identity sample_round of None \<Rightarrow> True
      | Some row \<Rightarrow> rejection_generation_digest row \<noteq> replicate 32 5"
    by (simp add: combined_tables_def)
  have valid: "list_all (\<lambda>(digest, _, now). length digest = 32 \<and> fits_i64 now)
      [(replicate 32 7 :: bytes, sample_diagnostic, 30), (replicate 32 8, sample_diagnostic, 20)]"
    by (simp add: fits_i64_def)
  have "length (replicate 32 5 :: bytes) = 32"
    by simp
  from rejection_streak_exact [OF this none valid refl, of "[]"] show ?thesis
    by simp blast
qed

lemma combined_retires:
  "\<exists>s. retire_rejected_combined_generation sample_tables_codec [] combined_identity sample_diagnostic 30
      combined_tables = Inr s"
proof -
  have load: "load_vote_batch_recoveries_with_conn sample_tables_codec combined_tables [119] sample_round 0
      (replicate 32 7) = Inr [combined_member]"
    by (rule combined_batch_loads [of _ combined_vote "[0]"]) (simp_all add: sample_rows)
  have pid: "rec_proposal_id combined_member = 1"
    by (simp add: combined_member_def sample_member_def)
  obtain u where u: "clear_unsubmitted_vote_recovery_with_conn sample_tables_codec [119] sample_round 0 1
      combined_tables = Inr u" "combined_cast_rejections u = []"
    by (simp add: clear_unsubmitted_vote_recovery_with_conn_def sample_rows)
  have "\<exists>s. record_combined_rejection [] combined_identity sample_round (replicate 32 5) (replicate 32 7)
      sample_diagnostic 30 (retire_combined_authorization_with_conn sample_tables_codec [119] sample_round 0 u) = Inr s"
    using u(2) by (simp add: record_combined_rejection_def retire_combined_authorization_with_conn_def
        rejection_constraints_def fresh_rejection_def as_i64_fits fits_i64_def)
  then show ?thesis
    using load u(1) pid by (simp add: retire_rejected_combined_generation_def combined_identity_def
        sample_round_shown persisted_generation_digest_def clear_vote_batch_recovery_with_conn_def)
      (simp add: combined_tables_def)
qed

theorem rejected_generation_retired_witness:
  "\<exists>s. retire_rejected_combined_generation sample_tables_codec [] combined_identity sample_diagnostic 30
        combined_tables = Inr s \<and> bundles s = bundles combined_tables
     \<and> load_vote_batch_recoveries_with_conn sample_tables_codec combined_tables [119] sample_round 0
         (replicate 32 7) = Inr [combined_member]
     \<and> delivery_cleared s combined_vote"
proof -
  obtain s where s: "retire_rejected_combined_generation sample_tables_codec [] combined_identity
      sample_diagnostic 30 combined_tables = Inr s"
    using combined_retires by blast
  have load: "load_vote_batch_recoveries_with_conn sample_tables_codec combined_tables [119] sample_round 0
      (replicate 32 7) = Inr [combined_member]"
    by (rule combined_batch_loads [of _ combined_vote "[0]"]) (simp_all add: sample_rows)
  have names: "sample_round = round_of sample_tables_codec combined_identity" "[119] = wallet_id combined_identity"
    "0 = bundle_index combined_identity" "target combined_identity = DelegateAndVoteBatch (replicate 32 7)"
    by (simp_all add: round_of_def sample_round_shown combined_identity_def)
  have "retired sample_round [119] 0 [rec_proposal_id combined_member] combined_vote"
    "combined_vote \<in> set (votes combined_tables)"
    by (simp_all add: retired_def sample_rows combined_member_def sample_member_def)
  then show ?thesis
    using rejected_generation_retired [OF combined_keyed s names(1-3)] load s names(4) by auto
qed

end
