(* ===== verification/Note_Bundling.thy ===== *)
theory Note_Bundling
  imports Voting_Types "HOL-Library.Product_Lexorder" "HOL-Library.Multiset"
begin

text \<open>
  Canonical note bundling (\<open>note_bundling.rs\<close>): bundle policies and their builders, the version 1
  planner and the eligibility checks over it.  Sums of \<open>u64\<close> values are natural numbers whose
  overflow, a panic, is a failure value; counters of notes and bundles, and \<open>u128\<close> sums, are
  natural numbers without a bound.
\<close>

section \<open>Policies\<close>

datatype BundlePlannerVersion = V1

definition MINIMUM_VOTING_NOTE_COUNT :: nat where
  "MINIMUM_VOTING_NOTE_COUNT = BUNDLE_NOTE_SLOTS"

definition MINIMUM_VOTING_WEIGHT_ZATOSHI :: nat where
  "MINIMUM_VOTING_WEIGHT_ZATOSHI = BALLOT_DIVISOR"

definition RECOVERABLE_V1_MAX_REAL_NOTES_PER_BUNDLE :: nat where
  "RECOVERABLE_V1_MAX_REAL_NOTES_PER_BUNDLE = 5"

definition RECOVERABLE_V1_BUNDLE_ADDITION_THRESHOLD_ZATOSHI :: nat where
  "RECOVERABLE_V1_BUNDLE_ADDITION_THRESHOLD_ZATOSHI = 25000 * 100000000"

definition DEFAULT_MAX_PRIVACY_BUNDLES :: nat where
  "DEFAULT_MAX_PRIVACY_BUNDLES = 2"

definition DEFAULT_PRIVACY_DROP_BPS :: nat where
  "DEFAULT_PRIVACY_DROP_BPS = 100"

definition MAX_PRIVACY_DROP_BPS :: nat where
  "MAX_PRIVACY_DROP_BPS = 500"

definition DEFAULT_MAX_PRIVACY_DROP_ZATOSHI :: nat where
  "DEFAULT_MAX_PRIVACY_DROP_ZATOSHI = 100000000000"

definition BPS_DENOMINATOR :: nat where
  "BPS_DENOMINATOR = 10000"

record PrivacyTrimPolicy =
  max_bundles :: nat
  drop_bps :: nat
  max_drop_zatoshi :: "nat option"

record BundlePolicy =
  planner_version :: BundlePlannerVersion
  max_real_notes_per_bundle :: nat
  bundle_addition_threshold_zatoshi :: "nat option"
  privacy_trim_policy :: "PrivacyTrimPolicy option"

definition privacy_trim_policy_default :: PrivacyTrimPolicy where
  "privacy_trim_policy_default =
     \<lparr>max_bundles = DEFAULT_MAX_PRIVACY_BUNDLES, drop_bps = DEFAULT_PRIVACY_DROP_BPS,
      max_drop_zatoshi = Some DEFAULT_MAX_PRIVACY_DROP_ZATOSHI\<rparr>"

definition new_with_planner_version :: "nat \<Rightarrow> BundlePlannerVersion \<Rightarrow> VotingError + BundlePolicy" where
  "new_with_planner_version max_real version =
     (if 1 \<le> max_real \<and> max_real \<le> BUNDLE_NOTE_SLOTS then
        Inr \<lparr>planner_version = version, max_real_notes_per_bundle = max_real,
             bundle_addition_threshold_zatoshi = None,
             privacy_trim_policy = Some privacy_trim_policy_default\<rparr>
      else Inl (InvalidInput
        (lit ''max_real_notes_per_bundle must be in 1..=5, got '' @ lit (decimal max_real))))"

definition bundle_policy_new :: "nat \<Rightarrow> VotingError + BundlePolicy" where
  "bundle_policy_new max_real = new_with_planner_version max_real V1"

definition bundle_policy_default :: BundlePolicy where
  "bundle_policy_default =
     \<lparr>planner_version = V1, max_real_notes_per_bundle = RECOVERABLE_V1_MAX_REAL_NOTES_PER_BUNDLE,
      bundle_addition_threshold_zatoshi = None,
      privacy_trim_policy = Some privacy_trim_policy_default\<rparr>"

definition from_optional_max_real_notes_per_bundle :: "u32 option \<Rightarrow> VotingError + BundlePolicy" where
  "from_optional_max_real_notes_per_bundle max_real =
     (case max_real of
        Some n \<Rightarrow> bundle_policy_new (unat n)
      | None \<Rightarrow> Inr bundle_policy_default)"

definition with_bundle_addition_threshold :: "BundlePolicy \<Rightarrow> nat \<Rightarrow> BundlePolicy" where
  "with_bundle_addition_threshold policy threshold =
     policy\<lparr>bundle_addition_threshold_zatoshi := Some threshold\<rparr>"

definition with_max_privacy_bundles :: "BundlePolicy \<Rightarrow> nat option \<Rightarrow> BundlePolicy" where
  "with_max_privacy_bundles policy max_privacy_bundles =
     policy\<lparr>privacy_trim_policy := map_option (\<lambda>n.
       (case privacy_trim_policy policy of
          Some trim \<Rightarrow> trim
        | None \<Rightarrow> privacy_trim_policy_default)\<lparr>max_bundles := n\<rparr>) max_privacy_bundles\<rparr>"

definition with_privacy_drop_bps :: "BundlePolicy \<Rightarrow> nat \<Rightarrow> VotingError + BundlePolicy" where
  "with_privacy_drop_bps policy bps =
     (if bps > MAX_PRIVACY_DROP_BPS
      then Inl (InvalidInput (lit ''privacy_drop_bps must be <= 500, got '' @ lit (decimal bps)))
      else Inr (policy\<lparr>privacy_trim_policy :=
        map_option (\<lambda>trim. trim\<lparr>drop_bps := bps\<rparr>) (privacy_trim_policy policy)\<rparr>))"

definition with_max_privacy_drop_zatoshi :: "BundlePolicy \<Rightarrow> nat option \<Rightarrow> BundlePolicy" where
  "with_max_privacy_drop_zatoshi policy clamp =
     policy\<lparr>privacy_trim_policy :=
       map_option (\<lambda>trim. trim\<lparr>max_drop_zatoshi := clamp\<rparr>) (privacy_trim_policy policy)\<rparr>"

text \<open>Deserialization goes through the builders; \<open>UncheckedBundlePolicy\<close> has the same fields.\<close>

definition bundle_policy_try_from :: "BundlePolicy \<Rightarrow> VotingError + BundlePolicy" where
  "bundle_policy_try_from unchecked =
     and_then (new_with_planner_version (max_real_notes_per_bundle unchecked)
                 (planner_version unchecked)) (\<lambda>policy.
     let policy = (case bundle_addition_threshold_zatoshi unchecked of
                     Some threshold \<Rightarrow> with_bundle_addition_threshold policy threshold
                   | None \<Rightarrow> policy) in
     case privacy_trim_policy unchecked of
       None \<Rightarrow> Inr (with_max_privacy_bundles policy None)
     | Some trim \<Rightarrow>
         and_then (with_privacy_drop_bps
                     (with_max_privacy_bundles policy (Some (max_bundles trim))) (drop_bps trim)) (\<lambda>policy.
         Inr (with_max_privacy_drop_zatoshi policy (max_drop_zatoshi trim))))"

definition recoverable_bundle_policy_v1 :: BundlePolicy where
  "recoverable_bundle_policy_v1 =
     \<lparr>planner_version = V1, max_real_notes_per_bundle = RECOVERABLE_V1_MAX_REAL_NOTES_PER_BUNDLE,
      bundle_addition_threshold_zatoshi = Some RECOVERABLE_V1_BUNDLE_ADDITION_THRESHOLD_ZATOSHI,
      privacy_trim_policy = Some \<lparr>max_bundles = 2, drop_bps = 100,
        max_drop_zatoshi = Some 100000000000\<rparr>\<rparr>"

definition privacy_drop_budget_v1 :: "BundlePolicy \<Rightarrow> nat \<Rightarrow> nat" where
  "privacy_drop_budget_v1 policy total_value =
     (case privacy_trim_policy policy of
        None \<Rightarrow> 0
      | Some trim \<Rightarrow>
          let budget = total_value * drop_bps trim div BPS_DENOMINATOR in
          case max_drop_zatoshi trim of
            Some clamp \<Rightarrow> min budget clamp
          | None \<Rightarrow> budget)"

section \<open>The version 1 planner\<close>

record PrivacyTrim =
  dropped_bundles :: nat
  dropped_notes :: nat
  dropped_value :: nat

record ChunkResult =
  bundles :: "NoteInfo list list"
  eligible_weight :: nat
  dropped_count :: nat
  privacy_trim :: PrivacyTrim

datatype BundlingFailure = ArithmeticOverflow | Refused VotingError

definition checked_u64 :: "nat \<Rightarrow> BundlingFailure + nat" where
  "checked_u64 n = (if n < 2 ^ 64 then Inr n else Inl ArithmeticOverflow)"

text \<open>The filter, with the set of nullifiers it has seen.\<close>

fun distinct_notes_from :: "bytes set \<Rightarrow> NoteInfo list \<Rightarrow> NoteInfo list" where
  "distinct_notes_from seen [] = []"
| "distinct_notes_from seen (note # notes) =
     (if note_nullifier note \<in> seen then distinct_notes_from seen notes
      else note # distinct_notes_from (insert (note_nullifier note) seen) notes)"

definition distinct_notes_by_nullifier_v1 :: "NoteInfo list \<Rightarrow> NoteInfo list" where
  "distinct_notes_by_nullifier_v1 notes = distinct_notes_from {} notes"

text \<open>\<open>sort_by\<close> is stable, as \<open>sort_key\<close> is.\<close>

definition by_value_desc :: "NoteInfo list \<Rightarrow> NoteInfo list" where
  "by_value_desc notes = sort_key (\<lambda>note. (- uint (note_value note), note_position note)) notes"

definition bundle_addition_would_exceed_threshold_v1 :: "nat \<Rightarrow> nat \<Rightarrow> nat option \<Rightarrow> bool" where
  "bundle_addition_would_exceed_threshold_v1 current_total amount threshold =
     (case threshold of
        Some threshold \<Rightarrow>
          (case checked_u64 (current_total + amount) of
             Inr added \<Rightarrow> added > threshold
           | Inl _ \<Rightarrow> True)
      | None \<Rightarrow> False)"

text \<open>A bundle with its running total, as the two parallel vectors hold it.\<close>

type_synonym totalled = "nat \<times> NoteInfo list"

definition needs_new_bundle :: "BundlePolicy \<Rightarrow> totalled list \<Rightarrow> NoteInfo \<Rightarrow> bool" where
  "needs_new_bundle policy packed note =
     (if packed = [] then True
      else case last packed of (bundle_total, bundle) \<Rightarrow>
        if length bundle \<ge> max_real_notes_per_bundle policy then True
        else if bundle \<noteq> [] then
          bundle_addition_would_exceed_threshold_v1 bundle_total (unat (note_value note))
            (bundle_addition_threshold_zatoshi policy)
        else False)"

definition pack_note :: "BundlePolicy \<Rightarrow> totalled list \<Rightarrow> NoteInfo \<Rightarrow> BundlingFailure + totalled list" where
  "pack_note policy packed note =
     (let packed = (if needs_new_bundle policy packed note then packed @ [(0, [])] else packed) in
      case last packed of (bundle_total, bundle) \<Rightarrow>
        and_then (checked_u64 (bundle_total + unat (note_value note))) (\<lambda>bundle_total.
        Inr (butlast packed @ [(bundle_total, bundle @ [note])])))"

definition pack_notes :: "BundlePolicy \<Rightarrow> NoteInfo list \<Rightarrow> BundlingFailure + totalled list" where
  "pack_notes policy ordered = run_steps (pack_note policy) [] ordered"

definition quantized :: "nat \<Rightarrow> nat" where
  "quantized value = value div BALLOT_DIVISOR * BALLOT_DIVISOR"

text \<open>The loop that keeps the bundles worth a ballot and adds up their weight.\<close>

definition keep_bundle :: "totalled list \<times> nat \<Rightarrow> totalled \<Rightarrow> BundlingFailure + totalled list \<times> nat" where
  "keep_bundle kept entry =
     (case kept of (surviving, weight) \<Rightarrow>
        if fst entry \<ge> BALLOT_DIVISOR then
          and_then (checked_u64 (weight + quantized (fst entry))) (\<lambda>weight.
          Inr (surviving @ [entry], weight))
        else Inr (surviving, weight))"

definition order_bundles :: "totalled list \<Rightarrow> totalled list" where
  "order_bundles surviving =
     sort_key (\<lambda>(bundle_total, bundle). (- int bundle_total,
         case bundle of [] \<Rightarrow> (-1 :: u64) | note # _ \<Rightarrow> note_position note))
       (map (\<lambda>(bundle_total, bundle). (bundle_total, sort_key note_position bundle)) surviving)"

record trim_state =
  surviving :: "totalled list"
  privacy_dropped_value :: nat
  trimmed_bundles :: nat
  trimmed_notes :: nat
  remaining_weight :: nat

function trim_loop :: "nat \<Rightarrow> nat \<Rightarrow> trim_state \<Rightarrow> BundlingFailure + trim_state" where
  "trim_loop budget max_privacy_bundles st =
     (if length (surviving st) > max_privacy_bundles then
        case last (surviving st) of (bundle_total, bundle) \<Rightarrow>
          if privacy_dropped_value st + bundle_total > budget then Inr st
          else if remaining_weight st < quantized bundle_total then Inl ArithmeticOverflow
          else trim_loop budget max_privacy_bundles
            \<lparr>surviving = butlast (surviving st),
             privacy_dropped_value = privacy_dropped_value st + bundle_total,
             trimmed_bundles = trimmed_bundles st + 1,
             trimmed_notes = trimmed_notes st + length bundle,
             remaining_weight = remaining_weight st - quantized bundle_total\<rparr>
      else Inr st)"
  by pat_completeness auto

termination
  by (relation "measure (\<lambda>(_, _, st). length (surviving st))") auto

definition trim_surviving ::
  "BundlePolicy \<Rightarrow> nat \<Rightarrow> totalled list \<Rightarrow> nat \<Rightarrow> BundlingFailure + trim_state" where
  "trim_surviving policy total_value ordered weight =
     (let st = \<lparr>surviving = ordered, privacy_dropped_value = 0, trimmed_bundles = 0,
                trimmed_notes = 0, remaining_weight = weight\<rparr> in
      case privacy_trim_policy policy of
        Some trim \<Rightarrow>
          trim_loop (privacy_drop_budget_v1 policy total_value) (max (max_bundles trim) 1) st
      | None \<Rightarrow> Inr st)"

definition notes_in :: "totalled list \<Rightarrow> nat" where
  "notes_in packed = sum_list (map (\<lambda>(_, bundle). length bundle) packed)"

definition chunk_notes_v1_with_policy :: "NoteInfo list \<Rightarrow> BundlePolicy \<Rightarrow> BundlingFailure + ChunkResult" where
  "chunk_notes_v1_with_policy notes policy =
     (if notes = [] then
        Inr \<lparr>bundles = [], eligible_weight = 0, dropped_count = 0,
             privacy_trim = \<lparr>dropped_bundles = 0, dropped_notes = 0, dropped_value = 0\<rparr>\<rparr>
      else
        let total_value = sum_list (map (\<lambda>note. unat (note_value note)) notes) in
        and_then (pack_notes policy (by_value_desc notes)) (\<lambda>packed.
        and_then (run_steps keep_bundle ([], 0) packed) (\<lambda>(kept, weight).
        and_then (trim_surviving policy total_value (order_bundles kept) weight) (\<lambda>st.
          Inr \<lparr>bundles = map snd (surviving st), eligible_weight = remaining_weight st,
               dropped_count = notes_in packed - notes_in kept,
               privacy_trim = \<lparr>dropped_bundles = trimmed_bundles st,
                 dropped_notes = trimmed_notes st,
                 dropped_value = min (privacy_dropped_value st) (2 ^ 64 - 1)\<rparr>\<rparr>))))"

definition chunk_notes_with_policy :: "NoteInfo list \<Rightarrow> BundlePolicy \<Rightarrow> BundlingFailure + ChunkResult" where
  "chunk_notes_with_policy notes policy =
     (case planner_version policy of V1 \<Rightarrow> chunk_notes_v1_with_policy notes policy)"

definition chunk_notes :: "NoteInfo list \<Rightarrow> BundlingFailure + ChunkResult" where
  "chunk_notes notes = chunk_notes_with_policy notes bundle_policy_default"

definition canonical_note_bundle_plan_v1_for_notes ::
  "NoteInfo list \<Rightarrow> BundlePolicy \<Rightarrow> BundlingFailure + ChunkResult" where
  "canonical_note_bundle_plan_v1_for_notes notes policy =
     and_then (map_err Refused (validate_notes_for_round notes)) (\<lambda>_.
     chunk_notes_v1_with_policy (distinct_notes_by_nullifier_v1 notes) policy)"

definition canonical_note_bundle_plan_for_notes ::
  "NoteInfo list \<Rightarrow> BundlePolicy \<Rightarrow> BundlingFailure + ChunkResult" where
  "canonical_note_bundle_plan_for_notes notes policy =
     (case planner_version policy of V1 \<Rightarrow> canonical_note_bundle_plan_v1_for_notes notes policy)"

section \<open>Eligibility\<close>

record MinimumVotingEligibility =
  distinct_note_count :: nat
  minimum_eligible_weight :: nat

definition is_eligible :: "MinimumVotingEligibility \<Rightarrow> bool" where
  "is_eligible eligibility \<longleftrightarrow> minimum_eligible_weight eligibility \<ge> MINIMUM_VOTING_WEIGHT_ZATOSHI"

definition minimum_voting_eligibility_error :: "MinimumVotingEligibility \<Rightarrow> VotingError" where
  "minimum_voting_eligibility_error eligibility =
     InsufficientEligibility MINIMUM_VOTING_WEIGHT_ZATOSHI (minimum_eligible_weight eligibility) None
       MINIMUM_VOTING_NOTE_COUNT (min (distinct_note_count eligibility) (2 ^ 32 - 1))"

definition minimum_voting_eligibility_and_plan_for_notes ::
  "NoteInfo list \<Rightarrow> BundlePolicy \<Rightarrow> BundlingFailure + MinimumVotingEligibility \<times> ChunkResult" where
  "minimum_voting_eligibility_and_plan_for_notes notes policy =
     (if notes = [] then
        and_then (chunk_notes_with_policy notes policy) (\<lambda>plan.
        Inr (\<lparr>distinct_note_count = 0, minimum_eligible_weight = 0\<rparr>, plan))
      else
        and_then (canonical_note_bundle_plan_for_notes notes policy) (\<lambda>plan.
        Inr (\<lparr>distinct_note_count = sum_list (map length (bundles plan)),
              minimum_eligible_weight = eligible_weight plan\<rparr>, plan)))"

definition minimum_voting_eligibility_for_notes ::
  "NoteInfo list \<Rightarrow> BundlePolicy \<Rightarrow> BundlingFailure + MinimumVotingEligibility" where
  "minimum_voting_eligibility_for_notes notes policy =
     and_then (minimum_voting_eligibility_and_plan_for_notes notes policy) (\<lambda>(eligibility, _).
     Inr eligibility)"

definition validate_minimum_voting_eligibility_for_notes ::
  "NoteInfo list \<Rightarrow> BundlePolicy \<Rightarrow> BundlingFailure + MinimumVotingEligibility" where
  "validate_minimum_voting_eligibility_for_notes notes policy =
     and_then (minimum_voting_eligibility_for_notes notes policy) (\<lambda>eligibility.
     if is_eligible eligibility then Inr eligibility
     else Inl (Refused (minimum_voting_eligibility_error eligibility)))"

definition notes_for_pir_proof_cache ::
  "NoteInfo list \<Rightarrow> BundlePolicy \<Rightarrow> BundlingFailure + NoteInfo list" where
  "notes_for_pir_proof_cache notes policy =
     (if notes = [] then Inr []
      else and_then (canonical_note_bundle_plan_for_notes notes policy) (\<lambda>plan.
        Inr (concat (bundles plan))))"

end
