(* ===== verification/Note_Bundling_Plan.thy ===== *)
theory Note_Bundling_Plan
  imports Note_Bundling
begin

text \<open>
  Correctness of bundle plans: what a plan contains, that planning succeeds, that the privacy trim
  is the best one the budget allows, and that the plan does not depend on the order of the notes.
\<close>

section \<open>Values of bundles\<close>

definition value_of :: "NoteInfo list \<Rightarrow> nat" where
  "value_of ns = sum_list (map (\<lambda>note. unat (note_value note)) ns)"

lemma value_of_simps [simp]:
  "value_of [] = 0"
  "value_of (note # ns) = unat (note_value note) + value_of ns"
  "value_of (ns @ ms) = value_of ns + value_of ms"
  by (simp_all add: value_of_def)

lemma value_of_mset: "mset ns = mset ms \<Longrightarrow> value_of ns = value_of ms"
  unfolding value_of_def by (metis mset_map sum_mset_sum_list)

lemma value_of_sort_key [simp]: "value_of (sort_key f ns) = value_of ns"
  by (rule value_of_mset) simp

lemma value_of_concat: "value_of (concat nss) = sum_list (map value_of nss)"
  by (induction nss) simp_all

section \<open>Packing\<close>

definition bundle_ok :: "BundlePolicy \<Rightarrow> totalled \<Rightarrow> bool" where
  "bundle_ok policy entry \<longleftrightarrow>
     fst entry = value_of (snd entry)
     \<and> 1 \<le> length (snd entry) \<and> length (snd entry) \<le> max 1 (max_real_notes_per_bundle policy)
     \<and> (\<forall>threshold. bundle_addition_threshold_zatoshi policy = Some threshold
          \<longrightarrow> length (snd entry) = 1 \<or> fst entry \<le> threshold)"

definition packed_as :: "BundlePolicy \<Rightarrow> NoteInfo list \<Rightarrow> totalled list \<Rightarrow> bool" where
  "packed_as policy hist packed \<longleftrightarrow>
     concat (map snd packed) = hist \<and> list_all (bundle_ok policy) packed"

lemma checked_u64_eq [simp]:
  "checked_u64 n = Inr m \<longleftrightarrow> n < 2 ^ 64 \<and> m = n"
  "checked_u64 n = Inl e \<longleftrightarrow> 2 ^ 64 \<le> n \<and> e = ArithmeticOverflow"
  by (auto simp: checked_u64_def)

lemma no_new_bundle:
  assumes "\<not> needs_new_bundle policy packed note"
  obtains front t b where "packed = front @ [(t, b)]" "length b < max_real_notes_per_bundle policy"
    "\<forall>threshold. b \<noteq> [] \<and> bundle_addition_threshold_zatoshi policy = Some threshold
       \<longrightarrow> t + unat (note_value note) \<le> threshold"
  using assms
  by (cases packed rule: rev_cases)
    (auto simp: needs_new_bundle_def bundle_addition_would_exceed_threshold_v1_def not_le
      split: if_splits prod.splits option.splits sum.splits)

lemma pack_note_packed:
  assumes "packed_as policy hist packed" "pack_note policy packed note = Inr packed'"
  shows "packed_as policy (hist @ [note]) packed'"
proof (cases "needs_new_bundle policy packed note")
  case True
  then show ?thesis
    using assms by (auto simp: pack_note_def packed_as_def bundle_ok_def Let_def)
next
  case False
  then show ?thesis
  proof (rule no_new_bundle)
    fix front t b
    assume packed: "packed = front @ [(t, b)]" "length b < max_real_notes_per_bundle policy"
      "\<forall>threshold. b \<noteq> [] \<and> bundle_addition_threshold_zatoshi policy = Some threshold
         \<longrightarrow> t + unat (note_value note) \<le> threshold"
    then show ?thesis
      using assms False by (auto simp: pack_note_def packed_as_def bundle_ok_def Let_def)
  qed
qed

interpretation packing: stepwise_invariant "pack_note policy" "packed_as policy" for policy
  by unfold_locales (rule pack_note_packed)

lemma pack_note_total:
  assumes "packed_as policy hist packed" "value_of (hist @ [note]) < 2 ^ 64"
  shows "\<exists>packed'. pack_note policy packed note = Inr packed'"
proof -
  have "t \<le> value_of hist" if "packed = front @ [(t, b)]" for front t b
    using assms(1) that by (auto simp: packed_as_def bundle_ok_def)
  then show ?thesis
    using assms(2) by (cases packed rule: rev_cases)
      (auto simp: pack_note_def Let_def needs_new_bundle_def checked_u64_def)
qed

lemma pack_notes_total_from:
  assumes "packed_as policy hist packed" "value_of (hist @ ns) < 2 ^ 64"
  shows "\<exists>packed'. run_steps (pack_note policy) packed ns = Inr packed'"
  using assms
proof (induction ns arbitrary: hist packed)
  case (Cons n ns)
  have "value_of (hist @ [n]) < 2 ^ 64"
    using Cons.prems(2) by simp
  then obtain packed' where step: "pack_note policy packed n = Inr packed'"
    using pack_note_total Cons.prems(1) by blast
  have "\<exists>packed''. run_steps (pack_note policy) packed' ns = Inr packed''"
    using Cons.IH [OF pack_note_packed [OF Cons.prems(1) step]] Cons.prems(2) by simp
  then show ?case
    using step by simp
qed simp

lemma packed_as_empty [simp]: "packed_as policy [] []"
  by (simp add: packed_as_def)

lemma pack_notes_packed: "pack_notes policy ns = Inr packed \<Longrightarrow> packed_as policy ns packed"
  unfolding pack_notes_def using packing.run_holds [OF packed_as_empty] by fastforce

lemma pack_notes_total: "value_of ns < 2 ^ 64 \<Longrightarrow> \<exists>packed. pack_notes policy ns = Inr packed"
  unfolding pack_notes_def by (rule pack_notes_total_from [OF packed_as_empty]) simp

section \<open>Keeping the bundles worth a ballot\<close>

definition worth_ballot :: "totalled \<Rightarrow> bool" where
  "worth_ballot entry \<longleftrightarrow> fst entry \<ge> BALLOT_DIVISOR"

definition weight_of :: "totalled list \<Rightarrow> nat" where
  "weight_of packed = sum_list (map (\<lambda>entry. quantized (fst entry)) packed)"

lemma weight_of_simps [simp]:
  "weight_of [] = 0"
  "weight_of (entry # packed) = quantized (fst entry) + weight_of packed"
  "weight_of (packed @ rest) = weight_of packed + weight_of rest"
  by (simp_all add: weight_of_def)

lemma keep_bundles:
  "weight < 2 ^ 64 \<Longrightarrow> run_steps keep_bundle (kept, weight) packed =
     (if weight + weight_of (filter worth_ballot packed) < 2 ^ 64
      then Inr (kept @ filter worth_ballot packed, weight + weight_of (filter worth_ballot packed))
      else Inl ArithmeticOverflow)"
  by (induction packed arbitrary: kept weight)
    (simp_all add: keep_bundle_def worth_ballot_def checked_u64_def add.assoc)

lemma quantized_le: "quantized n \<le> n"
  by (simp add: quantized_def)

lemma weight_of_le: "weight_of packed \<le> sum_list (map fst packed)"
  by (induction packed) (auto intro: add_mono quantized_le)

section \<open>Ordering\<close>

lemma order_bundles_mset:
  "mset (order_bundles kept) = image_mset (\<lambda>(t, b). (t, sort_key note_position b)) (mset kept)"
  by (simp add: order_bundles_def)

lemma sum_list_mset_eq: "mset xs = mset ys \<Longrightarrow> sum_list (map f xs) = (sum_list (map f ys) :: nat)"
  by (metis mset_map sum_mset_sum_list)

lemma order_bundles_sums:
  fixes f :: "totalled \<Rightarrow> nat"
  assumes "\<And>t b. f (t, sort_key note_position b) = f (t, b)"
  shows "sum_list (map f (order_bundles kept)) = sum_list (map f kept)"
proof -
  have "sum_list (map f (order_bundles kept))
      = sum_list (map f (map (\<lambda>(t, b). (t, sort_key note_position b)) kept))"
    by (rule sum_list_mset_eq) (simp add: order_bundles_def)
  also have "\<dots> = sum_list (map f kept)"
    by (rule arg_cong [of _ _ sum_list]) (auto simp: assms)
  finally show ?thesis .
qed

lemma order_bundles_desc: "sorted_wrt (\<ge>) (map fst (order_bundles kept))"
proof -
  have "sorted (map (\<lambda>(t, b). (- int t, case b of [] \<Rightarrow> (-1 :: u64) | note # _ \<Rightarrow> note_position note))
          (order_bundles kept))"
    unfolding order_bundles_def by (rule sorted_sort_key)
  then have "sorted_wrt (\<lambda>x y. fst y \<le> fst x) (order_bundles kept)"
    by (auto simp: sorted_map less_eq_prod_def elim!: sorted_wrt_mono_rel [rotated] split: prod.splits)
  then show ?thesis
    by (simp add: sorted_wrt_map)
qed

section \<open>The privacy trim\<close>

declare trim_loop.simps [simp del]

definition total_of :: "totalled list \<Rightarrow> nat" where
  "total_of packed = sum_list (map fst packed)"

lemma total_of_simps [simp]:
  "total_of [] = 0"
  "total_of (entry # packed) = fst entry + total_of packed"
  "total_of (packed @ rest) = total_of packed + total_of rest"
  by (simp_all add: total_of_def)

lemma notes_in_simps [simp]:
  "notes_in [] = 0"
  "notes_in (entry # packed) = length (snd entry) + notes_in packed"
  "notes_in (packed @ rest) = notes_in packed + notes_in rest"
  by (simp_all add: notes_in_def split: prod.splits)

text \<open>
  What a trim does: it cuts a suffix within the budget, down to the target at most, and stops only
  at the target or when the next bundle would exceed the budget.
\<close>

definition trims :: "nat \<Rightarrow> nat \<Rightarrow> trim_state \<Rightarrow> trim_state \<Rightarrow> totalled list \<Rightarrow> bool" where
  "trims budget target st st' tail \<longleftrightarrow>
     surviving st = surviving st' @ tail
     \<and> privacy_dropped_value st' = privacy_dropped_value st + total_of tail
     \<and> trimmed_bundles st' = trimmed_bundles st + length tail
     \<and> trimmed_notes st' = trimmed_notes st + notes_in tail
     \<and> remaining_weight st = remaining_weight st' + weight_of tail
     \<and> (tail = [] \<or> privacy_dropped_value st' \<le> budget \<and> target \<le> length (surviving st'))
     \<and> (length (surviving st') \<le> target
         \<or> budget < privacy_dropped_value st' + fst (last (surviving st')))"

lemma trim_loop_trims:
  assumes "weight_of (surviving st) \<le> remaining_weight st"
  shows "\<exists>st' tail. trim_loop budget target st = Inr st' \<and> trims budget target st st' tail"
  using assms
proof (induction budget target st rule: trim_loop.induct)
  case (1 budget target st)
  show ?case
  proof (cases "target < length (surviving st)
      \<and> privacy_dropped_value st + fst (last (surviving st)) \<le> budget")
    case False
    then have "trim_loop budget target st = Inr st"
      by (subst trim_loop.simps) (auto split: prod.splits)
    moreover have "trims budget target st st []"
      using False by (auto simp: trims_def)
    ultimately show ?thesis
      by blast
  next
    case True
    then obtain front t b where st: "surviving st = front @ [(t, b)]"
      by (cases "surviving st" rule: rev_cases) auto
    let ?next = "\<lparr>surviving = butlast (surviving st), privacy_dropped_value = privacy_dropped_value st + t,
      trimmed_bundles = trimmed_bundles st + 1, trimmed_notes = trimmed_notes st + length b,
      remaining_weight = remaining_weight st - quantized t\<rparr>"
    have enough: "quantized t + weight_of front \<le> remaining_weight st"
      using 1(2) st by simp
    have step: "trim_loop budget target st = trim_loop budget target ?next"
      unfolding trim_loop.simps [of budget target st] using True enough by (simp add: st not_less)
    have "\<exists>st' tail. trim_loop budget target ?next = Inr st' \<and> trims budget target ?next st' tail"
      by (rule 1(1)) (use True enough in \<open>simp_all add: st not_less\<close>)
    then obtain st' tail
      where loop: "trim_loop budget target ?next = Inr st'" and next_st: "trims budget target ?next st' tail"
      by blast
    have "trims budget target st st' (tail @ [(t, b)])"
      using next_st True enough unfolding trims_def by (cases "tail = []") (auto simp: st)
    then show ?thesis
      using step loop by metis
  qed
qed

definition trims_to :: "BundlePolicy \<Rightarrow> nat \<Rightarrow> totalled list \<Rightarrow> totalled list \<Rightarrow> totalled list \<Rightarrow> bool" where
  "trims_to policy budget ordered kept tail \<longleftrightarrow>
     ordered = kept @ tail \<and> total_of tail \<le> budget
     \<and> (case privacy_trim_policy policy of
          None \<Rightarrow> tail = []
        | Some trim \<Rightarrow>
            (tail = [] \<or> max (max_bundles trim) 1 \<le> length kept)
            \<and> (length kept \<le> max (max_bundles trim) 1 \<or> budget < total_of tail + fst (last kept)))"

lemma trim_surviving_trims:
  assumes "weight_of ordered = weight"
  shows "\<exists>st tail. trim_surviving policy total_value ordered weight = Inr st
     \<and> trims_to policy (privacy_drop_budget_v1 policy total_value) ordered (surviving st) tail
     \<and> privacy_dropped_value st = total_of tail \<and> trimmed_bundles st = length tail
     \<and> trimmed_notes st = notes_in tail \<and> remaining_weight st = weight_of (surviving st)"
proof (cases "privacy_trim_policy policy")
  case None
  then show ?thesis
    using assms by (auto simp: trim_surviving_def trims_to_def intro!: exI [of _ "[]"])
next
  case (Some trim)
  let ?start = "\<lparr>surviving = ordered, privacy_dropped_value = 0, trimmed_bundles = 0,
    trimmed_notes = 0, remaining_weight = weight\<rparr>"
  obtain st tail where
    "trim_loop (privacy_drop_budget_v1 policy total_value) (max (max_bundles trim) 1) ?start = Inr st"
    "trims (privacy_drop_budget_v1 policy total_value) (max (max_bundles trim) 1) ?start st tail"
    using trim_loop_trims [of ?start "privacy_drop_budget_v1 policy total_value"
        "max (max_bundles trim) 1"] assms by auto
  then show ?thesis
    using Some assms
    by (intro exI [of _ st] exI [of _ tail]) (auto simp: trim_surviving_def trims_def trims_to_def)
qed

section \<open>Plans\<close>

text \<open>The stages of a plan: packing, the bundles worth a ballot in order, and the trim.\<close>

definition planned :: "NoteInfo list \<Rightarrow> BundlePolicy \<Rightarrow> ChunkResult \<Rightarrow> totalled list \<Rightarrow> totalled list
   \<Rightarrow> totalled list \<Rightarrow> bool" where
  "planned ns policy plan packed kept tail \<longleftrightarrow>
     packed_as policy (by_value_desc ns) packed
     \<and> trims_to policy (privacy_drop_budget_v1 policy (value_of ns))
         (order_bundles (filter worth_ballot packed)) kept tail
     \<and> plan = \<lparr>bundles = map snd kept, eligible_weight = weight_of kept,
          dropped_count = notes_in packed - notes_in (filter worth_ballot packed),
          privacy_trim = \<lparr>dropped_bundles = length tail, dropped_notes = notes_in tail,
            dropped_value = min (total_of tail) (2 ^ 64 - 1)\<rparr>\<rparr>"

lemma weight_of_order_bundles [simp]: "weight_of (order_bundles packed) = weight_of packed"
  unfolding weight_of_def by (rule order_bundles_sums) simp

lemma order_bundles_Nil [simp]: "order_bundles [] = []"
  by (simp add: order_bundles_def)

lemma by_value_desc_Nil [simp]: "by_value_desc [] = []"
  by (simp add: by_value_desc_def)

text \<open>Once packing and weighing fit in 64 bits the plan exists and has its stages.\<close>

lemma chunk_notes_packed:
  assumes "pack_notes policy (by_value_desc ns) = Inr packed"
  shows "if weight_of (filter worth_ballot packed) < 2 ^ 64
     then \<exists>plan kept tail. chunk_notes_v1_with_policy ns policy = Inr plan
       \<and> planned ns policy plan packed kept tail
     else chunk_notes_v1_with_policy ns policy = Inl ArithmeticOverflow"
proof (cases "ns = []")
  case True
  then have "packed = []"
    using assms by (simp add: pack_notes_def)
  then show ?thesis
    using True
    by (auto simp: chunk_notes_v1_with_policy_def planned_def trims_to_def notes_in_def
        intro!: exI [of _ "[]"] split: option.split)
next
  case False
  obtain st tail where "trim_surviving policy (value_of ns) (order_bundles (filter worth_ballot packed))
      (weight_of (filter worth_ballot packed)) = Inr st"
    "trims_to policy (privacy_drop_budget_v1 policy (value_of ns))
      (order_bundles (filter worth_ballot packed)) (surviving st) tail"
    "privacy_dropped_value st = total_of tail" "trimmed_bundles st = length tail"
    "trimmed_notes st = notes_in tail" "remaining_weight st = weight_of (surviving st)"
    using trim_surviving_trims [of "order_bundles (filter worth_ballot packed)"] by force
  then show ?thesis
    using False assms pack_notes_packed [OF assms] keep_bundles [of 0 "[]" packed]
    by (auto simp: chunk_notes_v1_with_policy_def planned_def value_of_def [symmetric] Let_def)
qed

lemma chunk_notes_planned:
  assumes "chunk_notes_v1_with_policy ns policy = Inr plan"
  obtains packed kept tail where "planned ns policy plan packed kept tail"
proof (cases "pack_notes policy (by_value_desc ns)")
  case (Inl e)
  then show thesis
    using assms by (cases "ns = []") (simp_all add: chunk_notes_v1_with_policy_def pack_notes_def)
next
  case (Inr packed)
  then show thesis
    using chunk_notes_packed [OF Inr] assms that by (auto split: if_splits)
qed

lemma concat_order_bundles:
  "mset (concat (map snd (order_bundles packed))) = mset (concat (map snd packed))"
proof -
  have "mset (concat (map snd (order_bundles packed)))
      = (\<Sum>entry\<in>#mset (order_bundles packed). mset (snd entry))"
    by (simp add: mset_concat o_def flip: sum_mset_sum_list mset_map)
  also have "\<dots> = (\<Sum>entry\<in>#mset packed. mset (snd entry))"
    by (simp add: order_bundles_mset image_mset.compositionality o_def case_prod_beta)
  also have "\<dots> = mset (concat (map snd packed))"
    by (simp add: mset_concat o_def flip: sum_mset_sum_list mset_map)
  finally show ?thesis .
qed

lemma concat_filter_split:
  "mset (concat (map snd packed)) =
     mset (concat (map snd (filter P packed))) + mset (concat (map snd (filter (Not \<circ> P) packed)))"
  by (induction packed) auto

lemma notes_in_concat: "notes_in packed = length (concat (map snd packed))"
  by (induction packed) auto

lemma ordered_entry:
  assumes "packed_as policy hist packed"
    and "(t, b) \<in> set (order_bundles (filter worth_ballot packed))"
  shows "bundle_ok policy (t, b) \<and> worth_ballot (t, b) \<and> sorted (map note_position b)"
proof -
  obtain b' where "(t, b') \<in> set packed" "worth_ballot (t, b')" "b = sort_key note_position b'"
    using assms(2) by (auto simp: order_bundles_def)
  then show ?thesis
    using assms(1) by (auto simp: packed_as_def list_all_iff bundle_ok_def worth_ballot_def)
qed

lemma totals_are_values:
  assumes "\<forall>entry \<in> set packed. fst entry = value_of (snd entry)"
  shows "map fst packed = map value_of (map snd packed)" "total_of packed = value_of (concat (map snd packed))"
    "weight_of packed = sum_list (map (\<lambda>b. quantized (value_of b)) (map snd packed))"
  using assms by (induction packed) auto

section \<open>Distinct notes\<close>

lemma distinct_notes_from_set:
  "set (distinct_notes_from seen ns) \<subseteq> set ns"
  "distinct (map note_nullifier (distinct_notes_from seen ns))"
  "note_nullifier ` set (distinct_notes_from seen ns) = note_nullifier ` set ns - seen"
  by (induction seen ns rule: distinct_notes_from.induct) auto

lemmas distinct_notes = distinct_notes_from_set [of "{}", folded distinct_notes_by_nullifier_v1_def]

lemma distinct_map_submset:
  assumes "mset xs + R = mset ys" "distinct (map f ys)"
  shows "distinct (map f xs)"
proof -
  obtain rs where "R = mset rs"
    using ex_mset by metis
  then have "mset (map f (xs @ rs)) = mset (map f ys)"
    using assms(1) by (metis mset_append mset_map)
  then have "distinct (map f (xs @ rs))"
    using assms(2) mset_eq_imp_distinct_iff by metis
  then show ?thesis
    by simp
qed

section \<open>Policies\<close>

definition wf_bundle_policy :: "BundlePolicy \<Rightarrow> bool" where
  "wf_bundle_policy policy \<longleftrightarrow>
     1 \<le> max_real_notes_per_bundle policy \<and> max_real_notes_per_bundle policy \<le> BUNDLE_NOTE_SLOTS
     \<and> (\<forall>trim. privacy_trim_policy policy = Some trim \<longrightarrow> drop_bps trim \<le> MAX_PRIVACY_DROP_BPS)"

lemmas policy_defs = wf_bundle_policy_def new_with_planner_version_def bundle_policy_new_def
  bundle_policy_default_def privacy_trim_policy_default_def with_bundle_addition_threshold_def
  with_max_privacy_bundles_def with_privacy_drop_bps_def with_max_privacy_drop_zatoshi_def
  from_optional_max_real_notes_per_bundle_def recoverable_bundle_policy_v1_def BUNDLE_NOTE_SLOTS_def
  RECOVERABLE_V1_MAX_REAL_NOTES_PER_BUNDLE_def DEFAULT_PRIVACY_DROP_BPS_def MAX_PRIVACY_DROP_BPS_def

lemma policy_builders_wf:
  "new_with_planner_version n version = Inr policy \<Longrightarrow> wf_bundle_policy policy"
  "from_optional_max_real_notes_per_bundle n' = Inr policy \<Longrightarrow> wf_bundle_policy policy"
  "wf_bundle_policy policy \<Longrightarrow> wf_bundle_policy (with_bundle_addition_threshold policy t)"
  "wf_bundle_policy policy \<Longrightarrow> wf_bundle_policy (with_max_privacy_bundles policy m)"
  "\<lbrakk>wf_bundle_policy policy; with_privacy_drop_bps policy bps = Inr policy'\<rbrakk> \<Longrightarrow> wf_bundle_policy policy'"
  "wf_bundle_policy policy \<Longrightarrow> wf_bundle_policy (with_max_privacy_drop_zatoshi policy clamp)"
  "wf_bundle_policy bundle_policy_default" "wf_bundle_policy recoverable_bundle_policy_v1"
  by (auto simp: policy_defs split: if_splits option.splits)

lemma try_from_wf: "bundle_policy_try_from unchecked = Inr policy \<Longrightarrow> wf_bundle_policy policy"
  by (cases "privacy_trim_policy unchecked"; cases "bundle_addition_threshold_zatoshi unchecked")
    (auto simp: bundle_policy_try_from_def Let_def policy_defs split: if_splits)

lemma drop_budget_bound:
  assumes "wf_bundle_policy policy"
  shows "20 * privacy_drop_budget_v1 policy n \<le> n"
proof (cases "privacy_trim_policy policy")
  case (Some trim)
  have "n * drop_bps trim div 10000 \<le> n * 500 div 10000"
    using assms Some by (intro div_le_mono mult_le_mono2) (simp add: wf_bundle_policy_def MAX_PRIVACY_DROP_BPS_def)
  then show ?thesis
    using Some by (auto simp: privacy_drop_budget_v1_def BPS_DENOMINATOR_def Let_def split: option.split)
qed (simp add: privacy_drop_budget_v1_def)

section \<open>What a plan contains\<close>

lemma canonical_plan_eq:
  "canonical_note_bundle_plan_for_notes ns policy = Inr plan \<longleftrightarrow>
     validate_notes_for_round ns = Inr ()
     \<and> chunk_notes_v1_with_policy (distinct_notes_by_nullifier_v1 ns) policy = Inr plan"
  by (cases "planner_version policy")
    (simp add: canonical_note_bundle_plan_for_notes_def canonical_note_bundle_plan_v1_for_notes_def)

lemma planned_entries:
  assumes "planned ns policy plan packed kept tail" "(t, b) \<in> set (kept @ tail)"
  shows "bundle_ok policy (t, b) \<and> worth_ballot (t, b) \<and> sorted (map note_position b)"
  using assms ordered_entry [of policy "by_value_desc ns" packed t b]
  by (simp add: planned_def trims_to_def)

lemma planned_values:
  assumes "planned ns policy plan packed kept tail"
  shows "\<forall>entry \<in> set kept. fst entry = value_of (snd entry)"
    and "\<forall>entry \<in> set tail. fst entry = value_of (snd entry)"
  using planned_entries [OF assms] by (auto simp: bundle_ok_def)

lemma planned_partition:
  assumes "planned ns policy plan packed kept tail"
  shows "mset (concat (map snd kept)) + mset (concat (map snd (filter (Not \<circ> worth_ballot) packed)))
    + mset (concat (map snd tail)) = mset ns"
proof -
  have "mset ns = mset (concat (map snd packed))"
    using assms by (simp add: planned_def packed_as_def by_value_desc_def)
  also have "\<dots> = mset (concat (map snd (filter worth_ballot packed)))
      + mset (concat (map snd (filter (Not \<circ> worth_ballot) packed)))"
    by (rule concat_filter_split)
  also have "mset (concat (map snd (filter worth_ballot packed)))
      = mset (concat (map snd kept)) + mset (concat (map snd tail))"
    using assms concat_order_bundles [of "filter worth_ballot packed"]
    by (simp add: planned_def trims_to_def)
  finally show ?thesis
    by (simp add: comp_def)
qed

lemma planned_dropped:
  assumes "planned ns policy plan packed kept tail"
  shows "dropped_count plan = length (concat (map snd (filter (Not \<circ> worth_ballot) packed)))"
proof -
  have "notes_in packed = notes_in (filter worth_ballot packed) + notes_in (filter (Not \<circ> worth_ballot) packed)"
    by (induction packed) auto
  then show ?thesis
    using assms by (simp add: planned_def notes_in_concat)
qed

lemma planned_unworthy:
  assumes "planned ns policy plan packed kept tail"
    and "b \<in> set (map snd (filter (Not \<circ> worth_ballot) packed))"
  shows "value_of b < BALLOT_DIVISOR"
  using assms by (auto simp: planned_def packed_as_def list_all_iff bundle_ok_def worth_ballot_def)

lemma planned_desc:
  assumes "planned ns policy plan packed kept tail"
  shows "sorted_wrt (\<ge>) (map value_of (map snd kept))"
  using assms order_bundles_desc [of "filter worth_ballot packed"] totals_are_values(1) [OF planned_values(1) [OF assms]]
  by (simp add: planned_def trims_to_def sorted_wrt_append)

text \<open>
  C33.  A canonical plan accounts for every note and loses no more than the policy allows.  The
  distinct notes are exactly those in the bundles, those in groups worth less than a ballot, and
  those the privacy trim removed, in the reported numbers; the trim removes at most a twentieth of
  the selected value.  No nullifier occurs twice, bundles come in descending value, each has
  between one note and the policy's capacity, is worth at least a ballot, keeps the addition
  threshold unless it is a single note and is ordered by position, and the reported weight is the
  sum of the quantized bundle values.
\<close>

theorem bundle_plan_sound:
  assumes policy: "wf_bundle_policy policy"
    and plan: "canonical_note_bundle_plan_for_notes ns policy = Inr plan"
  shows "(\<exists>unworthy trimmed.
       mset (concat (bundles plan)) + mset (concat unworthy) + mset (concat trimmed)
         = mset (distinct_notes_by_nullifier_v1 ns)
       \<and> (\<forall>b \<in> set unworthy. value_of b < BALLOT_DIVISOR)
       \<and> dropped_count plan = length (concat unworthy)
       \<and> dropped_bundles (privacy_trim plan) = length trimmed
       \<and> dropped_notes (privacy_trim plan) = length (concat trimmed)
       \<and> dropped_value (privacy_trim plan) = min (value_of (concat trimmed)) (2 ^ 64 - 1)
       \<and> 20 * value_of (concat trimmed) \<le> value_of (distinct_notes_by_nullifier_v1 ns))
   \<and> distinct (map note_nullifier (concat (bundles plan)))
   \<and> sorted_wrt (\<ge>) (map value_of (bundles plan))
   \<and> eligible_weight plan = sum_list (map (\<lambda>b. quantized (value_of b)) (bundles plan))
   \<and> (\<forall>b \<in> set (bundles plan).
        1 \<le> length b \<and> length b \<le> max_real_notes_per_bundle policy
        \<and> BALLOT_DIVISOR \<le> value_of b \<and> sorted (map note_position b)
        \<and> (\<forall>threshold. bundle_addition_threshold_zatoshi policy = Some threshold
             \<longrightarrow> length b = 1 \<or> value_of b \<le> threshold))"
proof -
  define ds where "ds = distinct_notes_by_nullifier_v1 ns"
  obtain packed kept tail where planned: "planned ds policy plan packed kept tail"
    using plan chunk_notes_planned unfolding canonical_plan_eq ds_def by blast
  define unworthy where "unworthy = map snd (filter (Not \<circ> worth_ballot) packed)"
  have plan_eqs: "bundles plan = map snd kept" "eligible_weight plan = weight_of kept"
      "privacy_trim plan = \<lparr>dropped_bundles = length tail, dropped_notes = notes_in tail,
         dropped_value = min (total_of tail) (2 ^ 64 - 1)\<rparr>"
    using planned by (simp_all add: planned_def)
  have "20 * total_of tail \<le> value_of ds"
    using planned drop_budget_bound [OF policy, of "value_of ds"]
    by (simp add: planned_def trims_to_def)
  then have lost: "20 * value_of (concat (map snd tail)) \<le> value_of ds"
    using totals_are_values(2) [OF planned_values(2) [OF planned]] by simp
  note parts = planned_partition [OF planned, folded unworthy_def]
  have "distinct (map note_nullifier (concat (map snd kept)))"
    by (rule distinct_map_submset [OF parts [unfolded add.assoc]]) (simp add: ds_def distinct_notes)
  moreover have "\<forall>b \<in> set (map snd kept). 1 \<le> length b \<and> length b \<le> max_real_notes_per_bundle policy
        \<and> BALLOT_DIVISOR \<le> value_of b \<and> sorted (map note_position b)
        \<and> (\<forall>threshold. bundle_addition_threshold_zatoshi policy = Some threshold
             \<longrightarrow> length b = 1 \<or> value_of b \<le> threshold)"
    using planned_entries [OF planned] policy
    by (fastforce simp: bundle_ok_def worth_ballot_def wf_bundle_policy_def)
  moreover have "\<forall>b \<in> set unworthy. value_of b < BALLOT_DIVISOR"
    using planned_unworthy [OF planned] by (simp add: unworthy_def)
  ultimately show ?thesis
    using parts lost planned_dropped [OF planned, folded unworthy_def] planned_desc [OF planned]
      totals_are_values(2) [OF planned_values(2) [OF planned]]
      totals_are_values(3) [OF planned_values(1) [OF planned]]
    unfolding plan_eqs ds_def [symmetric]
    by (intro conjI exI [of _ unworthy] exI [of _ "map snd tail"]) (simp_all add: notes_in_concat)
qed

definition sample_note :: "u64 \<Rightarrow> u64 \<Rightarrow> NoteInfo" where
  "sample_note amount place =
     \<lparr>note_commitment = replicate 32 0, note_nullifier = replicate 32 (ucast place),
      note_value = amount, note_position = place, note_diversifier = [], note_rho = [],
      note_rseed = [], note_scope = 0, note_ufvk_str = []\<rparr>"

text \<open>Three notes, one of them listed twice: a full bundle and a bundle of dust.\<close>

definition sample_notes :: "NoteInfo list" where
  "sample_notes = [sample_note 13000000 7, sample_note 40000000 9, sample_note 13000000 7, sample_note 5 1]"

definition sample_policy :: BundlePolicy where
  "sample_policy = bundle_policy_default\<lparr>max_real_notes_per_bundle := 2\<rparr>"

lemmas planner_defs = chunk_notes_v1_with_policy_def by_value_desc_def pack_notes_def pack_note_def
  needs_new_bundle_def bundle_addition_would_exceed_threshold_v1_def checked_u64_def policy_defs
  keep_bundle_def BALLOT_DIVISOR_def quantized_def order_bundles_def trim_surviving_def notes_in_def
  privacy_drop_budget_v1_def DEFAULT_MAX_PRIVACY_BUNDLES_def BPS_DENOMINATOR_def
  DEFAULT_MAX_PRIVACY_DROP_ZATOSHI_def

lemma sample_plan:
  "canonical_note_bundle_plan_for_notes sample_notes sample_policy =
     Inr \<lparr>bundles = [[sample_note 13000000 7, sample_note 40000000 9]], eligible_weight = 50000000,
          dropped_count = 1,
          privacy_trim = \<lparr>dropped_bundles = 0, dropped_notes = 0, dropped_value = 0\<rparr>\<rparr>"
  by (simp add: canonical_plan_eq sample_notes_def validate_notes_for_round_ok
      distinct_notes_by_nullifier_v1_def sample_note_def sample_policy_def planner_defs trim_loop.simps)

lemma sample_policy_wf: "wf_bundle_policy sample_policy"
  by (simp add: sample_policy_def policy_defs)

theorem bundle_plan_sound_witness:
  "\<exists>plan. canonical_note_bundle_plan_for_notes sample_notes sample_policy = Inr plan
     \<and> eligible_weight plan = 50000000
     \<and> distinct (map note_nullifier (concat (bundles plan)))
     \<and> eligible_weight plan = sum_list (map (\<lambda>b. quantized (value_of b)) (bundles plan))"
  using bundle_plan_sound [OF sample_policy_wf sample_plan] sample_plan by force

section \<open>Plans exist\<close>

text \<open>
  C34.  Planning ends with a plan for every valid set of notes whose total value fits in 64 bits,
  under any policy; no arithmetic overflows and the loops of the planner terminate.
\<close>

theorem bundle_plan_exists:
  assumes "validate_notes_for_round ns = Inr ()"
    and "value_of (distinct_notes_by_nullifier_v1 ns) < 2 ^ 64"
  shows "\<exists>plan. canonical_note_bundle_plan_for_notes ns policy = Inr plan"
proof -
  define ds where "ds = distinct_notes_by_nullifier_v1 ns"
  have fits: "value_of (by_value_desc ds) < 2 ^ 64"
    using assms(2) by (simp add: ds_def by_value_desc_def)
  then obtain packed where packed: "pack_notes policy (by_value_desc ds) = Inr packed"
    using pack_notes_total by blast
  have entries: "\<forall>entry \<in> set packed. fst entry = value_of (snd entry)"
    using pack_notes_packed [OF packed] by (simp add: packed_as_def list_all_iff bundle_ok_def)
  have "weight_of (filter worth_ballot packed) \<le> total_of (filter worth_ballot packed)"
    using weight_of_le by (simp add: total_of_def)
  also have "\<dots> \<le> total_of packed"
    by (induction packed) auto
  also have "\<dots> = value_of (by_value_desc ds)"
    using totals_are_values(2) [OF entries] pack_notes_packed [OF packed] by (simp add: packed_as_def)
  finally have "weight_of (filter worth_ballot packed) < 2 ^ 64"
    using fits by simp
  then show ?thesis
    using chunk_notes_packed [OF packed] assms(1) unfolding canonical_plan_eq ds_def by auto
qed

theorem bundle_plan_exists_witness:
  "\<exists>plan. canonical_note_bundle_plan_for_notes sample_notes recoverable_bundle_policy_v1 = Inr plan"
  by (rule bundle_plan_exists)
    (simp_all add: sample_notes_def sample_note_def validate_notes_for_round_ok
      distinct_notes_by_nullifier_v1_def)

section \<open>The trim is optimal\<close>

lemma smallest_sum:
  assumes "sorted xs" "D \<subseteq># mset xs"
  shows "sum_list (take (size D) xs) \<le> (sum_mset D :: nat)"
  using assms
proof (induction xs arbitrary: D)
  case (Cons x xs)
  show ?case
  proof (cases "D = {#}")
    case False
    then obtain y where y: "y \<in># D" "x \<in># D \<Longrightarrow> y = x"
      by (metis multiset_nonemptyE)
    define D' where "D' = D - {#y#}"
    have D: "D = add_mset y D'"
      using y(1) by (simp add: D'_def)
    have "D' \<subseteq># mset xs"
    proof (cases "x \<in># D")
      case True
      then show ?thesis
        using Cons.prems(2) y(2) D by simp
    next
      case notin: False
      have "count D a \<le> count (mset xs) a" for a
        using mset_subset_eq_count [OF Cons.prems(2), of a] notin
        by (cases "a = x") (simp_all add: not_in_iff)
      then have "D \<subseteq># mset xs"
        by (rule mset_subset_eqI)
      then show ?thesis
        unfolding D'_def by (rule subset_mset.order_trans [OF diff_subset_eq_self])
    qed
    moreover have "x \<le> y"
      using Cons.prems y(1) by (auto dest!: mset_subset_eqD)
    ultimately show ?thesis
      using Cons.IH [of D'] Cons.prems(1) D by (auto intro: add_mono)
  qed simp
qed simp

lemma pack_notes_untrimmed:
  "pack_notes (with_max_privacy_bundles policy None) ns = pack_notes policy ns"
proof -
  have "pack_note (with_max_privacy_bundles policy None) = pack_note policy"
    by (intro ext) (simp add: pack_note_def needs_new_bundle_def with_max_privacy_bundles_def)
  then show ?thesis
    by (simp add: pack_notes_def)
qed

lemma largest_tail_sum:
  assumes "sorted_wrt (\<ge>) (xs @ ys :: nat list)" "xs \<noteq> []" "D \<subseteq># mset (xs @ ys)" "length ys < size D"
  shows "sum_list ys + last xs \<le> sum_mset D"
proof -
  have "sorted (rev (xs @ ys))"
    using assms(1) by (simp only: sorted_wrt_rev)
  then have "sum_list (take (size D) (rev (xs @ ys))) \<le> sum_mset D"
    using assms(3) by (intro smallest_sum) (simp_all add: add.commute)
  moreover have "sum_list ys + last xs = sum_list (take (Suc (length ys)) (rev (xs @ ys)))"
    using assms(2) by (cases xs rule: rev_cases) (simp_all add: sum_list_rev)
  moreover have "sum_list (take (Suc (length ys)) (rev (xs @ ys))) \<le> sum_list (take (size D) (rev (xs @ ys)))"
  proof -
    obtain n where "size D = Suc (length ys) + n"
      using assms(4) less_iff_Suc_add by auto
    then show ?thesis
      by (simp only: take_add sum_list_append le_add1)
  qed
  ultimately show ?thesis
    by simp
qed

text \<open>
  The privacy trim sheds as many submissions as its budget allows.  It removes a tail of the
  bundles an untrimmed plan has, worth at most the budget, and any larger choice of bundles that
  still leaves the target number is worth more than the budget.
\<close>

theorem privacy_trim_optimal:
  assumes plan: "chunk_notes_v1_with_policy ns policy = Inr plan"
    and trim: "privacy_trim_policy policy = Some trim"
  shows "\<exists>full trimmed.
     chunk_notes_v1_with_policy ns (with_max_privacy_bundles policy None) = Inr full
     \<and> bundles full = bundles plan @ trimmed
     \<and> dropped_bundles (privacy_trim plan) = length trimmed
     \<and> value_of (concat trimmed) \<le> privacy_drop_budget_v1 policy (value_of ns)
     \<and> (\<forall>D. D \<subseteq># mset (bundles full) \<and> length trimmed < size D
          \<and> size D + max (max_bundles trim) 1 \<le> length (bundles full)
          \<longrightarrow> privacy_drop_budget_v1 policy (value_of ns) < sum_mset (image_mset value_of D))"
proof (cases "pack_notes policy (by_value_desc ns)")
  case (Inl e)
  then have "ns \<noteq> []"
    by (auto simp: pack_notes_def)
  then show ?thesis
    using plan Inl by (simp add: chunk_notes_v1_with_policy_def)
next
  case (Inr packed)
  then obtain kept tail where planned: "planned ns policy plan packed kept tail"
      and fits: "weight_of (filter worth_ballot packed) < 2 ^ 64"
    using chunk_notes_packed [OF Inr] plan by (auto split: if_splits)
  obtain full all_kept none where full:
      "chunk_notes_v1_with_policy ns (with_max_privacy_bundles policy None) = Inr full"
      "planned ns (with_max_privacy_bundles policy None) full packed all_kept none"
    using chunk_notes_packed [of "with_max_privacy_bundles policy None" ns packed] Inr fits
    by (auto simp: pack_notes_untrimmed)
  have order: "all_kept = kept @ tail" "bundles full = map snd all_kept" "bundles plan = map snd kept"
    using full(2) planned by (simp_all add: planned_def trims_to_def with_max_privacy_bundles_def)
  note kept_values = totals_are_values [OF planned_values(1) [OF planned]]
    and tail_values = totals_are_values [OF planned_values(2) [OF planned]]
  have desc: "sorted_wrt (\<ge>) (map fst kept @ map fst tail)"
    using planned order_bundles_desc [of "filter worth_ballot packed"]
    by (simp add: planned_def trims_to_def)
  have best: "privacy_drop_budget_v1 policy (value_of ns) < sum_mset (image_mset value_of D)"
    if D: "D \<subseteq># mset (bundles full)" "length tail < size D"
      "size D + max (max_bundles trim) 1 \<le> length (bundles full)" for D
  proof -
    have "length (bundles full) = length kept + length tail"
      using order by simp
    then have "max (max_bundles trim) 1 < length kept"
      using D(2,3) by linarith
    then have stop: "privacy_drop_budget_v1 policy (value_of ns) < total_of tail + fst (last kept)"
        and "kept \<noteq> []"
      using planned trim by (auto simp: planned_def trims_to_def)
    have "image_mset value_of D \<subseteq># mset (map fst kept @ map fst tail)"
      using image_mset_subseteq_mono [OF D(1), of value_of] order
      unfolding kept_values(1) tail_values(1) by (simp add: image_mset.compositionality)
    from largest_tail_sum [OF desc _ this] show ?thesis
      using D(2) stop \<open>kept \<noteq> []\<close> by (simp add: total_of_def last_map)
  qed
  show ?thesis
    using full(1) order planned tail_values(2) best
    by (intro exI [of _ full] exI [of _ "map snd tail"]) (auto simp: planned_def trims_to_def)
qed

definition trim_notes :: "NoteInfo list" where
  "trim_notes = [sample_note 13000000 7, sample_note 2000000000 3]"

definition trim_policy :: BundlePolicy where
  "trim_policy = with_max_privacy_bundles (bundle_policy_default\<lparr>max_real_notes_per_bundle := 1\<rparr>) (Some 0)"

lemma trimmed_plan:
  "chunk_notes_v1_with_policy trim_notes trim_policy =
     Inr \<lparr>bundles = [[sample_note 2000000000 3]], eligible_weight = 2000000000, dropped_count = 0,
          privacy_trim = \<lparr>dropped_bundles = 1, dropped_notes = 1, dropped_value = 13000000\<rparr>\<rparr>"
  by (simp add: trim_notes_def sample_note_def trim_policy_def planner_defs trim_loop.simps)

theorem privacy_trim_optimal_witness:
  "\<exists>full trimmed. chunk_notes_v1_with_policy trim_notes (with_max_privacy_bundles trim_policy None) = Inr full
     \<and> bundles full = [sample_note 2000000000 3] # trimmed \<and> length trimmed = 1"
  using privacy_trim_optimal [OF trimmed_plan]
  by (force simp: trim_policy_def with_max_privacy_bundles_def)

section \<open>Plans do not depend on the order of the notes\<close>

lemma by_value_desc_perm:
  assumes "mset ns = mset ms" "inj_on note_position (set ns)"
  shows "by_value_desc ns = by_value_desc ms"
  unfolding by_value_desc_def
proof (rule sort_key_inj_key_eq)
  show "inj_on (\<lambda>n. (- uint (note_value n), note_position n)) (set ns)"
    using assms(2) by (auto simp: inj_on_def)
qed (use assms(1) in simp_all)

lemma chunk_notes_perm:
  assumes "mset ns = mset ms" "inj_on note_position (set ns)"
  shows "chunk_notes_v1_with_policy ns policy = chunk_notes_v1_with_policy ms policy"
proof -
  have "ns = [] \<longleftrightarrow> ms = []"
    using assms(1) by auto
  then show ?thesis
    using by_value_desc_perm [OF assms] value_of_mset [OF assms(1)]
    by (simp add: chunk_notes_v1_with_policy_def value_of_def)
qed

lemma distinct_notes_perm:
  assumes "inj_on note_nullifier (set ns)" "set ms = set ns"
  shows "mset (distinct_notes_by_nullifier_v1 ns) = mset (distinct_notes_by_nullifier_v1 ms)"
proof -
  have same: "set (distinct_notes_by_nullifier_v1 xs) = set ns" if "set xs = set ns" for xs
    using distinct_notes(1,3) [of xs] that assms(1)
    by (metis Diff_empty inj_on_image_eq_iff order_refl)
  have "distinct (distinct_notes_by_nullifier_v1 xs)" for xs
    using distinct_notes(2) [of xs] by (simp add: distinct_map)
  then show ?thesis
    using same [of ns] same [of ms] assms(2) set_eq_iff_mset_eq_distinct by metis
qed

text \<open>
  C35.  The plan is canonical: for notes whose nullifiers and tree positions identify them, it
  depends only on the set of notes, not on their order or repetition, so a wallet that rebuilds a
  round from the same notes derives the same bundles.
\<close>

theorem bundle_plan_canonical:
  assumes "inj_on note_nullifier (set ns)" "inj_on note_position (set ns)" "set ms = set ns"
  shows "canonical_note_bundle_plan_for_notes ns policy = Inr plan \<longleftrightarrow>
     canonical_note_bundle_plan_for_notes ms policy = Inr plan"
proof -
  have "inj_on note_position (set (distinct_notes_by_nullifier_v1 ns))"
    using distinct_notes(1) assms(2) by (rule inj_on_subset [rotated])
  from chunk_notes_perm [OF distinct_notes_perm [OF assms(1,3)] this, of policy]
  show ?thesis
    using assms(3) by (auto simp: canonical_plan_eq validate_notes_for_round_ok)
qed

theorem bundle_plan_canonical_witness:
  "canonical_note_bundle_plan_for_notes (rev sample_notes) sample_policy =
     Inr \<lparr>bundles = [[sample_note 13000000 7, sample_note 40000000 9]], eligible_weight = 50000000,
          dropped_count = 1,
          privacy_trim = \<lparr>dropped_bundles = 0, dropped_notes = 0, dropped_value = 0\<rparr>\<rparr>"
  by (rule bundle_plan_canonical [THEN iffD1, OF _ _ _ sample_plan])
    (auto simp: inj_on_def sample_notes_def sample_note_def)

end
