(* ===== verification/Share_Policy.thy ===== *)
theory Share_Policy
  imports Voting_Types "HOL-Library.Product_Lexorder" "HOL-Library.Multiset"
begin

text \<open>
  Helper-share policy (\<open>share_policy/\<close>): server orders, the delayed submission schedule, the
  initial placement of a commitment's shares and the timing of recovery.  Seconds are natural
  numbers below \<open>2 ^ 64\<close> with the saturating operations of the source; random bytes are an argument.
  The variants that take a floating-point sample are not modelled.
\<close>

section \<open>Saturating arithmetic\<close>

definition U64_MAX :: nat where
  "U64_MAX = 2 ^ 64 - 1"

definition saturating_add :: "nat \<Rightarrow> nat \<Rightarrow> nat" where
  "saturating_add a b = min (a + b) U64_MAX"

definition saturating_mul :: "nat \<Rightarrow> nat \<Rightarrow> nat" where
  "saturating_mul a b = min (a * b) U64_MAX"

definition from_le_bytes :: "bytes \<Rightarrow> nat" where
  "from_le_bytes bs = be_nat (rev bs)"

section \<open>Server order\<close>

definition VOTE_COMMITMENT_SHARE_COUNT :: nat where
  "VOTE_COMMITMENT_SHARE_COUNT = 16"

definition SHARE_HELPER_MAX_INITIAL_SHARES_PER_SERVER :: nat where
  "SHARE_HELPER_MAX_INITIAL_SHARES_PER_SERVER = VOTE_COMMITMENT_SHARE_COUNT * 3 div 4"

definition SHARE_HELPER_TARGET_COUNT_CAP :: nat where
  "SHARE_HELPER_TARGET_COUNT_CAP = 10"

definition share_submission_target_count :: "nat \<Rightarrow> nat" where
  "share_submission_target_count server_count =
     min (server_count div 2 + server_count mod 2) SHARE_HELPER_TARGET_COUNT_CAP"

definition effective_share_submission_target_count :: "u32 \<Rightarrow> nat \<Rightarrow> nat" where
  "effective_share_submission_target_count stored_target_count server_count =
     (let target_count = (if stored_target_count = 0 then share_submission_target_count server_count
                          else unat stored_target_count) in
      min (min target_count SHARE_HELPER_TARGET_COUNT_CAP) server_count)"

definition minimum_complete_batch_planning_server_count :: "nat \<Rightarrow> nat" where
  "minimum_complete_batch_planning_server_count target_count =
     (if target_count = 0 then 0
      else (VOTE_COMMITMENT_SHARE_COUNT * target_count + (SHARE_HELPER_MAX_INITIAL_SHARES_PER_SERVER - 1))
             div SHARE_HELPER_MAX_INITIAL_SHARES_PER_SERVER)"

record ShareServerSelectionPolicy =
  policy_target_count :: nat
  policy_max_shares_per_server :: nat
  policy_min_server_count :: nat
  preflight_soft_timeout_milliseconds :: nat
  preflight_hard_timeout_milliseconds :: nat
  post_timeout_milliseconds :: nat
  initial_delivery_timeout_milliseconds :: nat
  max_concurrent_posts :: nat

definition share_server_selection_policy :: "nat \<Rightarrow> ShareServerSelectionPolicy" where
  "share_server_selection_policy server_count =
     (let target_count = share_submission_target_count server_count;
          (max_shares, min_servers) =
            (if server_count = 0 then (0, 0)
             else if server_count = 1 then (VOTE_COMMITMENT_SHARE_COUNT, 1)
             else (SHARE_HELPER_MAX_INITIAL_SHARES_PER_SERVER,
                   minimum_complete_batch_planning_server_count target_count))
      in \<lparr>policy_target_count = target_count, policy_max_shares_per_server = max_shares,
          policy_min_server_count = min_servers,
          preflight_soft_timeout_milliseconds = 2000, preflight_hard_timeout_milliseconds = 30000,
          post_timeout_milliseconds = 30000, initial_delivery_timeout_milliseconds = 60000,
          max_concurrent_posts = 128\<rparr>)"

definition share_server_order_random_bytes_required :: "nat \<Rightarrow> nat" where
  "share_server_order_random_bytes_required server_count = saturating_mul (server_count - 1) 8"

definition require_unique_share_servers :: "unicode list \<Rightarrow> VotingError + unit" where
  "require_unique_share_servers server_urls =
     ensure (distinct server_urls) (InvalidInput (lit ''server_urls must not contain duplicates''))"

text \<open>The loop over the indices from the last one down to one.\<close>

fun shuffle_from :: "nat \<Rightarrow> bytes \<Rightarrow> 'a list \<Rightarrow> 'a list" where
  "shuffle_from 0 random_bytes ordered = ordered"
| "shuffle_from (Suc i) random_bytes ordered =
     (let index = Suc i;
          sample = from_le_bytes (take 8 random_bytes);
          swap_index = sample mod (index + 1)
      in shuffle_from i (drop 8 random_bytes)
           (ordered[index := ordered ! swap_index, swap_index := ordered ! index]))"

definition shuffled_share_server_order :: "unicode list \<Rightarrow> bytes \<Rightarrow> VotingError + unicode list" where
  "shuffled_share_server_order server_urls random_bytes =
     and_then (require_unique_share_servers server_urls) (\<lambda>_.
     let needed = share_server_order_random_bytes_required (length server_urls) in
     if length random_bytes < needed
     then Inl (InvalidInput (lit ''server_random_bytes must contain at least '' @ lit (decimal needed)
            @ lit '' bytes for '' @ lit (decimal (length server_urls)) @ lit '' servers''))
     else Inr (shuffle_from (length server_urls - 1) random_bytes server_urls))"

definition select_share_submission_targets_from_order :: "unicode list \<Rightarrow> nat \<Rightarrow> unicode list" where
  "select_share_submission_targets_from_order server_urls target_count =
     take (min target_count (length server_urls)) server_urls"

definition select_share_submission_targets ::
  "unicode list \<Rightarrow> nat \<Rightarrow> bytes \<Rightarrow> VotingError + unicode list" where
  "select_share_submission_targets server_urls target_count server_random_bytes =
     (let target_count = min target_count (length server_urls) in
      if target_count = 0 then Inr []
      else and_then (shuffled_share_server_order server_urls server_random_bytes) (\<lambda>randomized_order.
        Inr (select_share_submission_targets_from_order randomized_order target_count)))"

definition resubmission_server_order_from_groups :: "unicode list \<Rightarrow> unicode list \<Rightarrow> unicode list" where
  "resubmission_server_order_from_groups untried already_sent = untried @ already_sent"

definition untried_servers :: "unicode list \<Rightarrow> unicode list \<Rightarrow> unicode list" where
  "untried_servers configured sent_to = filter (\<lambda>server. server \<notin> set sent_to) configured"

definition already_sent_servers :: "unicode list \<Rightarrow> unicode list \<Rightarrow> unicode list" where
  "already_sent_servers configured sent_to = filter (\<lambda>server. server \<in> set sent_to) configured"

definition resubmission_server_order_random_bytes_required :: "unicode list \<Rightarrow> unicode list \<Rightarrow> nat" where
  "resubmission_server_order_random_bytes_required configured sent_to =
     saturating_add
       (share_server_order_random_bytes_required (length (untried_servers configured sent_to)))
       (share_server_order_random_bytes_required (length (already_sent_servers configured sent_to)))"

definition resubmission_server_order ::
  "unicode list \<Rightarrow> unicode list \<Rightarrow> bytes \<Rightarrow> VotingError + unicode list" where
  "resubmission_server_order configured sent_to server_random_bytes =
     and_then (require_unique_share_servers configured) (\<lambda>_.
     let untried = untried_servers configured sent_to;
         already_sent = already_sent_servers configured sent_to;
         untried_bytes = share_server_order_random_bytes_required (length untried);
         already_sent_bytes = share_server_order_random_bytes_required (length already_sent);
         needed = resubmission_server_order_random_bytes_required configured sent_to in
     if length server_random_bytes < needed
     then Inl (InvalidInput (lit ''server_random_bytes must contain at least '' @ lit (decimal needed)
            @ lit '' bytes for resubmission order''))
     else
       and_then (shuffled_share_server_order untried (take untried_bytes server_random_bytes))
         (\<lambda>randomized_untried.
       and_then (shuffled_share_server_order already_sent
                   (take already_sent_bytes (drop untried_bytes server_random_bytes)))
         (\<lambda>randomized_already_sent.
       Inr (resubmission_server_order_from_groups randomized_untried randomized_already_sent))))"

definition resubmission_server_order_from_configured_order ::
  "unicode list \<Rightarrow> unicode list \<Rightarrow> unicode list" where
  "resubmission_server_order_from_configured_order configured sent_to =
     resubmission_server_order_from_groups (untried_servers configured sent_to)
       (already_sent_servers configured sent_to)"

section \<open>Submission schedule\<close>

definition SHARE_SUBMIT_AT_RANDOM_BYTES :: nat where
  "SHARE_SUBMIT_AT_RANDOM_BYTES = 8"

definition SHARE_SUBMIT_AT_MAX_DELAY_SECONDS :: nat where
  "SHARE_SUBMIT_AT_MAX_DELAY_SECONDS = 100 * 60 * 60"

definition delayed_share_window_seconds :: "nat \<Rightarrow> nat \<Rightarrow> nat option \<Rightarrow> bool \<Rightarrow> nat option" where
  "delayed_share_window_seconds now_seconds vote_end last_moment_buffer single_share =
     (if single_share then None
      else case last_moment_buffer of
        None \<Rightarrow> None
      | Some buffer \<Rightarrow>
          if buffer = 0 then None
          else
            let deadline = vote_end - buffer in
            if deadline \<le> now_seconds then None
            else Some (min (deadline - now_seconds) SHARE_SUBMIT_AT_MAX_DELAY_SECONDS))"

definition share_submit_at_random_bytes_required :: "nat \<Rightarrow> nat \<Rightarrow> nat option \<Rightarrow> bool \<Rightarrow> nat" where
  "share_submit_at_random_bytes_required now_seconds vote_end last_moment_buffer single_share =
     (if delayed_share_window_seconds now_seconds vote_end last_moment_buffer single_share \<noteq> None
      then SHARE_SUBMIT_AT_RANDOM_BYTES else 0)"

definition scheduled_share_submit_at_from_entropy ::
  "nat \<Rightarrow> nat \<Rightarrow> nat option \<Rightarrow> bool \<Rightarrow> bytes \<Rightarrow> VotingError + nat" where
  "scheduled_share_submit_at_from_entropy now_seconds vote_end last_moment_buffer single_share random_bytes =
     (case delayed_share_window_seconds now_seconds vote_end last_moment_buffer single_share of
        None \<Rightarrow> Inr 0
      | Some window_seconds \<Rightarrow>
          if length random_bytes < SHARE_SUBMIT_AT_RANDOM_BYTES
          then Inl (InvalidInput (lit ''submit_at_random_bytes must contain at least 8 bytes''))
          else
            let sample = from_le_bytes (take 8 random_bytes);
                delay_seconds = sample * window_seconds div 2 ^ 64
            in Inr (saturating_add now_seconds delay_seconds))"

section \<open>Initial placement\<close>

record ShareSubmissionPlan =
  plan_immediate :: bool
  plan_submit_at :: nat
  plan_target_count :: u32
  plan_target_servers :: "unicode list"

record ImmediateShareKey =
  key_bundle_index :: u32
  key_proposal_id :: u32
  key_share_index :: u32

definition round_immediate_share_key :: "u32 option \<Rightarrow> u32 list \<Rightarrow> ImmediateShareKey option" where
  "round_immediate_share_key highest_bundle_index voted_proposal_ids =
     (case highest_bundle_index of
        None \<Rightarrow> None
      | Some bundle_index \<Rightarrow>
          (case voted_proposal_ids of
             [] \<Rightarrow> None
           | pid # pids \<Rightarrow>
               Some \<lparr>key_bundle_index = bundle_index, key_proposal_id = fold min pids pid,
                     key_share_index = 0\<rparr>))"

definition share_submission_random_bytes_required ::
  "nat \<Rightarrow> nat \<Rightarrow> nat \<Rightarrow> nat \<Rightarrow> nat option \<Rightarrow> bool \<Rightarrow> nat \<times> nat" where
  "share_submission_random_bytes_required share_count server_count now_seconds vote_end
       last_moment_buffer single_share =
     (saturating_mul (share_submit_at_random_bytes_required now_seconds vote_end last_moment_buffer
        single_share) share_count,
      saturating_mul (share_server_order_random_bytes_required server_count) share_count)"

definition require_share_servers :: "unicode list \<Rightarrow> VotingError + unit" where
  "require_share_servers server_urls =
     (if server_urls = [] then Inl (InvalidInput (lit ''server_urls must not be empty''))
      else require_unique_share_servers server_urls)"

definition build_share_submission_plan ::
  "bool \<Rightarrow> nat \<Rightarrow> unicode list \<Rightarrow> nat \<Rightarrow> VotingError + ShareSubmissionPlan" where
  "build_share_submission_plan immediate target_count target_servers submit_at =
     (if target_count < 2 ^ 32 then
        Inr \<lparr>plan_immediate = immediate, plan_submit_at = submit_at,
             plan_target_count = of_nat target_count, plan_target_servers = target_servers\<rparr>
      else Inl (InvalidInput
        (lit ''target_count '' @ lit (decimal target_count) @ lit '' does not fit u32'')))"

definition plan_share_submission ::
  "unicode list \<Rightarrow> nat \<Rightarrow> nat \<Rightarrow> nat option \<Rightarrow> bool \<Rightarrow> bytes \<Rightarrow> bytes
   \<Rightarrow> VotingError + ShareSubmissionPlan" where
  "plan_share_submission server_urls now_seconds vote_end last_moment_buffer single_share
       submit_at_random_bytes server_random_bytes =
     and_then (require_share_servers server_urls) (\<lambda>_.
     let target_count = share_submission_target_count (length server_urls) in
     and_then (select_share_submission_targets server_urls target_count server_random_bytes)
       (\<lambda>target_servers.
     and_then (scheduled_share_submit_at_from_entropy now_seconds vote_end last_moment_buffer
                 single_share submit_at_random_bytes) (\<lambda>submit_at.
     build_share_submission_plan False target_count target_servers submit_at)))"

text \<open>\<open>server_usage\<close> is a map whose missing entries count as zero.\<close>

type_synonym server_usage = "unicode \<Rightarrow> nat"

definition ranked_by_usage :: "server_usage \<Rightarrow> unicode list \<Rightarrow> unicode list" where
  "ranked_by_usage usage randomized_order =
     map snd (sort_key (\<lambda>(random_rank, server). (usage server, random_rank))
       (enumerate 0 randomized_order))"

definition select_batch_share_submission_targets ::
  "unicode list \<Rightarrow> nat \<Rightarrow> nat option \<Rightarrow> server_usage \<Rightarrow> bytes
   \<Rightarrow> VotingError + unicode list \<times> server_usage" where
  "select_batch_share_submission_targets server_urls target_count max_shares_per_server usage
       server_random_bytes =
     and_then (shuffled_share_server_order server_urls server_random_bytes) (\<lambda>randomized_order.
     let selected = take target_count
           (filter (\<lambda>server. case max_shares_per_server of
                None \<Rightarrow> True
              | Some maximum \<Rightarrow> usage server < maximum)
             (ranked_by_usage usage randomized_order)) in
     if length selected \<noteq> target_count
     then Inl (InvalidInput (lit ''cannot select '' @ lit (decimal target_count)
            @ lit '' distinct helpers without exceeding the initial per-helper share quota''))
     else Inr (selected, fold (\<lambda>server u. u(server := u server + 1)) selected usage))"

definition checked_random_bytes_required :: "nat \<Rightarrow> nat \<Rightarrow> string \<Rightarrow> VotingError + nat" where
  "checked_random_bytes_required per_share share_count name =
     (if per_share * share_count < 2 ^ 64 then Inr (per_share * share_count)
      else Inl (InvalidInput (lit name @ lit '' requirement overflows usize'')))"

text \<open>The parameters of a batch that its loop reads.\<close>

record share_batch =
  batch_servers :: "unicode list"
  batch_target_count :: nat
  batch_quota :: "nat option"
  batch_now :: nat
  batch_vote_end :: nat
  batch_buffer :: "nat option"
  batch_single :: bool
  batch_immediate :: "u32 option"
  submit_at_bytes_per_share :: nat
  server_bytes_per_share :: nat
  batch_submit_at_bytes :: bytes
  batch_server_bytes :: bytes

definition plan_one_share ::
  "share_batch \<Rightarrow> server_usage \<times> ShareSubmissionPlan list \<Rightarrow> nat
   \<Rightarrow> VotingError + server_usage \<times> ShareSubmissionPlan list" where
  "plan_one_share batch planned share_index =
     (case planned of (usage, plans) \<Rightarrow>
      and_then (select_batch_share_submission_targets (batch_servers batch)
                  (batch_target_count batch) (batch_quota batch) usage
                  (take (server_bytes_per_share batch)
                    (drop (share_index * server_bytes_per_share batch) (batch_server_bytes batch))))
        (\<lambda>(target_servers, usage).
      let immediate = (batch_immediate batch = Some (of_nat share_index)) in
      and_then (if immediate then Inr 0
                else scheduled_share_submit_at_from_entropy (batch_now batch) (batch_vote_end batch)
                  (batch_buffer batch) (batch_single batch)
                  (take (submit_at_bytes_per_share batch)
                    (drop (share_index * submit_at_bytes_per_share batch)
                      (batch_submit_at_bytes batch)))) (\<lambda>submit_at.
      and_then (build_share_submission_plan immediate (batch_target_count batch) target_servers
                  submit_at) (\<lambda>plan.
      Inr (usage, plans @ [plan])))))"

definition plan_share_submissions_with_preferred_servers ::
  "nat \<Rightarrow> unicode list \<Rightarrow> nat \<Rightarrow> nat \<Rightarrow> nat \<Rightarrow> nat option \<Rightarrow> bool \<Rightarrow> u32 option \<Rightarrow> bytes \<Rightarrow> bytes
   \<Rightarrow> VotingError + ShareSubmissionPlan list" where
  "plan_share_submissions_with_preferred_servers share_count ranked_server_urls
       preferred_server_count now_seconds vote_end last_moment_buffer single_share
       immediate_share_index submit_at_random_bytes server_random_bytes =
     (if single_share \<and> share_count \<noteq> 1
      then Inl (InvalidInput (lit ''single_share planning requires exactly one share payload, got ''
             @ lit (decimal share_count)))
      else if (case immediate_share_index of None \<Rightarrow> False | Some index \<Rightarrow> unat index \<ge> share_count)
      then Inl (InvalidInput (lit ''immediate_share_index must be less than share_count ''
             @ lit (decimal share_count)))
      else if share_count = 0 then Inr []
      else
        and_then (require_share_servers ranked_server_urls) (\<lambda>_.
        if preferred_server_count > length ranked_server_urls
        then Inl (InvalidInput
          (lit ''preferred_server_count must not exceed ranked_server_urls length''))
        else
        let submit_at_bytes = share_submit_at_random_bytes_required now_seconds vote_end
              last_moment_buffer single_share;
            server_bytes = share_server_order_random_bytes_required (length ranked_server_urls) in
        and_then (checked_random_bytes_required submit_at_bytes share_count ''submit_at_random_bytes'')
          (\<lambda>submit_at_bytes_needed.
        and_then (checked_random_bytes_required server_bytes share_count ''server_random_bytes'')
          (\<lambda>server_bytes_needed.
        if length submit_at_random_bytes < submit_at_bytes_needed
        then Inl (InvalidInput (lit ''submit_at_random_bytes must contain at least ''
               @ lit (decimal submit_at_bytes_needed) @ lit '' bytes''))
        else if length server_random_bytes < server_bytes_needed
        then Inl (InvalidInput (lit ''server_random_bytes must contain at least ''
               @ lit (decimal server_bytes_needed) @ lit '' bytes''))
        else
        let target_count = share_submission_target_count (length ranked_server_urls);
            complete_normal_batch = (share_count = VOTE_COMMITMENT_SHARE_COUNT \<and> \<not> single_share);
            selection_policy = share_server_selection_policy (length ranked_server_urls);
            minimum_planning_server_count =
              (if complete_normal_batch then policy_min_server_count selection_policy
               else target_count) in
        if minimum_planning_server_count > length ranked_server_urls
        then Inl (InvalidInput (lit ''complete share batch requires at least ''
               @ lit (decimal minimum_planning_server_count)
               @ lit '' helpers to keep each helper at or below '' @ lit (decimal 12)
               @ lit '' initial shares''))
        else
        let planning_server_count = min (max preferred_server_count minimum_planning_server_count)
              (length ranked_server_urls);
            batch = \<lparr>batch_servers = take planning_server_count ranked_server_urls,
              batch_target_count = target_count,
              batch_quota = (if complete_normal_batch \<and> planning_server_count > 1
                then Some SHARE_HELPER_MAX_INITIAL_SHARES_PER_SERVER else None),
              batch_now = now_seconds, batch_vote_end = vote_end, batch_buffer = last_moment_buffer,
              batch_single = single_share, batch_immediate = immediate_share_index,
              submit_at_bytes_per_share = submit_at_bytes, server_bytes_per_share = server_bytes,
              batch_submit_at_bytes = submit_at_random_bytes,
              batch_server_bytes = server_random_bytes\<rparr> in
        and_then (run_steps (plan_one_share batch) ((\<lambda>_. 0), []) [0..<share_count]) (\<lambda>planned.
        Inr (snd planned))))))"

definition plan_share_submissions ::
  "nat \<Rightarrow> unicode list \<Rightarrow> nat \<Rightarrow> nat \<Rightarrow> nat option \<Rightarrow> bool \<Rightarrow> u32 option \<Rightarrow> bytes \<Rightarrow> bytes
   \<Rightarrow> VotingError + ShareSubmissionPlan list" where
  "plan_share_submissions share_count server_urls now_seconds vote_end last_moment_buffer single_share
       immediate_share_index submit_at_random_bytes server_random_bytes =
     plan_share_submissions_with_preferred_servers share_count server_urls (length server_urls)
       now_seconds vote_end last_moment_buffer single_share immediate_share_index
       submit_at_random_bytes server_random_bytes"

end
