(* ===== verification/Share_Placement.thy ===== *)
theory Share_Placement
  imports Share_Policy
begin

text \<open>
  Correctness of helper-share placement: shuffles are permutations, resubmission prefers untried
  helpers, delays stay inside their window, and the initial placement of a commitment is balanced,
  keeps the per-helper quota and always succeeds.
\<close>

section \<open>Server orders\<close>

lemma mset_shuffle_from: "i < length xs \<or> i = 0 \<Longrightarrow> mset (shuffle_from i random_bytes xs) = mset xs"
proof (induction i random_bytes xs rule: shuffle_from.induct)
  case (2 i random_bytes ordered)
  define j where "j = from_le_bytes (take 8 random_bytes) mod (Suc i + 1)"
  have "j < length ordered" "Suc i < length ordered"
    using 2(2) mod_less_divisor [of "Suc i + 1" "from_le_bytes (take 8 random_bytes)"]
    by (auto simp: j_def simp del: mod_less_divisor)
  then have "mset (ordered[Suc i := ordered ! j, j := ordered ! Suc i]) = mset ordered"
    by (metis mset_swap)
  then show ?case
    using 2 by (simp add: j_def Let_def)
qed simp

lemma shuffled_order:
  assumes "shuffled_share_server_order servers random_bytes = Inr order"
  shows "distinct servers" "mset order = mset servers"
  using assms
  by (cases servers; auto simp: shuffled_share_server_order_def require_unique_share_servers_def
      Let_def mset_shuffle_from split: if_splits)+

lemma shuffled_order_exists:
  assumes "distinct servers" "(length servers - 1) * 8 \<le> length random_bytes"
  shows "\<exists>order. shuffled_share_server_order servers random_bytes = Inr order"
  using assms
  by (auto simp: shuffled_share_server_order_def require_unique_share_servers_def Let_def
      share_server_order_random_bytes_required_def saturating_mul_def)

text \<open>
  Resubmission.  Every configured helper is tried exactly once, and every helper that has not
  received the share comes before every helper that has.
\<close>

definition resubmission_spec :: "unicode list \<Rightarrow> unicode list \<Rightarrow> unicode list \<Rightarrow> bool" where
  "resubmission_spec configured sent_to order \<longleftrightarrow>
     mset order = mset configured \<and> distinct order
     \<and> (\<exists>untried already. order = untried @ already
          \<and> set untried \<inter> set sent_to = {} \<and> set already \<subseteq> set sent_to)"

lemma mset_groups:
  "mset (untried_servers configured sent_to) + mset (already_sent_servers configured sent_to)
     = mset configured"
  unfolding untried_servers_def already_sent_servers_def
  using multiset_partition [of "mset configured" "\<lambda>s. s \<in> set sent_to"] by (simp add: add.commute)

lemma resubmission_groups:
  assumes "distinct configured" "mset u = mset (untried_servers configured sent_to)"
    "mset a = mset (already_sent_servers configured sent_to)"
  shows "resubmission_spec configured sent_to (u @ a)"
proof -
  have "mset (u @ a) = mset configured"
    using assms mset_groups [of configured sent_to] by simp
  moreover have "set u = set (untried_servers configured sent_to)"
    "set a = set (already_sent_servers configured sent_to)"
    using assms(2,3) mset_eq_setD by blast+
  ultimately show ?thesis
    unfolding resubmission_spec_def
    using assms(1) mset_eq_imp_distinct_iff [of "u @ a" configured]
    by (auto simp: untried_servers_def already_sent_servers_def)
qed

section \<open>Submission times\<close>

lemma from_le_bytes_less: "length bs \<le> 8 \<Longrightarrow> from_le_bytes bs < 2 ^ 64"
proof -
  assume "length bs \<le> 8"
  have "be_nat (rev bs) < 256 ^ length bs"
    using be_nat_less [of "rev bs"] by simp
  also have "\<dots> \<le> 256 ^ 8"
    using \<open>length bs \<le> 8\<close> by (intro power_increasing) simp_all
  finally show ?thesis
    by (simp add: from_le_bytes_def)
qed

lemma sampled_delay_less: "\<lbrakk>sample < 2 ^ 64; 0 < w\<rbrakk> \<Longrightarrow> sample * w div 2 ^ 64 < (w :: nat)"
  by (simp add: div_less_iff_less_mult)

definition in_window :: "nat \<Rightarrow> nat \<Rightarrow> nat \<Rightarrow> nat \<Rightarrow> bool" where
  "in_window now_seconds vote_end buffer at \<longleftrightarrow>
     now_seconds \<le> at \<and> at + buffer < vote_end \<and> at < now_seconds + 100 * 60 * 60"

lemma scheduled_in_window:
  assumes "scheduled_share_submit_at_from_entropy now_seconds vote_end buffer single random_bytes = Inr at"
    and "vote_end < 2 ^ 64"
  shows "at = 0 \<and> delayed_share_window_seconds now_seconds vote_end buffer single = None
    \<or> (\<exists>b. buffer = Some b \<and> \<not> single \<and> in_window now_seconds vote_end b at)"
proof (cases "delayed_share_window_seconds now_seconds vote_end buffer single")
  case None
  then show ?thesis
    using assms(1) by (simp add: scheduled_share_submit_at_from_entropy_def)
next
  case (Some w)
  then obtain b where b: "buffer = Some b" "\<not> single" "0 < b" "now_seconds < vote_end - b"
      and w: "w = min (vote_end - b - now_seconds) (100 * 60 * 60)"
    by (auto simp: delayed_share_window_seconds_def SHARE_SUBMIT_AT_MAX_DELAY_SECONDS_def Let_def
        split: if_splits option.splits)
  define delay where "delay = from_le_bytes (take 8 random_bytes) * w div 2 ^ 64"
  have "delay < w"
    unfolding delay_def by (rule sampled_delay_less [OF from_le_bytes_less]) (use b w in auto)
  moreover have "at = saturating_add now_seconds delay"
    using assms(1) Some
    by (simp add: scheduled_share_submit_at_from_entropy_def delay_def Let_def split: if_splits)
  moreover have "now_seconds + delay < vote_end"
    using \<open>delay < w\<close> w b(4) by linarith
  ultimately have "at = now_seconds + delay"
    using assms(2) by (simp add: saturating_add_def U64_MAX_def)
  then show ?thesis
    using \<open>delay < w\<close> w b by (auto simp: in_window_def)
qed

section \<open>Balanced selection\<close>

lemma mset_ranked_by_usage: "mset (ranked_by_usage usage order) = mset order"
proof -
  have "mset (ranked_by_usage usage order) = mset (map snd (enumerate 0 order))"
    by (simp only: ranked_by_usage_def mset_map mset_sort)
  then show ?thesis
    by simp
qed

lemma sorted_ranked_by_usage: "sorted_wrt (\<lambda>a b. usage a \<le> usage b) (ranked_by_usage usage order)"
proof -
  have "sorted (map (\<lambda>(r, s). (usage s, r)) (sort_key (\<lambda>(r, s). (usage s, r)) (enumerate 0 order)))"
    by (rule sorted_sort_key)
  then have "sorted_wrt (\<lambda>x y. usage (snd x) \<le> usage (snd y))
      (sort_key (\<lambda>(r, s). (usage s, r)) (enumerate 0 order))"
    by (auto simp: sorted_map less_eq_prod_def elim!: sorted_wrt_mono_rel [rotated] split: prod.splits)
  then show ?thesis
    by (simp add: ranked_by_usage_def sorted_wrt_map)
qed

definition eligible :: "nat option \<Rightarrow> server_usage \<Rightarrow> unicode \<Rightarrow> bool" where
  "eligible quota usage server \<longleftrightarrow> (case quota of None \<Rightarrow> True | Some maximum \<Rightarrow> usage server < maximum)"

lemma eligible_fold:
  "(\<lambda>server. case quota of None \<Rightarrow> True | Some maximum \<Rightarrow> usage server < maximum) = eligible quota usage"
  by (simp add: fun_eq_iff eligible_def)

text \<open>What one selection does to the usage: the least used eligible helpers gain one share.\<close>

definition selects :: "unicode list \<Rightarrow> nat option \<Rightarrow> server_usage \<Rightarrow> unicode list \<Rightarrow> bool" where
  "selects servers quota usage chosen \<longleftrightarrow>
     distinct chosen \<and> set chosen \<subseteq> {s \<in> set servers. eligible quota usage s}
     \<and> (\<forall>s \<in> set chosen. \<forall>s' \<in> set servers - set chosen. usage s \<le> usage s')"

lemma take_sorted_selects:
  assumes "distinct order" "sorted_wrt (\<lambda>a b. usage a \<le> usage b) order" "set order = set servers"
  shows "selects servers quota usage (take t (filter (eligible quota usage) order))"
proof -
  define es where "es = filter (eligible quota usage) order"
  have es: "distinct es" "sorted_wrt (\<lambda>a b. usage a \<le> usage b) (take t es @ drop t es)"
    using assms(1,2) by (simp_all add: es_def sorted_wrt_filter)
  have "usage s \<le> usage s'" if "s \<in> set (take t es)" "s' \<in> set servers - set (take t es)" for s s'
  proof (cases "eligible quota usage s'")
    case True
    then have "s' \<in> set es"
      using that(2) assms(3) by (simp add: es_def)
    then have "s' \<in> set (drop t es)"
      using that(2) by (metis DiffD2 Un_iff append_take_drop_id set_append)
    then show ?thesis
      using that(1) es(2) unfolding sorted_wrt_append by blast
  next
    case False
    moreover have "eligible quota usage s"
      using set_take_subset [of t es] that(1) by (auto simp: es_def)
    ultimately show ?thesis
      by (auto simp: eligible_def split: option.splits)
  qed
  then show ?thesis
    using es(1) assms(3) set_take_subset [of t es]
    by (auto simp: selects_def es_def [symmetric]) (auto simp: es_def)
qed

lemma use_chosen:
  "distinct chosen \<Longrightarrow>
     fold (\<lambda>s u. u(s := u s + 1)) chosen usage = (\<lambda>s. usage s + (if s \<in> set chosen then 1 else (0 :: nat)))"
  by (induction chosen arbitrary: usage) (auto simp: fun_eq_iff)

lemma select_batch:
  assumes "select_batch_share_submission_targets servers t quota usage random_bytes = Inr (chosen, usage')"
  shows "selects servers quota usage chosen" "length chosen = t"
    "usage' = (\<lambda>s. usage s + (if s \<in> set chosen then 1 else 0))"
proof -
  obtain order where order: "distinct servers" "mset order = mset servers"
      and chosen: "chosen = take t (filter (eligible quota usage) (ranked_by_usage usage order))"
        "length chosen = t" "usage' = fold (\<lambda>s u. u(s := u s + 1)) chosen usage"
    using assms unfolding select_batch_share_submission_targets_def eligible_fold
    by (auto simp: Let_def dest: shuffled_order split: if_splits)
  have "mset (ranked_by_usage usage order) = mset servers"
    using order(2) by (simp add: mset_ranked_by_usage)
  then have "distinct (ranked_by_usage usage order)" "set (ranked_by_usage usage order) = set servers"
    using order(1) mset_eq_imp_distinct_iff mset_eq_setD by blast+
  then show sel: "selects servers quota usage chosen"
    unfolding chosen(1) by (intro take_sorted_selects sorted_ranked_by_usage)
  show "length chosen = t"
    by (fact chosen(2))
  show "usage' = (\<lambda>s. usage s + (if s \<in> set chosen then 1 else 0))"
    unfolding chosen(3) using sel by (intro use_chosen) (simp add: selects_def)
qed

lemma select_batch_exists:
  assumes "distinct servers" "(length servers - 1) * 8 \<le> length random_bytes"
    and "t \<le> card {s \<in> set servers. eligible quota usage s}"
  shows "\<exists>r. select_batch_share_submission_targets servers t quota usage random_bytes = Inr r"
proof -
  obtain order where order: "shuffled_share_server_order servers random_bytes = Inr order"
    using shuffled_order_exists [OF assms(1,2)] by blast
  have same: "mset (ranked_by_usage usage order) = mset servers"
    using shuffled_order(2) [OF order] by (simp add: mset_ranked_by_usage)
  have "length (filter (eligible quota usage) (ranked_by_usage usage order))
      = length (filter (eligible quota usage) servers)"
    using same by (metis mset_filter size_mset)
  also have "\<dots> = card {s \<in> set servers. eligible quota usage s}"
    using assms(1) distinct_card [of "filter (eligible quota usage) servers"] by simp
  finally show ?thesis
    using assms(3) order unfolding select_batch_share_submission_targets_def eligible_fold
    by (simp add: Let_def)
qed

section \<open>A batch\<close>

definition load :: "ShareSubmissionPlan list \<Rightarrow> unicode \<Rightarrow> nat" where
  "load plans server = length (filter (\<lambda>plan. server \<in> set (plan_target_servers plan)) plans)"

lemma load_simps [simp]:
  "load [] = (\<lambda>_. 0)"
  "load (plans @ [plan]) =
     (\<lambda>server. load plans server + (if server \<in> set (plan_target_servers plan) then 1 else 0))"
  by (auto simp: load_def)

definition plan_ok :: "share_batch \<Rightarrow> nat \<Rightarrow> ShareSubmissionPlan \<Rightarrow> bool" where
  "plan_ok batch i plan \<longleftrightarrow>
     distinct (plan_target_servers plan) \<and> set (plan_target_servers plan) \<subseteq> set (batch_servers batch)
     \<and> length (plan_target_servers plan) = batch_target_count batch
     \<and> plan_target_count plan = of_nat (batch_target_count batch)
     \<and> plan_immediate plan = (batch_immediate batch = Some (of_nat i))
     \<and> (plan_submit_at plan = 0
         \<or> (\<exists>b. batch_buffer batch = Some b
              \<and> in_window (batch_now batch) (batch_vote_end batch) b (plan_submit_at plan)))
     \<and> (plan_immediate plan \<longrightarrow> plan_submit_at plan = 0)"

definition batch_ok :: "share_batch \<Rightarrow> nat list \<Rightarrow> server_usage \<times> ShareSubmissionPlan list \<Rightarrow> bool" where
  "batch_ok batch hist planned \<longleftrightarrow>
     (case planned of (usage, plans) \<Rightarrow>
        usage = load plans \<and> list_all2 (plan_ok batch) hist plans
        \<and> (\<forall>s \<in> set (batch_servers batch). \<forall>s' \<in> set (batch_servers batch). load plans s \<le> load plans s' + 1)
        \<and> (\<forall>s quota. batch_quota batch = Some quota \<longrightarrow> load plans s \<le> quota))"

lemma balanced_selects:
  assumes "\<forall>s \<in> set servers. \<forall>s' \<in> set servers. u s \<le> u s' + 1" "selects servers quota u chosen"
  shows "\<forall>s \<in> set servers. \<forall>s' \<in> set servers.
    u s + (if s \<in> set chosen then 1 else 0) \<le> u s' + (if s' \<in> set chosen then 1 else 0) + (1 :: nat)"
proof (intro ballI)
  fix s s'
  assume "s \<in> set servers" "s' \<in> set servers"
  then show "u s + (if s \<in> set chosen then 1 else 0) \<le> u s' + (if s' \<in> set chosen then 1 else 0) + 1"
    using assms by (fastforce simp: selects_def)
qed

lemma plan_one_share_ok:
  assumes "batch_vote_end batch < 2 ^ 64" "batch_ok batch hist planned"
    "plan_one_share batch planned i = Inr planned'"
  shows "batch_ok batch (hist @ [i]) planned'"
proof -
  obtain usage plans where planned: "planned = (usage, plans)"
    by (cases planned)
  obtain chosen usage' at plan where steps:
      "select_batch_share_submission_targets (batch_servers batch) (batch_target_count batch)
         (batch_quota batch) usage (take (server_bytes_per_share batch)
           (drop (i * server_bytes_per_share batch) (batch_server_bytes batch))) = Inr (chosen, usage')"
      "(if batch_immediate batch = Some (of_nat i) then Inr 0
        else scheduled_share_submit_at_from_entropy (batch_now batch) (batch_vote_end batch)
          (batch_buffer batch) (batch_single batch) (take (submit_at_bytes_per_share batch)
            (drop (i * submit_at_bytes_per_share batch) (batch_submit_at_bytes batch)))) = Inr at"
      "build_share_submission_plan (batch_immediate batch = Some (of_nat i)) (batch_target_count batch)
         chosen at = Inr plan" "planned' = (usage', plans @ [plan])"
    using assms(3) planned by (auto simp: plan_one_share_def Let_def)
  note chosen = select_batch [OF steps(1)]
  have plan: "plan = \<lparr>plan_immediate = (batch_immediate batch = Some (of_nat i)), plan_submit_at = at,
      plan_target_count = of_nat (batch_target_count batch), plan_target_servers = chosen\<rparr>"
    using steps(3) by (simp add: build_share_submission_plan_def split: if_splits)
  have at: "at = 0 \<or> (\<exists>b. batch_buffer batch = Some b
      \<and> in_window (batch_now batch) (batch_vote_end batch) b at)"
    using steps(2) scheduled_in_window [OF _ assms(1)] by (fastforce split: if_splits)
  have ok: "plan_ok batch i plan"
    using chosen(1,2) at steps(2) by (auto simp: plan_ok_def plan selects_def split: if_splits)
  have usage: "usage = load plans" "list_all2 (plan_ok batch) hist plans"
      "\<forall>s \<in> set (batch_servers batch). \<forall>s' \<in> set (batch_servers batch). load plans s \<le> load plans s' + 1"
      "\<forall>s quota. batch_quota batch = Some quota \<longrightarrow> load plans s \<le> quota"
    using assms(2) planned by (simp_all add: batch_ok_def)
  have "\<forall>s quota. batch_quota batch = Some quota
      \<longrightarrow> load plans s + (if s \<in> set chosen then 1 else 0) \<le> quota"
    using usage(4) chosen(1) by (fastforce simp: selects_def eligible_def usage(1))
  then show ?thesis
    using usage ok balanced_selects [OF usage(3) chosen(1) [unfolded usage(1)]] chosen(3)
    by (simp add: batch_ok_def steps(4) plan list_all2_appendI)
qed

interpretation share_batch: stepwise_invariant "plan_one_share batch"
  "\<lambda>hist planned. batch_vote_end batch < 2 ^ 64 \<longrightarrow> batch_ok batch hist planned" for batch
  by unfold_locales (blast intro: plan_one_share_ok)

lemma batch_ok_run:
  assumes "batch_vote_end batch < 2 ^ 64"
    and "run_steps (plan_one_share batch) (\<lambda>_. 0, []) indices = Inr planned"
  shows "batch_ok batch indices planned"
  using share_batch.run_holds [of batch "[]" "(\<lambda>_. 0, [])" indices planned] assms
  by (simp add: batch_ok_def)

section \<open>Placement always succeeds\<close>

lemma sum_load:
  assumes "list_all2 (plan_ok batch) hist plans"
  shows "(\<Sum>s \<in> set (batch_servers batch). load plans s) = length plans * batch_target_count batch"
  using assms
proof (induction plans arbitrary: hist rule: rev_induct)
  case (snoc plan plans)
  then obtain hist' i where hist: "hist = hist' @ [i]" "list_all2 (plan_ok batch) hist' plans" "plan_ok batch i plan"
    by (auto simp: list_all2_append2 list_all2_Cons2)
  have "(\<Sum>s \<in> set (batch_servers batch). if s \<in> set (plan_target_servers plan) then 1 else 0 :: nat)
      = card (set (batch_servers batch) \<inter> set (plan_target_servers plan))"
    by (simp add: sum.If_cases Int_def)
  also have "set (batch_servers batch) \<inter> set (plan_target_servers plan) = set (plan_target_servers plan)"
    using hist(3) by (auto simp: plan_ok_def)
  also have "card (set (plan_target_servers plan)) = batch_target_count batch"
    using hist(3) distinct_card [of "plan_target_servers plan"] by (simp add: plan_ok_def)
  finally show ?case
    using snoc.IH [OF hist(2)] by (simp add: sum.distrib)
qed simp

text \<open>
  A counting argument: were fewer than \<open>t\<close> helpers below the quota of twelve, balance would force
  more shares than have been assigned.
\<close>

lemma eligible_enough:
  assumes fin: "finite S" and t: "t \<le> card S"
    and balanced: "\<forall>s \<in> S. \<forall>s' \<in> S. u s \<le> u s' + 1"
    and total_load: "sum u S = j * t"
    and quota: "quota = None \<or> quota = Some 12 \<and> 16 * t \<le> 12 * card S \<and> j \<le> 15"
  shows "t \<le> card {s \<in> S. eligible quota u s}"
proof (cases "quota = None \<or> (\<forall>s \<in> S. u s < 12)")
  case True
  then have "{s \<in> S. eligible quota u s} = S"
    using quota by (auto simp: eligible_def)
  then show ?thesis
    using t by simp
next
  case False
  define A where "A = {s \<in> S. 12 \<le> u s}"
  have q: "quota = Some 12" "16 * t \<le> 12 * card S" "j \<le> 15"
    using False quota by auto
  obtain s where "s \<in> S" "12 \<le> u s"
    using False by (auto simp: not_less)
  then have "\<forall>s' \<in> S. 11 \<le> u s'"
    using balanced by fastforce
  then have "(\<Sum>s' \<in> S. 11 + (if s' \<in> A then 1 else 0)) \<le> sum u S"
    by (intro sum_mono) (auto simp: A_def)
  then have "11 * card S + card A \<le> j * t"
    using fin total_load by (simp add: sum.distrib sum.If_cases A_def Int_def)
  also have "\<dots> \<le> 15 * t"
    using q(3) by simp
  finally have "card A + t \<le> card S"
    using q(2) by linarith
  moreover have "card {s \<in> S. eligible quota u s} = card S - card A"
  proof -
    have "{s \<in> S. eligible quota u s} = S - A"
      using q(1) by (auto simp: eligible_def A_def)
    then show ?thesis
      using fin by (simp add: A_def card_Diff_subset)
  qed
  ultimately show ?thesis
    by linarith
qed

definition batch_ready :: "nat \<Rightarrow> share_batch \<Rightarrow> bool" where
  "batch_ready n batch \<longleftrightarrow>
     distinct (batch_servers batch) \<and> batch_target_count batch \<le> length (batch_servers batch)
     \<and> batch_target_count batch < 2 ^ 32
     \<and> (length (batch_servers batch) - 1) * 8 \<le> server_bytes_per_share batch
     \<and> n * server_bytes_per_share batch \<le> length (batch_server_bytes batch)
     \<and> share_submit_at_random_bytes_required (batch_now batch) (batch_vote_end batch)
          (batch_buffer batch) (batch_single batch) = submit_at_bytes_per_share batch
     \<and> n * submit_at_bytes_per_share batch \<le> length (batch_submit_at_bytes batch)
     \<and> (batch_quota batch = None \<or> batch_quota batch = Some 12 \<and> n = 16
          \<and> 16 * batch_target_count batch \<le> 12 * length (batch_servers batch))"

lemma slice_length: "i < n \<Longrightarrow> n * k \<le> length bs \<Longrightarrow> length (take k (drop (i * k) bs)) = k"
proof -
  assume "i < n" "n * k \<le> length bs"
  have "i * k + k \<le> n * k"
    using \<open>i < n\<close> by (metis Suc_leI add.commute mult_Suc mult_le_mono1)
  then show ?thesis
    using \<open>n * k \<le> length bs\<close> by simp
qed

lemma scheduled_exists:
  assumes "share_submit_at_random_bytes_required now_seconds vote_end buffer single \<le> length random_bytes"
  shows "\<exists>at. scheduled_share_submit_at_from_entropy now_seconds vote_end buffer single random_bytes = Inr at"
  using assms
  by (auto simp: scheduled_share_submit_at_from_entropy_def share_submit_at_random_bytes_required_def
      Let_def split: option.splits if_splits)

lemma plan_one_share_exists:
  assumes ready: "batch_ready n batch" and i: "i < n"
    and ok: "batch_ok batch [0..<i] planned"
  shows "\<exists>planned'. plan_one_share batch planned i = Inr planned'"
proof -
  obtain usage plans where planned: "planned = (usage, plans)"
    by (cases planned)
  have usage: "usage = load plans" "list_all2 (plan_ok batch) [0..<i] plans"
      "\<forall>s \<in> set (batch_servers batch). \<forall>s' \<in> set (batch_servers batch). load plans s \<le> load plans s' + 1"
    using ok planned by (simp_all add: batch_ok_def)
  have "length plans = i"
    using list_all2_lengthD [OF usage(2)] by simp
  then have "batch_target_count batch \<le> card {s \<in> set (batch_servers batch). eligible (batch_quota batch) usage s}"
    unfolding usage(1) using ready i usage(3) sum_load [OF usage(2)]
    by (intro eligible_enough [where j = i]) (auto simp: batch_ready_def distinct_card)
  then obtain chosen usage' where "select_batch_share_submission_targets (batch_servers batch)
      (batch_target_count batch) (batch_quota batch) usage (take (server_bytes_per_share batch)
        (drop (i * server_bytes_per_share batch) (batch_server_bytes batch))) = Inr (chosen, usage')"
    using select_batch_exists [of "batch_servers batch"] ready slice_length [OF i]
    by (fastforce simp: batch_ready_def)
  moreover obtain at where "scheduled_share_submit_at_from_entropy (batch_now batch) (batch_vote_end batch)
      (batch_buffer batch) (batch_single batch) (take (submit_at_bytes_per_share batch)
        (drop (i * submit_at_bytes_per_share batch) (batch_submit_at_bytes batch))) = Inr at"
    using scheduled_exists ready slice_length [OF i] by (metis batch_ready_def order_refl)
  ultimately show ?thesis
    using ready planned
    by (auto simp: plan_one_share_def Let_def build_share_submission_plan_def batch_ready_def)
qed

lemma batch_run_exists:
  assumes "batch_ready n batch" "batch_vote_end batch < 2 ^ 64" "m \<le> n"
  shows "\<exists>planned. run_steps (plan_one_share batch) (\<lambda>_. 0, []) [0..<m] = Inr planned"
  using assms(3)
proof (induction m)
  case (Suc m)
  then obtain planned where "run_steps (plan_one_share batch) (\<lambda>_. 0, []) [0..<m] = Inr planned"
    by auto
  moreover have "\<exists>planned'. plan_one_share batch planned m = Inr planned'"
    using plan_one_share_exists [OF assms(1)] batch_ok_run [OF assms(2) calculation] Suc.prems by simp
  ultimately show ?case
    by (auto simp: run_steps_append)
qed simp

lemma saturating_mul_small: "a * b < 2 ^ 64 \<Longrightarrow> saturating_mul a b = a * b"
  by (simp add: saturating_mul_def U64_MAX_def)

lemma complete_batch_numbers:
  assumes "2 \<le> m"
  defines "t \<equiv> share_submission_target_count m"
  shows "1 \<le> t" "t \<le> minimum_complete_batch_planning_server_count t"
    "minimum_complete_batch_planning_server_count t \<le> m"
    "16 * t \<le> 12 * minimum_complete_batch_planning_server_count t"
proof -
  define half where "half = m div 2 + m mod 2"
  have "1 \<le> half" "2 * half \<le> m + 1"
    using assms(1) unfolding half_def by presburger+
  moreover have "t = min half 10"
    by (simp add: t_def half_def share_submission_target_count_def SHARE_HELPER_TARGET_COUNT_CAP_def)
  ultimately have t: "1 \<le> t" "2 * t \<le> m + 1"
    by linarith+
  have c: "minimum_complete_batch_planning_server_count t = (16 * t + 11) div 12"
    using t(1) by (simp add: minimum_complete_batch_planning_server_count_def
        VOTE_COMMITMENT_SHARE_COUNT_def SHARE_HELPER_MAX_INITIAL_SHARES_PER_SERVER_def)
  show "1 \<le> t"
    by (fact t(1))
  show "t \<le> minimum_complete_batch_planning_server_count t"
    "16 * t \<le> 12 * minimum_complete_batch_planning_server_count t"
    unfolding c using t(1) by linarith+
  show "minimum_complete_batch_planning_server_count t \<le> m"
    unfolding c using t assms(1) by linarith
qed

lemma target_count_bounds:
  "share_submission_target_count m \<le> m" "share_submission_target_count m < 2 ^ 32"
  by (auto simp: share_submission_target_count_def SHARE_HELPER_TARGET_COUNT_CAP_def)

text \<open>The batch that a call plans, when its arguments pass the checks.\<close>

definition planning_pool :: "nat \<Rightarrow> bool \<Rightarrow> unicode list \<Rightarrow> nat \<Rightarrow> unicode list" where
  "planning_pool n single ranked preferred =
     take (min (max preferred
         (if n = 16 \<and> \<not> single then policy_min_server_count (share_server_selection_policy (length ranked))
          else share_submission_target_count (length ranked)))
       (length ranked)) ranked"

definition batch_of ::
  "nat \<Rightarrow> unicode list \<Rightarrow> nat \<Rightarrow> nat \<Rightarrow> nat \<Rightarrow> nat option \<Rightarrow> bool \<Rightarrow> u32 option \<Rightarrow> bytes \<Rightarrow> bytes \<Rightarrow> share_batch" where
  "batch_of n ranked preferred now_seconds vote_end buffer single immediate submit_bytes server_bytes =
     \<lparr>batch_servers = planning_pool n single ranked preferred,
      batch_target_count = share_submission_target_count (length ranked),
      batch_quota = (if n = 16 \<and> \<not> single \<and> 1 < length (planning_pool n single ranked preferred)
                     then Some 12 else None),
      batch_now = now_seconds, batch_vote_end = vote_end, batch_buffer = buffer,
      batch_single = single, batch_immediate = immediate,
      submit_at_bytes_per_share = share_submit_at_random_bytes_required now_seconds vote_end buffer single,
      server_bytes_per_share = share_server_order_random_bytes_required (length ranked),
      batch_submit_at_bytes = submit_bytes, batch_server_bytes = server_bytes\<rparr>"

lemma min_server_count_le:
  "ranked \<noteq> [] \<Longrightarrow> policy_min_server_count (share_server_selection_policy (length ranked)) \<le> length ranked"
  using complete_batch_numbers(3) [of "length ranked"]
  by (cases "length ranked = 1") (auto simp: share_server_selection_policy_def Let_def Suc_le_eq
      length_greater_0_conv neq_iff dest: less_SucE)

lemma plan_submissions_run:
  "0 < n \<Longrightarrow>
   plan_share_submissions_with_preferred_servers n ranked preferred now_seconds vote_end buffer single
     immediate submit_bytes server_bytes = Inr plans \<longleftrightarrow>
   (single \<longrightarrow> n = 1) \<and> (\<forall>i. immediate = Some i \<longrightarrow> unat i < n)
   \<and> ranked \<noteq> [] \<and> distinct ranked \<and> preferred \<le> length ranked
   \<and> share_submit_at_random_bytes_required now_seconds vote_end buffer single * n < 2 ^ 64
   \<and> share_server_order_random_bytes_required (length ranked) * n < 2 ^ 64
   \<and> share_submit_at_random_bytes_required now_seconds vote_end buffer single * n \<le> length submit_bytes
   \<and> share_server_order_random_bytes_required (length ranked) * n \<le> length server_bytes
   \<and> (\<exists>usage. run_steps (plan_one_share (batch_of n ranked preferred now_seconds vote_end buffer single
         immediate submit_bytes server_bytes)) (\<lambda>_. 0, []) [0..<n] = Inr (usage, plans))"
  using min_server_count_le [of ranked] target_count_bounds(1) [of "length ranked"]
  by (auto simp: plan_share_submissions_with_preferred_servers_def require_share_servers_def
      require_unique_share_servers_def checked_random_bytes_required_def Let_def batch_of_def
      planning_pool_def VOTE_COMMITMENT_SHARE_COUNT_def SHARE_HELPER_MAX_INITIAL_SHARES_PER_SERVER_def
      not_less not_le split: option.splits)

section \<open>Properties\<close>

lemma min_server_count:
  assumes "2 \<le> m"
  shows "policy_min_server_count (share_server_selection_policy m)
    = minimum_complete_batch_planning_server_count (share_submission_target_count m)"
  using assms by (simp add: share_server_selection_policy_def Let_def)

lemma pool_length:
  assumes "ranked \<noteq> []"
  shows "share_submission_target_count (length ranked) \<le> length (planning_pool n single ranked preferred)"
    and "\<lbrakk>n = 16; \<not> single; 2 \<le> length ranked\<rbrakk> \<Longrightarrow>
      2 \<le> length (planning_pool n single ranked preferred)
      \<and> 16 * share_submission_target_count (length ranked)
          \<le> 12 * length (planning_pool n single ranked preferred)"
proof -
  show "share_submission_target_count (length ranked) \<le> length (planning_pool n single ranked preferred)"
  proof (cases "length ranked = 1")
    case True
    then show ?thesis
      by (simp add: planning_pool_def share_server_selection_policy_def share_submission_target_count_def
          SHARE_HELPER_TARGET_COUNT_CAP_def)
  next
    case False
    then have "2 \<le> length ranked"
      using assms by (cases ranked) (auto simp: Suc_le_eq)
    then show ?thesis
      using complete_batch_numbers(2) [of "length ranked"] target_count_bounds(1) [of "length ranked"]
      by (simp add: planning_pool_def min_server_count le_max_iff_disj)
  qed
next
  assume *: "n = 16" "\<not> single" "2 \<le> length ranked"
  define c where "c = minimum_complete_batch_planning_server_count
    (share_submission_target_count (length ranked))"
  have "c \<le> length (planning_pool n single ranked preferred)"
    using * complete_batch_numbers(3) [OF *(3)] min_server_count [OF *(3)]
    by (simp add: planning_pool_def c_def)
  moreover have "1 \<le> share_submission_target_count (length ranked)"
    "16 * share_submission_target_count (length ranked) \<le> 12 * c"
    using complete_batch_numbers [OF *(3)] by (simp_all add: c_def)
  ultimately show "2 \<le> length (planning_pool n single ranked preferred)
      \<and> 16 * share_submission_target_count (length ranked)
          \<le> 12 * length (planning_pool n single ranked preferred)"
    by linarith
qed

text \<open>Every admissible call is planned.\<close>

lemma share_batch_planned:
  assumes "single \<longrightarrow> n = 1" "\<forall>i. immediate = Some i \<longrightarrow> unat i < n"
    and "ranked \<noteq> []" "distinct ranked" "preferred \<le> length ranked"
    and "vote_end < 2 ^ 64" "8 * n * length ranked < 2 ^ 64"
    and "fst (share_submission_random_bytes_required n (length ranked) now_seconds vote_end buffer single)
           \<le> length submit_bytes"
    and "snd (share_submission_random_bytes_required n (length ranked) now_seconds vote_end buffer single)
           \<le> length server_bytes"
  shows "\<exists>plans. plan_share_submissions_with_preferred_servers n ranked preferred now_seconds vote_end
      buffer single immediate submit_bytes server_bytes = Inr plans"
proof (cases "n = 0")
  case True
  then show ?thesis
    using assms(1,2) by (auto simp: plan_share_submissions_with_preferred_servers_def split: option.split)
next
  case False
  define batch where "batch = batch_of n ranked preferred now_seconds vote_end buffer single immediate
    submit_bytes server_bytes"
  have small: "8 * n < 2 ^ 64" "(length ranked - 1) * 8 * n < 2 ^ 64"
  proof -
    have "8 * n * 1 \<le> 8 * n * length ranked" "8 * n * (length ranked - 1) \<le> 8 * n * length ranked"
      using assms(3) by (auto intro: mult_le_mono2 simp: Suc_le_eq)
    moreover have "(length ranked - 1) * 8 * n = 8 * n * (length ranked - 1)"
      by (simp only: ac_simps)
    ultimately show "8 * n < 2 ^ 64" "(length ranked - 1) * 8 * n < 2 ^ 64"
      using assms(7) by linarith+
  qed
  define per_share where "per_share = (length ranked - 1) * 8"
  define sampled where "sampled = share_submit_at_random_bytes_required now_seconds vote_end buffer single"
  have fits: "per_share * n < 2 ^ 64" "sampled * n < 2 ^ 64"
  proof -
    have "sampled \<le> 8"
      by (simp add: sampled_def share_submit_at_random_bytes_required_def SHARE_SUBMIT_AT_RANDOM_BYTES_def)
    then show "sampled * n < 2 ^ 64"
      using small(1) by (meson le_less_trans mult_le_mono1)
    show "per_share * n < 2 ^ 64"
      unfolding per_share_def by (rule small(2))
  qed
  have "per_share \<le> per_share * n"
    using False by simp
  then have required: "share_server_order_random_bytes_required (length ranked) = per_share"
    unfolding share_server_order_random_bytes_required_def per_share_def [symmetric]
    using saturating_mul_small [of "length ranked - 1" 8, folded per_share_def] fits(1) by linarith
  have needed: "sampled * n \<le> length submit_bytes" "per_share * n \<le> length server_bytes"
    using assms(8,9) unfolding share_submission_random_bytes_required_def required sampled_def [symmetric]
    by (simp_all only: saturating_mul_small [OF fits(1)] saturating_mul_small [OF fits(2)] fst_conv snd_conv)
  define pool where "pool = planning_pool n single ranked preferred"
  have pool: "distinct pool" "length pool \<le> length ranked"
      "share_submission_target_count (length ranked) \<le> length pool"
    using assms(4) pool_length(1) [OF assms(3)] by (simp_all add: pool_def planning_pool_def)
  have "n = 16 \<and> 16 * share_submission_target_count (length ranked) \<le> 12 * length pool"
    if "n = 16 \<and> \<not> single \<and> 1 < length pool"
    using pool_length(2) [OF assms(3), of n single preferred] that pool(2) by (simp add: pool_def)
  then have "batch_ready n batch"
    unfolding batch_ready_def batch_def batch_of_def pool_def [symmetric]
    using pool needed target_count_bounds(2) [of "length ranked"]
    by (simp add: required sampled_def [symmetric] mult.commute)
      (auto simp: per_share_def intro: diff_le_mono)
  then obtain usage plans where "run_steps (plan_one_share batch) (\<lambda>_. 0, []) [0..<n] = Inr (usage, plans)"
    using batch_run_exists [of n batch n] assms(6) by (auto simp: batch_def batch_of_def)
  then show ?thesis
    using assms(1-5) fits needed
    unfolding plan_submissions_run [OF \<open>n \<noteq> 0\<close> [unfolded neq0_conv]] required sampled_def batch_def
    by blast
qed


definition sample_helpers :: "unicode list" where
  "sample_helpers = [[97], [98], [99]]"

lemmas sizing_defs = share_submission_random_bytes_required_def share_submit_at_random_bytes_required_def
  delayed_share_window_seconds_def share_server_order_random_bytes_required_def saturating_mul_def
  U64_MAX_def SHARE_SUBMIT_AT_RANDOM_BYTES_def SHARE_SUBMIT_AT_MAX_DELAY_SECONDS_def

lemma sample_batch:
  "\<exists>plans. plan_share_submissions_with_preferred_servers 16 sample_helpers 1 1000 9000 (Some 60) False
     (Some 3) (replicate 128 7) (replicate 256 5) = Inr plans"
  by (rule share_batch_planned) (simp_all add: sample_helpers_def sizing_defs)


text \<open>
  C37.  Initial placement never fails for want of helpers: with distinct helpers, a valid
  designated share and as much entropy as the sizing function asks for, every batch is planned;
  the quota and the minimum pool never rule a plan out.
\<close>

theorem share_batch_exists:
  assumes "single \<longrightarrow> n = 1" "\<forall>i. immediate = Some i \<longrightarrow> unat i < n"
    and "ranked \<noteq> []" "distinct ranked" "preferred \<le> length ranked"
    and "vote_end < 2 ^ 64" "8 * n * length ranked < 2 ^ 64"
    and "fst (share_submission_random_bytes_required n (length ranked) now_seconds vote_end buffer single)
           \<le> length submit_bytes"
    and "snd (share_submission_random_bytes_required n (length ranked) now_seconds vote_end buffer single)
           \<le> length server_bytes"
  shows "\<exists>plans. plan_share_submissions_with_preferred_servers n ranked preferred now_seconds vote_end
      buffer single immediate submit_bytes server_bytes = Inr plans"
  using assms by (rule share_batch_planned)

theorem share_batch_exists_witness:
  "\<exists>plans. plan_share_submissions_with_preferred_servers 16 sample_helpers 3 1000 9000 (Some 60) False
     None (replicate 128 7) (replicate 256 5) = Inr plans"
  by (rule share_batch_exists) (simp_all add: sample_helpers_def sizing_defs)

text \<open>
  C38.  The schedule of a batch is private and in time: exactly the designated share is immediate
  and released at once; every other share is either released at once or at a moment from now on,
  less than a hundred hours away and before the last-moment window of the round opens.
\<close>

theorem share_schedule_in_window:
  assumes "plan_share_submissions_with_preferred_servers n ranked preferred now_seconds vote_end
      buffer single immediate submit_bytes server_bytes = Inr plans"
    and "vote_end < 2 ^ 64" "i < n"
  shows "length plans = n
    \<and> (plan_immediate (plans ! i) \<longleftrightarrow> immediate = Some (of_nat i))
    \<and> (if plan_immediate (plans ! i) then plan_submit_at (plans ! i) = 0
       else plan_submit_at (plans ! i) = 0
         \<or> (\<exists>b. buffer = Some b \<and> in_window now_seconds vote_end b (plan_submit_at (plans ! i))))"
proof -
  define batch where "batch = batch_of n ranked preferred now_seconds vote_end buffer single immediate
    submit_bytes server_bytes"
  obtain usage where run: "run_steps (plan_one_share batch) (\<lambda>_. 0, []) [0..<n] = Inr (usage, plans)"
    using assms(1,3) by (auto simp: plan_submissions_run batch_def)
  have "batch_ok batch [0..<n] (usage, plans)"
    using assms(2) by (intro batch_ok_run [OF _ run]) (simp add: batch_def batch_of_def)
  then have "length plans = n" "plan_ok batch i (plans ! i)"
    using assms(3) by (auto simp: batch_ok_def list_all2_conv_all_nth)
  then show ?thesis
    by (simp add: plan_ok_def batch_def batch_of_def)
qed

theorem share_schedule_in_window_witness:
  "\<exists>plans :: ShareSubmissionPlan list.
     length plans = 16 \<and> plan_immediate (plans ! 3) \<and> plan_submit_at (plans ! 3) = 0"
proof -
  obtain plans where plans: "plan_share_submissions_with_preferred_servers 16 sample_helpers 1 1000 9000
      (Some 60) False (Some 3) (replicate 128 7) (replicate 256 5) = Inr plans"
    using sample_batch by blast
  have "length plans = 16 \<and> plan_immediate (plans ! 3) \<and> plan_submit_at (plans ! 3) = 0"
    using share_schedule_in_window [OF plans, of 3] by simp
  then show ?thesis
    by blast
qed

text \<open>
  A resubmission order tries every configured helper exactly once, and every helper that has
  not received the share before any helper that has.
\<close>

theorem resubmission_order_prefers_untried:
  assumes "resubmission_server_order configured sent_to random_bytes = Inr order"
  shows "resubmission_spec configured sent_to order"
proof -
  obtain u a where "distinct configured" "order = u @ a"
      "mset u = mset (untried_servers configured sent_to)"
      "mset a = mset (already_sent_servers configured sent_to)"
    using assms
    by (auto simp: resubmission_server_order_def resubmission_server_order_from_groups_def
        require_unique_share_servers_def Let_def dest: shuffled_order(2) split: if_splits)
  then show ?thesis
    using resubmission_groups by simp
qed

theorem resubmission_order_prefers_untried_witness:
  "resubmission_server_order [[97], [98], [99]] [[97]] [0, 0, 0, 0, 0, 0, 0, 0] = Inr [[99], [98], [97]]
   \<and> resubmission_spec [[97], [98], [99]] [[97]] [[99], [98], [97]]"
proof
  show *: "resubmission_server_order [[97], [98], [99]] [[97]] [0, 0, 0, 0, 0, 0, 0, 0] = Inr [[99], [98], [97]]"
    by (simp add: resubmission_server_order_def require_unique_share_servers_def untried_servers_def
        already_sent_servers_def resubmission_server_order_random_bytes_required_def sizing_defs
        saturating_add_def shuffled_share_server_order_def from_le_bytes_def
        resubmission_server_order_from_groups_def Let_def)
  show "resubmission_spec [[97], [98], [99]] [[97]] [[99], [98], [97]]"
    by (rule resubmission_order_prefers_untried [OF *])
qed

end
