(* ===== verification/Share_Timing.thy ===== *)
theory Share_Timing
  imports Share_Policy
begin

text \<open>
  Timing of share recovery (\<open>share_policy/timing.rs\<close>): the last-moment window of a round, when a
  share is polled, resubmitted or overdue, and the delay until the next tracking pass.
\<close>

section \<open>Policies and records\<close>

record ShareTimingPolicy =
  status_check_grace_seconds :: nat
  min_overdue_threshold_seconds :: nat
  max_overdue_threshold_seconds :: nat
  resubmit_cutoff_seconds :: nat
  ready_poll_interval_seconds :: nat
  future_check_max_delay_seconds :: nat
  min_tracking_delay_seconds :: nat

definition share_timing_policy_default :: ShareTimingPolicy where
  "share_timing_policy_default =
     \<lparr>status_check_grace_seconds = 10, min_overdue_threshold_seconds = 30,
      max_overdue_threshold_seconds = 60 * 60, resubmit_cutoff_seconds = 10,
      ready_poll_interval_seconds = 15, future_check_max_delay_seconds = 30,
      min_tracking_delay_seconds = 3\<rparr>"

record ShareDelegationRecord =
  share_round_id :: unicode
  share_bundle_index :: u32
  share_proposal_id :: u32
  share_index :: u32
  sent_to_urls :: "unicode list"
  ambiguous_urls :: "unicode list"
  attempting_urls :: "unicode list"
  share_target_count :: u32
  share_nullifier :: bytes
  share_confirmed :: bool
  share_submit_at :: nat
  share_created_at :: nat

record ShareTrackingSummary =
  summary_total :: nat
  summary_confirmed :: nat
  summary_waiting :: nat
  summary_ready :: nat
  summary_overdue :: nat

section \<open>The last-moment window\<close>

definition LAST_MOMENT_BUFFER_FRACTION_NUMERATOR :: nat where
  "LAST_MOMENT_BUFFER_FRACTION_NUMERATOR = 2"

definition LAST_MOMENT_BUFFER_FRACTION_DENOMINATOR :: nat where
  "LAST_MOMENT_BUFFER_FRACTION_DENOMINATOR = 5"

definition LAST_MOMENT_BUFFER_MAX_SECONDS :: nat where
  "LAST_MOMENT_BUFFER_MAX_SECONDS = 6 * 60 * 60"

definition last_moment_buffer_seconds :: "nat \<Rightarrow> nat \<Rightarrow> nat option" where
  "last_moment_buffer_seconds ceremony_start vote_end =
     (if vote_end < ceremony_start then None
      else
        let duration = vote_end - ceremony_start in
        if duration = 0 then None
        else
          let numerator = duration * LAST_MOMENT_BUFFER_FRACTION_NUMERATOR;
              denominator = LAST_MOMENT_BUFFER_FRACTION_DENOMINATOR;
              buffer = (numerator + denominator - 1) div denominator
          in Some (min buffer LAST_MOMENT_BUFFER_MAX_SECONDS))"

definition last_moment_deadline_seconds :: "nat \<Rightarrow> nat \<Rightarrow> nat option" where
  "last_moment_deadline_seconds ceremony_start vote_end =
     map_option (\<lambda>buffer. vote_end - buffer) (last_moment_buffer_seconds ceremony_start vote_end)"

definition is_last_moment :: "nat \<Rightarrow> nat \<Rightarrow> nat \<Rightarrow> bool" where
  "is_last_moment now_seconds ceremony_start vote_end =
     (case last_moment_deadline_seconds ceremony_start vote_end of
        None \<Rightarrow> False
      | Some deadline \<Rightarrow> now_seconds \<ge> deadline \<and> now_seconds < vote_end)"

section \<open>Polling and resubmission\<close>

definition share_recovery_base_time :: "ShareDelegationRecord \<Rightarrow> nat" where
  "share_recovery_base_time share =
     (if share_submit_at share > 0 then share_submit_at share else share_created_at share)"

definition is_share_ready_for_status_check ::
  "ShareDelegationRecord \<Rightarrow> nat \<Rightarrow> ShareTimingPolicy \<Rightarrow> bool" where
  "is_share_ready_for_status_check share now_seconds policy =
     (if share_confirmed share then False
      else now_seconds \<ge> saturating_add (share_recovery_base_time share)
                           (status_check_grace_seconds policy))"

definition overdue_threshold_seconds :: "ShareDelegationRecord \<Rightarrow> nat \<Rightarrow> ShareTimingPolicy \<Rightarrow> nat" where
  "overdue_threshold_seconds share vote_end policy =
     (let base_time = share_recovery_base_time share;
          remaining_window = vote_end - base_time;
          threshold = remaining_window div 4;
          max_threshold = max (max_overdue_threshold_seconds policy) (min_overdue_threshold_seconds policy)
      in min (max threshold (min_overdue_threshold_seconds policy)) max_threshold)"

definition is_share_resubmission_window_open :: "nat \<Rightarrow> nat \<Rightarrow> ShareTimingPolicy \<Rightarrow> bool" where
  "is_share_resubmission_window_open now_seconds vote_end policy =
     (vote_end > saturating_add now_seconds (resubmit_cutoff_seconds policy))"

definition should_resubmit_share ::
  "ShareDelegationRecord \<Rightarrow> nat \<Rightarrow> nat \<Rightarrow> ShareTimingPolicy \<Rightarrow> bool" where
  "should_resubmit_share share now_seconds vote_end policy =
     (if share_confirmed share then False
      else
        let base_time = share_recovery_base_time share;
            retry_at = saturating_add base_time (overdue_threshold_seconds share vote_end policy)
        in now_seconds \<ge> retry_at \<and> is_share_resubmission_window_open now_seconds vote_end policy)"

definition min_second :: "nat option \<Rightarrow> nat \<Rightarrow> nat option" where
  "min_second current candidate =
     (case current of
        Some c \<Rightarrow> if c \<le> candidate then Some c else Some candidate
      | None \<Rightarrow> Some candidate)"

text \<open>The locals of the polling loop: \<open>next_second\<close>, \<open>has_unconfirmed\<close> and \<open>has_ready\<close>.\<close>

definition observe_share ::
  "nat \<Rightarrow> ShareTimingPolicy \<Rightarrow> ShareDelegationRecord \<Rightarrow> nat option \<times> bool \<times> bool
   \<Rightarrow> nat option \<times> bool \<times> bool" where
  "observe_share now_seconds policy share state =
     (case state of (next_second, has_unconfirmed, has_ready) \<Rightarrow>
        if share_confirmed share then state
        else
          let check_at = saturating_add (share_recovery_base_time share)
                           (status_check_grace_seconds policy) in
          if check_at > now_seconds then (min_second next_second check_at, True, has_ready)
          else (next_second, True, True))"

definition next_tracking_delay_seconds ::
  "ShareDelegationRecord list \<Rightarrow> nat \<Rightarrow> ShareTimingPolicy \<Rightarrow> nat option" where
  "next_tracking_delay_seconds shares now_seconds policy =
     (case fold (observe_share now_seconds policy) shares (None, False, False) of
        (next_second, has_unconfirmed, has_ready) \<Rightarrow>
          if \<not> has_unconfirmed then None
          else
            let future_delay = map_option (\<lambda>n. min (n - now_seconds)
                  (future_check_max_delay_seconds policy)) next_second;
                ready_delay = (if has_ready then Some (ready_poll_interval_seconds policy) else None);
                delay_seconds = (case (ready_delay, future_delay) of
                    (Some ready, Some future) \<Rightarrow> min ready future
                  | (Some ready, None) \<Rightarrow> ready
                  | (None, Some future) \<Rightarrow> future
                  | (None, None) \<Rightarrow> ready_poll_interval_seconds policy)
            in Some (max delay_seconds (min_tracking_delay_seconds policy)))"

definition summarize_share ::
  "nat \<Rightarrow> nat option \<Rightarrow> ShareTimingPolicy \<Rightarrow> ShareDelegationRecord \<Rightarrow> ShareTrackingSummary
   \<Rightarrow> ShareTrackingSummary" where
  "summarize_share now_seconds vote_end policy share summary =
     (if share_confirmed share
      then summary\<lparr>summary_confirmed := summary_confirmed summary + 1\<rparr>
      else if (case vote_end of
                 Some vote_end \<Rightarrow> should_resubmit_share share now_seconds vote_end policy
               | None \<Rightarrow> False)
      then summary\<lparr>summary_overdue := summary_overdue summary + 1\<rparr>
      else if is_share_ready_for_status_check share now_seconds policy
      then summary\<lparr>summary_ready := summary_ready summary + 1\<rparr>
      else summary\<lparr>summary_waiting := summary_waiting summary + 1\<rparr>)"

definition summarize_share_tracking ::
  "ShareDelegationRecord list \<Rightarrow> nat \<Rightarrow> nat option \<Rightarrow> ShareTimingPolicy \<Rightarrow> ShareTrackingSummary" where
  "summarize_share_tracking shares now_seconds vote_end policy =
     fold (summarize_share now_seconds vote_end policy) shares
       \<lparr>summary_total = length shares, summary_confirmed = 0, summary_waiting = 0,
        summary_ready = 0, summary_overdue = 0\<rparr>"

section \<open>Properties\<close>

abbreviation check_time :: "ShareTimingPolicy \<Rightarrow> ShareDelegationRecord \<Rightarrow> nat" where
  "check_time policy share \<equiv>
     saturating_add (share_recovery_base_time share) (status_check_grace_seconds policy)"

text \<open>What the loop has learned from the shares it has seen.\<close>

definition learned ::
  "nat \<Rightarrow> ShareTimingPolicy \<Rightarrow> ShareDelegationRecord set \<Rightarrow> nat option \<times> bool \<times> bool \<Rightarrow> bool" where
  "learned now_seconds policy seen state \<longleftrightarrow>
     (case state of (next_second, has_unconfirmed, has_ready) \<Rightarrow>
        has_unconfirmed = (\<exists>s \<in> seen. \<not> share_confirmed s)
        \<and> has_ready = (\<exists>s \<in> seen. \<not> share_confirmed s \<and> check_time policy s \<le> now_seconds)
        \<and> (case next_second of
             None \<Rightarrow> \<forall>s \<in> seen. share_confirmed s \<or> check_time policy s \<le> now_seconds
           | Some n \<Rightarrow> now_seconds < n
               \<and> (\<exists>s \<in> seen. \<not> share_confirmed s \<and> check_time policy s = n)
               \<and> (\<forall>s \<in> seen. share_confirmed s \<or> check_time policy s \<le> now_seconds
                    \<or> n \<le> check_time policy s)))"

lemma observe_learned:
  "learned now_seconds policy seen state \<Longrightarrow>
     learned now_seconds policy (insert share seen) (observe_share now_seconds policy share state)"
  by (auto simp: learned_def observe_share_def min_second_def Let_def split: prod.splits option.splits)

lemma fold_learned:
  "learned now_seconds policy seen state \<Longrightarrow>
     learned now_seconds policy (seen \<union> set shares) (fold (observe_share now_seconds policy) shares state)"
proof (induction shares arbitrary: seen state)
  case (Cons share shares)
  from Cons.IH [OF observe_learned [OF Cons.prems]] show ?case
    by (simp add: insert_is_Un [symmetric])
qed simp

text \<open>Every share is counted under exactly one status.\<close>

lemma fold_summarize_total:
  "summary_total (fold (summarize_share now_seconds vote_end policy) shares summary) = summary_total summary"
  "summary_confirmed (fold (summarize_share now_seconds vote_end policy) shares summary)
     + summary_waiting (fold (summarize_share now_seconds vote_end policy) shares summary)
     + summary_ready (fold (summarize_share now_seconds vote_end policy) shares summary)
     + summary_overdue (fold (summarize_share now_seconds vote_end policy) shares summary)
   = summary_confirmed summary + summary_waiting summary + summary_ready summary
     + summary_overdue summary + length shares"
  by (induction shares arbitrary: summary) (simp_all add: summarize_share_def)

lemma summary_partition:
  "summary_total (summarize_share_tracking shares now_seconds vote_end policy)
   = summary_confirmed (summarize_share_tracking shares now_seconds vote_end policy)
     + summary_waiting (summarize_share_tracking shares now_seconds vote_end policy)
     + summary_ready (summarize_share_tracking shares now_seconds vote_end policy)
     + summary_overdue (summarize_share_tracking shares now_seconds vote_end policy)"
  unfolding summarize_share_tracking_def fold_summarize_total by simp

text \<open>A resubmission happens only after the minimum threshold and before the cutoff.\<close>

lemma resubmission_in_time:
  assumes "should_resubmit_share share now_seconds vote_end policy" "vote_end < 2 ^ 64"
  shows "\<not> share_confirmed share" "now_seconds + resubmit_cutoff_seconds policy < vote_end"
    "share_recovery_base_time share + min_overdue_threshold_seconds policy \<le> now_seconds"
proof -
  show "\<not> share_confirmed share"
    using assms(1) by (auto simp: should_resubmit_share_def split: if_splits)
  then have "saturating_add (share_recovery_base_time share) (overdue_threshold_seconds share vote_end policy)
      \<le> now_seconds" and late: "saturating_add now_seconds (resubmit_cutoff_seconds policy) < vote_end"
    using assms(1) by (simp_all add: should_resubmit_share_def is_share_resubmission_window_open_def Let_def)
  moreover show open_window: "now_seconds + resubmit_cutoff_seconds policy < vote_end"
    using late assms(2) by (simp add: saturating_add_def U64_MAX_def min_less_iff_disj)
  moreover have "min_overdue_threshold_seconds policy \<le> overdue_threshold_seconds share vote_end policy"
    by (simp add: overdue_threshold_seconds_def Let_def)
  ultimately show "share_recovery_base_time share + min_overdue_threshold_seconds policy \<le> now_seconds"
    using assms(2) by (simp add: saturating_add_def U64_MAX_def min_le_iff_disj)
qed

text \<open>
  Tracking stops exactly when every share is confirmed, and no unconfirmed share waits longer
  than it should: the next pass comes no sooner than the minimum delay, no later than the poll
  interval when a share is ready, and no later than the check time of any share that is not ready.
\<close>

theorem tracking_delay_fair:
  "case next_tracking_delay_seconds shares now_seconds policy of
     None \<Rightarrow> list_all share_confirmed shares
   | Some delay \<Rightarrow>
       \<not> list_all share_confirmed shares \<and> min_tracking_delay_seconds policy \<le> delay
       \<and> list_all (\<lambda>share. share_confirmed share
            \<or> delay \<le> max (min_tracking_delay_seconds policy)
                (if check_time policy share \<le> now_seconds then ready_poll_interval_seconds policy
                 else min (check_time policy share - now_seconds) (future_check_max_delay_seconds policy)))
          shares"
proof -
  obtain n u r where fold: "fold (observe_share now_seconds policy) shares (None, False, False) = (n, u, r)"
    by (cases "fold (observe_share now_seconds policy) shares (None, False, False)") auto
  have "learned now_seconds policy (set shares) (n, u, r)"
    using fold_learned [of now_seconds policy "{}" "(None, False, False)" shares] fold
    by (simp add: learned_def)
  then show ?thesis
    by (auto simp: next_tracking_delay_seconds_def fold learned_def list_all_iff Let_def min_le_iff_disj
        le_max_iff_disj split: option.splits)
qed

end
