(* ===== verification/Spec2Isabelle.thy ===== *)
theory Spec2Isabelle
  imports Submission_Coordinator_Safety Submission_Recovery_Exact Submission_Protocol_Safety
    Submission_Confirmation_Exact Confirmation_Projection_Effects
    Note_Bundling_Plan Share_Placement Share_Timing
begin

text \<open>
  Verification of the Zcash voting SDK, \<open>src/zcash_voting\<close>: how a delegation, a vote or a batch of
  votes becomes exactly one durable transaction on the vote chain, and the plans around it.  Paths
  below are relative to \<open>src/zcash_voting/src\<close>.

  \<^bold>\<open>The program.\<close>  A submission has an identity (wallet, network, round, bundle, target) and a
  generation (a digest of what was signed).  The coordinator runs one bounded pass at a time:
  it admits the submission to the SQLite store, POSTs to the chain's endpoints, looks up
  transactions, and, when a POST may have been dispatched without an answer, searches the
  commitment tree for the exact leaves of the generation.  A confirmed submission is projected
  onto the voting tables in the transaction that makes its row terminal; a rejected combined
  batch is retired there.  Around this, notes are packed into bundles before a delegation, and
  the shares of a vote are placed on helper servers after its confirmation.

  \<^bold>\<open>Foundations.\<close>
  \<^item> \<open>Voting_Prelude\<close>: machine types (\<open>u8\<close> to \<open>u64\<close> as words, \<open>usize\<close> as \<open>nat\<close>), \<open>Result\<close> as a sum
    type with its combinators, byte strings, \<open>run_steps\<close> (a loop with \<open>?\<close>) and the locale
    \<open>stepwise_invariant\<close>, whose interpretations carry the loop and history invariants.
  \<^item> \<open>Http_Text\<close>: the string operations of the standard library.  \<open>Voting_Types\<close>: \<open>types.rs\<close>.
  \<^item> \<open>Pass_Monad\<close>: computations that end with a value, a failure or a panic.

  \<^bold>\<open>The submission lifecycle\<close> (\<open>chain_submission/\<close>).
  \<^item> \<open>Submission_Identity\<close> (\<open>identity.rs\<close>) and \<open>Submission_Result\<close> (\<open>result.rs\<close>): identities with
    their durable keys, diagnostics, confirmations, results.  Keys are injective.
  \<^item> \<open>Submission_State\<close> (\<open>state.rs\<close>): \<open>apply_submission_observation\<close>.  It realises exactly the
    lifecycle graph; terminal states are final, a confirmed hash was a candidate, and the ambiguity
    of a dispatch is never erased.
  \<^item> \<open>Submission_Coordination\<close> (\<open>coordination.rs\<close>): lock keys and acquisition; some operation can
    always proceed.
  \<^item> \<open>Submission_Store\<close> (\<open>store.rs\<close>, \<open>generation.rs\<close>): requests and records.  \<open>Submission_Sqlite\<close>
    (\<open>store/sqlite.rs\<close>, \<open>storage/migrations/001_init.sql\<close>): the row codec, constraints, triggers
    and every operation, with the faults a transaction can have as arguments.
  \<^item> \<open>Submission_Table\<close> and \<open>Submission_Store_Safety\<close>: the SQL table refines a table of typed
    records; terminal rows, one unresolved submission per bundle, one owner per hash, failures
    that write nothing.
  \<^item> \<open>Submission_Coordinator\<close> (\<open>coordinator.rs\<close>): a whole pass as a computation over the database
    and an environment, which answers every POST, lookup, scan, timer, clock and interruption by a
    function of the number of questions asked so far.  \<open>Submission_Rows\<close>, \<open>Submission_Pass\<close>,
    \<open>Submission_Post_Budget\<close> and \<open>Submission_Coordinator_Safety\<close>: for every environment a pass
    stays in its POST budget, reserves before it posts, never loses a submission that may have
    landed, never panics and reports the state it leaves.
  \<^item> \<open>Submission_Protocol\<close> and \<open>Submission_Protocol_Safety\<close> (\<open>protocol.rs\<close>, \<open>ingress_timeout.rs\<close>):
    endpoint sets, the certainty of a POST and the status lookup; they meet what the coordinator
    relies on.
  \<^item> \<open>Submission_Recovery\<close> and \<open>Submission_Recovery_Exact\<close> (\<open>recovery.rs\<close>): budgeted pages and the
    streaming scan of the tree, which finds exactly the occurrences of the layout.
  \<^item> \<open>Submission_Confirmation\<close> and \<open>Submission_Confirmation_Exact\<close> (\<open>confirmation.rs\<close>, events): a
    hash confirmation is evidence about the locked generation, and the event the chain reports for
    it is accepted.

  \<^bold>\<open>Votes and their tables.\<close>
  \<^item> \<open>Vote_Recovery\<close> and \<open>Vote_Recovery_Exact\<close> (\<open>vote.rs\<close>, \<open>vote_commitment.rs\<close>,
    \<open>delegate_and_vote_batch/authorization.rs\<close>): the recovery documents round trip, signed digests
    bind their envelope up to a hash collision, and a batch is assembled in one way.
  \<^item> \<open>Voting_Tables\<close> (\<open>storage/queries/mod.rs\<close>, \<open>vote.rs\<close>, \<open>storage/migrations/001_init.sql\<close>): the
    tables a terminal submission touches, as lists of rows with the columns that are used, the
    queries and the triggers.
  \<^item> \<open>Confirmation_Projection\<close> (\<open>confirmation.rs\<close>, \<open>chain_submission/confirmation.rs\<close>),
    \<open>Confirmation_Projection_Safety\<close> and \<open>Confirmation_Projection_Effects\<close>:
    \<open>apply_confirmed_generation\<close> and \<open>retire_rejected_combined_generation\<close>.  Recorded hashes and positions are final, a confirmation
    is recorded completely, filling a position keeps the pending delivery, a retired generation had
    not reached the chain, and the rejection streak is exact.

  \<^bold>\<open>Plans.\<close>
  \<^item> \<open>Note_Bundling\<close> and \<open>Note_Bundling_Plan\<close> (\<open>note_bundling.rs\<close>, \<open>governance.rs\<close>): plans account for
    every note, exist, and do not depend on the order of the notes.
  \<^item> \<open>Share_Policy\<close>, \<open>Share_Placement\<close> and \<open>Share_Timing\<close> (\<open>share_policy/\<close>): placement is balanced and
    within its quota, succeeds with enough helpers, and schedules end before the last moment.

  \<^bold>\<open>Parameters.\<close>  Code outside the repository is an argument: base64, hex, serde_json, the url
  library, BLAKE2b, the Pallas encoding, the Merkle frontier, SQLite's \<open>json_set\<close> and
  \<open>json_extract\<close>, and the texts of its errors.  The store takes the domain tables as the record
  \<open>domain_ops\<close>; the theories on the voting tables model what stands behind its confirmation and
  retirement operations.  Theorems name what they need of a parameter as hypotheses and have
  witnesses that instantiate it.

  \<^bold>\<open>Bounds and fuel.\<close>  The page loop of a tree scan has one unit of fuel more than
  \<open>MAX_RECOVERY_LEAF_REQUESTS\<close>, and is proved never to run out.  The POST loop counts down the
  attempts its policy grants.  The privacy trim and lossy UTF-8 decoding have termination proofs by
  a measure.  Every other loop is recursion over its data.  Positions are words compared with \<open>TREE_CAPACITY\<close>, and are checked to fit before they become SQLite integers.

  \<^bold>\<open>Not modelled.\<close>  The tokio lock guards and timers themselves; the client's episode loop
  (\<open>client.rs\<close>) and read-only planning (\<open>planning.rs\<close>); the derivation of a generation from the domain
  tables; proofs, signatures and PCZT construction, which come from libraries that are not in the
  repository; the wire codecs, configuration documents, helper HTTP client, PIR and tree
  synchronisation, which are serialization and network; round planning and driving, and the queries
  of the domain storage that no submission runs.  A statement that fails inside SQLite for a reason
  other than a modelled constraint or trigger aborts its transaction and is a fault argument of the
  submission store; the voting tables have no such branch.
\<close>

end
